theory Spec2Isabelle
  imports Complex_Main "HOL-Library.Word"
begin

section \<open>Overview\<close>

text \<open>
  The repository holds two complete programs for the same block editor:
  \<^item> \<^verbatim>\<open>src/main.cpp\<close>, whose definitions carry the suffix \<open>_m\<close> below;
  \<^item> \<^verbatim>\<open>src/unnamed/part_000\<close>, whose definitions carry the suffix \<open>_p\<close>.

  Every global variable of a program is a field of one state record; every function that
  mutates globals takes the state and returns the new one. The body of the event loop is
  one function per program (\<open>handle_event_m\<close>, \<open>handle_event_p\<close>) that follows the
  order of the \<^verbatim>\<open>if\<close> blocks and their \<^verbatim>\<open>continue\<close> statements. Values read from
  the environment (the clock, the pointer position) are parameters.

  Modelling conventions:
  \<^item> \<^verbatim>\<open>int steps\<close> is a 32-bit word, read with \<open>sint\<close>; \<^verbatim>\<open>+=\<close> wraps around.
  \<^item> Screen coordinates and vector indices are \<open>int\<close>: they stay far from the 32-bit limits.
  \<^item> The \<^verbatim>\<open>float\<close> sprite coordinates of \<^verbatim>\<open>main.cpp\<close> are binary32 values, added with
    rounding. Those of \<^verbatim>\<open>part_000\<close> are \<open>real\<close>: they start at the centre of the stage
    and are clamped to the stage after every step, so every value that survives the clamp
    is an integer between 30 and 370, which binary32 arithmetic computes exactly.
  \<^item> An out-of-range \<^verbatim>\<open>operator[]\<close> or \<^verbatim>\<open>erase\<close> is undefined behaviour in C++; the
    model returns \<open>None\<close> there.
  \<^item> Rendering reads the state and never writes it, so it is not modelled.
\<close>

section \<open>SDL and C++ library primitives\<close>

record SDL_Rect =
  rect_x :: int
  rect_y :: int
  rect_w :: int
  rect_h :: int

record SDL_Point =
  point_x :: int
  point_y :: int

record SDL_Color =
  col_r :: "8 word"
  col_g :: "8 word"
  col_b :: "8 word"
  col_a :: "8 word"

definition SDL_PointInRect :: "SDL_Point \<Rightarrow> SDL_Rect \<Rightarrow> bool" where
  "SDL_PointInRect p r \<longleftrightarrow>
     point_x p \<ge> rect_x r \<and> point_x p < rect_x r + rect_w r \<and>
     point_y p \<ge> rect_y r \<and> point_y p < rect_y r + rect_h r"

text \<open>C++ integer division truncates towards zero.\<close>

definition cdiv :: "int \<Rightarrow> int \<Rightarrow> int" where
  "cdiv a b = sgn a * sgn b * (\<bar>a\<bar> div \<bar>b\<bar>)"

datatype Keycode =
  SDLK_RETURN | SDLK_KP_ENTER | SDLK_ESCAPE | SDLK_BACKSPACE | SDLK_SPACE | SDLK_OTHER

datatype Button = SDL_BUTTON_LEFT | SDL_BUTTON_OTHER

text \<open>
  The events the loops look at. \<open>SDL_TEXTINPUT\<close> carries \<^verbatim>\<open>ev.text.text\<close>, a
  button event carries the button and the point \<^verbatim>\<open>{ev.button.x, ev.button.y}\<close>,
  \<open>SDL_MOUSEWHEEL\<close> carries \<^verbatim>\<open>ev.wheel.y\<close> and the pointer position that
  \<^verbatim>\<open>SDL_GetMouseState\<close> reports at that moment.
\<close>

datatype SDL_Event =
  SDL_QUIT
  | SDL_TEXTINPUT string
  | SDL_KEYDOWN Keycode
  | SDL_MOUSEBUTTONDOWN Button SDL_Point
  | SDL_MOUSEMOTION int int
  | SDL_MOUSEBUTTONUP Button SDL_Point
  | SDL_MOUSEWHEEL int SDL_Point
  | SDL_OTHER

subsection \<open>\<^verbatim>\<open>std::stoi\<close> and \<^verbatim>\<open>std::to_string\<close>\<close>

datatype stoi_error = invalid_argument | out_of_range

definition isspace :: "char \<Rightarrow> bool" where
  "isspace c \<longleftrightarrow> (of_char c :: nat) = 32 \<or> (9 \<le> (of_char c :: nat) \<and> (of_char c :: nat) \<le> 13)"

definition isdigit :: "char \<Rightarrow> bool" where
  "isdigit c \<longleftrightarrow> 48 \<le> (of_char c :: nat) \<and> (of_char c :: nat) \<le> 57"

fun digits_value :: "nat \<Rightarrow> string \<Rightarrow> nat" where
  "digits_value acc [] = acc"
| "digits_value acc (c # cs) = digits_value (acc * 10 + (of_char c - 48)) cs"

fun strip_sign :: "string \<Rightarrow> bool \<times> string" where
  "strip_sign [] = (False, [])"
| "strip_sign (c # cs) =
     (if c = CHR ''-'' then (True, cs)
      else if c = CHR ''+'' then (False, cs)
      else (False, c # cs))"

text \<open>
  \<^verbatim>\<open>std::stoi(str)\<close> in base 10: \<^verbatim>\<open>strtol\<close> on \<^verbatim>\<open>str.c_str()\<close> skips white space,
  takes an optional sign and the longest run of digits; no digit throws
  \<^verbatim>\<open>std::invalid_argument\<close>, a value outside \<^verbatim>\<open>int\<close> throws \<^verbatim>\<open>std::out_of_range\<close>.
\<close>

definition stoi :: "string \<Rightarrow> stoi_error + int" where
  "stoi str =
     (let cstr = takeWhile (\<lambda>c. c \<noteq> CHR 0x00) str;
          (neg, rest) = strip_sign (dropWhile isspace cstr);
          ds = takeWhile isdigit rest
      in if ds = [] then Inl invalid_argument
         else let v = (if neg then - int (digits_value 0 ds) else int (digits_value 0 ds))
              in if v < - 2147483648 \<or> 2147483647 < v then Inl out_of_range else Inr v)"

fun nat_digits :: "nat \<Rightarrow> string" where
  "nat_digits n =
     (if n < 10 then [char_of (48 + n)]
      else nat_digits (n div 10) @ [char_of (48 + n mod 10)])"

definition to_string :: "int \<Rightarrow> string" where
  "to_string i = (if i < 0 then CHR ''-'' # nat_digits (nat (- i)) else nat_digits (nat i))"

subsection \<open>\<^verbatim>\<open>float\<close>\<close>

text \<open>
  A \<^verbatim>\<open>float\<close> is an IEEE 754 binary32 value: a finite value \<open>m * 2 ^ e\<close> with
  \<open>\<bar>m\<bar> < 2 ^ 24\<close> and \<open>- 149 \<le> e \<le> 104\<close>, an infinity, or a NaN. The sign of a zero is
  not kept: the programs never read it.

  \<open>quantum n q a\<close> is the spacing of the values around the magnitude \<open>a\<close>: the largest
  of \<open>q\<close>, \<open>q / 2\<close>, ..., \<open>q / 2 ^ n\<close> with \<open>2 ^ 23\<close> times it at most \<open>a\<close>, and
  \<open>q / 2 ^ n\<close> when there is none. \<open>to_float\<close> rounds a real number to the nearest value,
  a tie to the even significand, and to an infinity from \<open>2 ^ 128 - 2 ^ 103\<close> on.
\<close>

datatype float = Finite real | PlusInfinity | MinusInfinity | NaN

primrec quantum :: "nat \<Rightarrow> real \<Rightarrow> real \<Rightarrow> real" where
  "quantum 0 q a = q"
| "quantum (Suc n) q a = (if 2 ^ 23 * q \<le> a then q else quantum n (q / 2) a)"

definition round_even :: "real \<Rightarrow> int" where
  "round_even r =
     (let f = \<lfloor>r\<rfloor> in
      if r - real_of_int f < 1 / 2 then f
      else if 1 / 2 < r - real_of_int f then f + 1
      else if even f then f else f + 1)"

definition to_float :: "real \<Rightarrow> float" where
  "to_float x =
     (let q = quantum 253 (2 ^ 104) \<bar>x\<bar>;
          y = real_of_int (round_even (x / q)) * q
      in if 2 ^ 128 \<le> y then PlusInfinity
         else if y \<le> - (2 ^ 128) then MinusInfinity
         else Finite y)"

text \<open>\<^verbatim>\<open>a + b\<close> on \<^verbatim>\<open>float\<close>: the exact sum, rounded.\<close>

fun fadd :: "float \<Rightarrow> float \<Rightarrow> float" where
  "fadd (Finite x) (Finite y) = to_float (x + y)"
| "fadd NaN b = NaN"
| "fadd a NaN = NaN"
| "fadd PlusInfinity MinusInfinity = NaN"
| "fadd MinusInfinity PlusInfinity = NaN"
| "fadd PlusInfinity b = PlusInfinity"
| "fadd a PlusInfinity = PlusInfinity"
| "fadd MinusInfinity b = MinusInfinity"
| "fadd a MinusInfinity = MinusInfinity"

subsection \<open>\<^verbatim>\<open>std::vector\<close> operations\<close>

definition erase_at :: "'a list \<Rightarrow> nat \<Rightarrow> 'a list" where
  "erase_at xs i = take i xs @ drop (Suc i) xs"

definition insert_at :: "'a list \<Rightarrow> nat \<Rightarrow> 'a \<Rightarrow> 'a list" where
  "insert_at xs i v = take i xs @ v # drop i xs"

section \<open>The program \<^verbatim>\<open>main.cpp\<close>\<close>

subsection \<open>Constants, types and globals\<close>

definition WINDOW_W_m :: int where "WINDOW_W_m = 1100"
definition WINDOW_H_m :: int where "WINDOW_H_m = 650"
definition PALETTE_W_m :: int where "PALETTE_W_m = 200"
definition WORKSPACE_X_m :: int where "WORKSPACE_X_m = PALETTE_W_m"
definition WORKSPACE_W_m :: int where "WORKSPACE_W_m = 500"
definition STAGE_X_m :: int where "STAGE_X_m = PALETTE_W_m + WORKSPACE_W_m"
definition BLOCK_WIDTH_m :: int where "BLOCK_WIDTH_m = 170"
definition BLOCK_HEIGHT_m :: int where "BLOCK_HEIGHT_m = 38"
definition BLOCK_GAP_m :: int where "BLOCK_GAP_m = 10"

datatype BlockCategory_m = MOTION_m | EVENT_m | LOOKS_m

datatype BlockType_m = EVENT_FLAG_m | MOVE_X_m | MOVE_Y_m | LOOKS_SHOW_m | LOOKS_HIDE_m

record Block_m =
  rect_m :: SDL_Rect
  cat_m :: BlockCategory_m
  type_m :: BlockType_m
  color_m :: SDL_Color
  steps_m :: "32 word"

text \<open>
  \<open>lastStepTime_m\<close> is a \<^verbatim>\<open>steady_clock::time_point\<close>, counted in nanoseconds.
  \<open>quit_m\<close> is the local \<^verbatim>\<open>quit\<close> of \<^verbatim>\<open>main\<close>.
\<close>

record State_m =
  spriteX_m :: float
  spriteY_m :: float
  spriteVisible_m :: bool
  palette_m :: "Block_m list"
  workspace_m :: "Block_m list"
  draggingIdx_m :: int
  dragOffset_m :: SDL_Point
  running_m :: bool
  scriptStep_m :: int
  lastStepTime_m :: int
  highlightIdx_m :: int
  editingIdx_m :: int
  editBuffer_m :: string
  quit_m :: bool

definition globals_m :: State_m where
  "globals_m =
     \<lparr> spriteX_m = Finite 200, spriteY_m = Finite 200, spriteVisible_m = True,
       palette_m = [], workspace_m = [],
       draggingIdx_m = - 1, dragOffset_m = \<lparr> point_x = 0, point_y = 0 \<rparr>,
       running_m = False, scriptStep_m = 0, lastStepTime_m = 0, highlightIdx_m = - 1,
       editingIdx_m = - 1, editBuffer_m = [], quit_m = False \<rparr>"

subsection \<open>\<^verbatim>\<open>BuildPalette\<close>\<close>

definition colEvent_m :: SDL_Color where
  "colEvent_m = \<lparr> col_r = 255, col_g = 165, col_b = 0, col_a = 255 \<rparr>"
definition colMotion_m :: SDL_Color where
  "colMotion_m = \<lparr> col_r = 70, col_g = 130, col_b = 180, col_a = 255 \<rparr>"
definition colLooks_m :: SDL_Color where
  "colLooks_m = \<lparr> col_r = 180, col_g = 80, col_b = 200, col_a = 255 \<rparr>"

text \<open>
  The lambda \<^verbatim>\<open>add\<close> captures \<^verbatim>\<open>x\<close> (always 15) and \<^verbatim>\<open>y\<close> by reference and pushes
  onto the global \<^verbatim>\<open>palette\<close>; here it maps the pair of \<^verbatim>\<open>y\<close> and the palette.
\<close>

definition add_m ::
  "BlockCategory_m \<Rightarrow> BlockType_m \<Rightarrow> SDL_Color \<Rightarrow> 32 word \<Rightarrow> int \<times> Block_m list \<Rightarrow> int \<times> Block_m list"
where
  "add_m cat type col steps yp =
     (case yp of (y, pal) \<Rightarrow>
        (y + (BLOCK_HEIGHT_m + BLOCK_GAP_m),
         pal @ [\<lparr> rect_m = \<lparr> rect_x = 15, rect_y = y, rect_w = BLOCK_WIDTH_m, rect_h = BLOCK_HEIGHT_m \<rparr>,
                  cat_m = cat, type_m = type, color_m = col, steps_m = steps \<rparr>]))"

definition skip_m :: "int \<Rightarrow> int \<times> Block_m list \<Rightarrow> int \<times> Block_m list" where
  "skip_m d yp = (case yp of (y, pal) \<Rightarrow> (y + d, pal))"

definition BuildPalette_m :: "State_m \<Rightarrow> State_m" where
  "BuildPalette_m s =
     s \<lparr> palette_m :=
           snd (add_m LOOKS_m LOOKS_HIDE_m colLooks_m 0
               (add_m LOOKS_m LOOKS_SHOW_m colLooks_m 0
               (skip_m 8
               (add_m MOTION_m MOVE_Y_m colMotion_m 10
               (add_m MOTION_m MOVE_X_m colMotion_m 10
               (skip_m 8
               (add_m EVENT_m EVENT_FLAG_m colEvent_m 0
               (10, palette_m s)))))))) \<rparr>"

subsection \<open>Script engine\<close>

fun first_flag_m :: "Block_m list \<Rightarrow> int \<Rightarrow> int option" where
  "first_flag_m [] i = None"
| "first_flag_m (b # bs) i =
     (if type_m b = EVENT_FLAG_m then Some i else first_flag_m bs (i + 1))"

text \<open>\<open>now\<close> is the value of \<^verbatim>\<open>steady_clock::now()\<close> at the call.\<close>

definition StartScript_m :: "int \<Rightarrow> State_m \<Rightarrow> State_m" where
  "StartScript_m now s =
     (case first_flag_m (workspace_m s) 0 of
        None \<Rightarrow> s
      | Some i \<Rightarrow>
          s \<lparr> running_m := True, scriptStep_m := i + 1, lastStepTime_m := now,
              highlightIdx_m := i \<rparr>)"

text \<open>\<^verbatim>\<open>duration_cast<milliseconds>(now - lastStepTime).count()\<close>\<close>

definition elapsed_ms_m :: "int \<Rightarrow> State_m \<Rightarrow> int" where
  "elapsed_ms_m now s = cdiv (now - lastStepTime_m s) 1000000"

definition effect_m :: "Block_m \<Rightarrow> State_m \<Rightarrow> State_m" where
  "effect_m cur s =
     (case type_m cur of
        MOVE_X_m \<Rightarrow>
          s \<lparr> spriteX_m := fadd (spriteX_m s) (to_float (real_of_int (sint (steps_m cur)))) \<rparr>
      | MOVE_Y_m \<Rightarrow>
          s \<lparr> spriteY_m := fadd (spriteY_m s) (to_float (real_of_int (sint (steps_m cur)))) \<rparr>
      | LOOKS_SHOW_m \<Rightarrow> s \<lparr> spriteVisible_m := True \<rparr>
      | LOOKS_HIDE_m \<Rightarrow> s \<lparr> spriteVisible_m := False \<rparr>
      | EVENT_FLAG_m \<Rightarrow> s)"

definition UpdateScript_m :: "int \<Rightarrow> State_m \<Rightarrow> State_m option" where
  "UpdateScript_m now s =
     (if \<not> running_m s then Some s
      else if scriptStep_m s \<ge> int (length (workspace_m s))
        then Some (s \<lparr> running_m := False, highlightIdx_m := - 1 \<rparr>)
      else if elapsed_ms_m now s < 400 then Some s
      else if scriptStep_m s < 0 then None
      else Some ((effect_m (workspace_m s ! nat (scriptStep_m s))
                   (s \<lparr> lastStepTime_m := now, highlightIdx_m := scriptStep_m s \<rparr>))
                 \<lparr> scriptStep_m := scriptStep_m s + 1 \<rparr>))"

text \<open>
  A gated tick: a call of \<^verbatim>\<open>UpdateScript\<close> that gets past the 400 ms gate and applies
  the effect of the block at \<^verbatim>\<open>scriptStep\<close>.
\<close>

definition gated_m :: "int \<Rightarrow> State_m \<Rightarrow> bool" where
  "gated_m now s \<longleftrightarrow>
     running_m s \<and> 0 \<le> scriptStep_m s \<and> scriptStep_m s < int (length (workspace_m s)) \<and>
     \<not> elapsed_ms_m now s < 400"

subsection \<open>The body of the event loop\<close>

definition flagBtn_m :: SDL_Rect where
  "flagBtn_m = \<lparr> rect_x = STAGE_X_m + 10, rect_y = 10, rect_w = 60, rect_h = 30 \<rparr>"

definition is_move_m :: "Block_m \<Rightarrow> bool" where
  "is_move_m b \<longleftrightarrow> type_m b = MOVE_X_m \<or> type_m b = MOVE_Y_m"

definition badgeRect_m :: "Block_m \<Rightarrow> SDL_Rect" where
  "badgeRect_m blk =
     \<lparr> rect_x = rect_x (rect_m blk) + rect_w (rect_m blk) - 58,
       rect_y = rect_y (rect_m blk) + cdiv (rect_h (rect_m blk) - 20) 2,
       rect_w = 52, rect_h = 20 \<rparr>"

text \<open>The badge loop: the first index, counting up, of a move block whose badge holds the point.\<close>

fun find_badge_m :: "SDL_Point \<Rightarrow> Block_m list \<Rightarrow> int \<Rightarrow> int option" where
  "find_badge_m mp [] i = None"
| "find_badge_m mp (blk # bs) i =
     (if is_move_m blk \<and> SDL_PointInRect mp (badgeRect_m blk) then Some i
      else find_badge_m mp bs (i + 1))"

text \<open>The workspace drag loop: the first index, counting down from the end, whose rectangle holds the point.\<close>

fun find_drag_m :: "SDL_Point \<Rightarrow> Block_m list \<Rightarrow> int \<Rightarrow> int option" where
  "find_drag_m mp [] i = None"
| "find_drag_m mp (b # bs) i =
     (case find_drag_m mp bs (i + 1) of
        Some j \<Rightarrow> Some j
      | None \<Rightarrow> if SDL_PointInRect mp (rect_m b) then Some i else None)"

text \<open>\<^verbatim>\<open>SDL_TEXTINPUT\<close> while editing: only \<^verbatim>\<open>ev.text.text[0]\<close> is looked at.\<close>

definition text_input_m :: "string \<Rightarrow> State_m \<Rightarrow> State_m" where
  "text_input_m txt s =
     (let ch = (case txt of [] \<Rightarrow> CHR 0x00 | c # _ \<Rightarrow> c) in
      if isdigit ch \<or> (ch = CHR ''-'' \<and> editBuffer_m s = []) then
        (if length (editBuffer_m s) < 5 then s \<lparr> editBuffer_m := editBuffer_m s @ [ch] \<rparr> else s)
      else s)"

text \<open>Enter while editing (lines 315 to 325): the guarded \<^verbatim>\<open>std::stoi\<close> with its empty \<^verbatim>\<open>catch\<close>.\<close>

definition store_m :: "State_m \<Rightarrow> State_m option" where
  "store_m s =
     (if editBuffer_m s \<noteq> [] \<and> editBuffer_m s \<noteq> ''-'' then
        (case stoi (editBuffer_m s) of
           Inl e \<Rightarrow> Some s
         | Inr val \<Rightarrow>
             if 0 \<le> editingIdx_m s \<and> editingIdx_m s < int (length (workspace_m s)) then
               Some (s \<lparr> workspace_m :=
                 (workspace_m s) [nat (editingIdx_m s) :=
                    (workspace_m s ! nat (editingIdx_m s)) \<lparr> steps_m := word_of_int val \<rparr>] \<rparr>)
             else None)
      else Some s)"

definition end_edit_m :: "State_m \<Rightarrow> State_m" where
  "end_edit_m s = s \<lparr> editingIdx_m := - 1, editBuffer_m := [] \<rparr>"

definition key_down_m :: "int \<Rightarrow> Keycode \<Rightarrow> State_m \<Rightarrow> State_m option" where
  "key_down_m now k s =
     (if editingIdx_m s \<ge> 0 then
        (if k = SDLK_RETURN \<or> k = SDLK_KP_ENTER then map_option end_edit_m (store_m s)
         else if k = SDLK_ESCAPE then Some (end_edit_m s)
         else if k = SDLK_BACKSPACE then
           (if editBuffer_m s \<noteq> [] then Some (s \<lparr> editBuffer_m := butlast (editBuffer_m s) \<rparr>)
            else Some s)
         else Some s)
      else (if k = SDLK_SPACE then Some (StartScript_m now s) else Some s))"

definition pick_palette_m :: "SDL_Point \<Rightarrow> State_m \<Rightarrow> State_m" where
  "pick_palette_m mp s =
     (case find (\<lambda>b. SDL_PointInRect mp (rect_m b)) (palette_m s) of
        None \<Rightarrow> s
      | Some pb \<Rightarrow>
          (let b = pb \<lparr> rect_m := (rect_m pb)
                     \<lparr> rect_x := point_x mp - cdiv BLOCK_WIDTH_m 2,
                       rect_y := point_y mp - cdiv BLOCK_HEIGHT_m 2 \<rparr> \<rparr>
           in s \<lparr> workspace_m := workspace_m s @ [b],
                  draggingIdx_m := int (length (workspace_m s @ [b])) - 1,
                  dragOffset_m := \<lparr> point_x = point_x mp - rect_x (rect_m b),
                                    point_y = point_y mp - rect_y (rect_m b) \<rparr> \<rparr>))"

definition pick_workspace_m :: "SDL_Point \<Rightarrow> State_m \<Rightarrow> State_m" where
  "pick_workspace_m mp s =
     (if draggingIdx_m s = - 1 then
        (case find_drag_m mp (workspace_m s) 0 of
           None \<Rightarrow> s
         | Some i \<Rightarrow>
             s \<lparr> draggingIdx_m := i,
                 dragOffset_m :=
                   \<lparr> point_x = point_x mp - rect_x (rect_m (workspace_m s ! nat i)),
                     point_y = point_y mp - rect_y (rect_m (workspace_m s ! nat i)) \<rparr> \<rparr>)
      else s)"

definition mouse_down_m :: "int \<Rightarrow> SDL_Point \<Rightarrow> State_m \<Rightarrow> State_m" where
  "mouse_down_m now mp s =
     (let s1 = (if editingIdx_m s \<ge> 0 then end_edit_m s else s) in
      if SDL_PointInRect mp flagBtn_m then StartScript_m now s1
      else
        (case find_badge_m mp (workspace_m s1) 0 of
           Some i \<Rightarrow>
             s1 \<lparr> editingIdx_m := i,
                  editBuffer_m := to_string (sint (steps_m (workspace_m s1 ! nat i))) \<rparr>
         | None \<Rightarrow> pick_workspace_m mp (pick_palette_m mp s1)))"

definition mouse_motion_m :: "int \<Rightarrow> int \<Rightarrow> State_m \<Rightarrow> State_m option" where
  "mouse_motion_m mx my s =
     (if draggingIdx_m s \<ge> 0 then
        (if draggingIdx_m s < int (length (workspace_m s)) then
           Some (s \<lparr> workspace_m :=
             (workspace_m s) [nat (draggingIdx_m s) :=
                (workspace_m s ! nat (draggingIdx_m s))
                  \<lparr> rect_m := (rect_m (workspace_m s ! nat (draggingIdx_m s)))
                      \<lparr> rect_x := mx - point_x (dragOffset_m s),
                        rect_y := my - point_y (dragOffset_m s) \<rparr> \<rparr>] \<rparr>)
         else None)
      else Some s)"

definition drop_erase_m :: "SDL_Point \<Rightarrow> State_m \<Rightarrow> State_m option" where
  "drop_erase_m mp s =
     (if point_x mp < PALETTE_W_m then
        (if draggingIdx_m s < int (length (workspace_m s)) then
           Some (s \<lparr> workspace_m := erase_at (workspace_m s) (nat (draggingIdx_m s)) \<rparr>)
         else None)
      else Some s)"

definition mouse_up_m :: "SDL_Point \<Rightarrow> State_m \<Rightarrow> State_m option" where
  "mouse_up_m mp s =
     (if draggingIdx_m s \<ge> 0 then
        map_option
          (\<lambda>s1. (if editingIdx_m s1 \<ge> draggingIdx_m s1 \<and> editingIdx_m s1 > 0
                  then s1 \<lparr> editingIdx_m := editingIdx_m s1 - 1 \<rparr> else s1)
                \<lparr> draggingIdx_m := - 1 \<rparr>)
          (drop_erase_m mp s)
      else Some s)"

definition wheel_block_m :: "int \<Rightarrow> SDL_Point \<Rightarrow> Block_m \<Rightarrow> Block_m" where
  "wheel_block_m wy mp blk =
     (if is_move_m blk \<and> SDL_PointInRect mp (rect_m blk)
      then blk \<lparr> steps_m := steps_m blk + (if wy > 0 then 5 else - 5) \<rparr>
      else blk)"

definition mouse_wheel_m :: "int \<Rightarrow> SDL_Point \<Rightarrow> State_m \<Rightarrow> State_m" where
  "mouse_wheel_m wy mp s =
     (if editingIdx_m s = - 1
      then s \<lparr> workspace_m := map (wheel_block_m wy mp) (workspace_m s) \<rparr>
      else s)"

text \<open>
  One pass through the body of \<^verbatim>\<open>while (SDL_PollEvent(&ev))\<close>. Each event has one type,
  so at most one of the \<^verbatim>\<open>if\<close> blocks runs.
\<close>

fun handle_event_m :: "int \<Rightarrow> SDL_Event \<Rightarrow> State_m \<Rightarrow> State_m option" where
  "handle_event_m now SDL_QUIT s = Some (s \<lparr> quit_m := True \<rparr>)"
| "handle_event_m now (SDL_TEXTINPUT txt) s =
     (if editingIdx_m s \<ge> 0 then Some (text_input_m txt s) else Some s)"
| "handle_event_m now (SDL_KEYDOWN k) s = key_down_m now k s"
| "handle_event_m now (SDL_MOUSEBUTTONDOWN b mp) s =
     (if b = SDL_BUTTON_LEFT then Some (mouse_down_m now mp s) else Some s)"
| "handle_event_m now (SDL_MOUSEMOTION mx my) s = mouse_motion_m mx my s"
| "handle_event_m now (SDL_MOUSEBUTTONUP b mp) s =
     (if b = SDL_BUTTON_LEFT then mouse_up_m mp s else Some s)"
| "handle_event_m now (SDL_MOUSEWHEEL wy mp) s = Some (mouse_wheel_m wy mp s)"
| "handle_event_m now SDL_OTHER s = Some s"

text \<open>
  What the main loop does, as a sequence of actions: an event handled at clock value
  \<open>now\<close>, or the call of \<^verbatim>\<open>UpdateScript\<close> that follows the events of a frame.
\<close>

datatype Action_m = Event_m int SDL_Event | Tick_m int

fun act_m :: "Action_m \<Rightarrow> State_m \<Rightarrow> State_m option" where
  "act_m (Event_m now ev) s = handle_event_m now ev s"
| "act_m (Tick_m now) s = UpdateScript_m now s"

fun run_m :: "Action_m list \<Rightarrow> State_m \<Rightarrow> State_m option" where
  "run_m [] s = Some s"
| "run_m (a # as) s = (case act_m a s of None \<Rightarrow> None | Some s1 \<Rightarrow> run_m as s1)"

definition init_m :: State_m where
  "init_m = BuildPalette_m globals_m"

inductive reach_m :: "State_m \<Rightarrow> bool" where
  reach_init_m: "reach_m init_m"
| reach_act_m: "reach_m s \<Longrightarrow> act_m a s = Some s1 \<Longrightarrow> reach_m s1"

section \<open>The program \<^verbatim>\<open>part_000\<close>\<close>

subsection \<open>Constants, types and globals\<close>

definition WINDOW_W_p :: int where "WINDOW_W_p = 1150"
definition WINDOW_H_p :: int where "WINDOW_H_p = 720"
definition CAT_W_p :: int where "CAT_W_p = 260"
definition STAGE_W_p :: int where "STAGE_W_p = 400"
definition STAGE_H_p :: int where "STAGE_H_p = 400"
definition SCRIPTS_X_p :: int where "SCRIPTS_X_p = CAT_W_p"
definition SCRIPTS_W_p :: int where "SCRIPTS_W_p = WINDOW_W_p - CAT_W_p - STAGE_W_p"
definition STAGE_X_p :: int where "STAGE_X_p = CAT_W_p + SCRIPTS_W_p"
definition STAGE_Y_p :: int where "STAGE_Y_p = 20"
definition BLOCK_W_p :: int where "BLOCK_W_p = 190"
definition BLOCK_H_p :: int where "BLOCK_H_p = 40"
definition BLOCK_GAP_p :: int where "BLOCK_GAP_p = 8"
definition STEP_DELAY_p :: int where "STEP_DELAY_p = 400"

definition COL_MOTION_p :: SDL_Color where
  "COL_MOTION_p = \<lparr> col_r = 74, col_g = 144, col_b = 226, col_a = 255 \<rparr>"
definition COL_LOOKS_p :: SDL_Color where
  "COL_LOOKS_p = \<lparr> col_r = 153, col_g = 102, col_b = 255, col_a = 255 \<rparr>"
definition COL_EVENTS_p :: SDL_Color where
  "COL_EVENTS_p = \<lparr> col_r = 255, col_g = 171, col_b = 25, col_a = 255 \<rparr>"

datatype BlockCategory_p = BCAT_EVENT_p | BCAT_MOTION_p | BCAT_LOOKS_p

datatype BlockType_p =
  EVENT_FLAG_p | CHANGE_X_p | CHANGE_Y_p | SET_X_p | SET_Y_p | LOOKS_SHOW_p | LOOKS_HIDE_p

record Block_p =
  rect_p :: SDL_Rect
  category_p :: BlockCategory_p
  type_p :: BlockType_p
  color_p :: SDL_Color
  steps_p :: "32 word"
  isHat_p :: bool

record PaletteHeader_p =
  name_p :: string
  yPos_p :: int

text \<open>
  \<open>lastStepTime_p\<close> is the \<^verbatim>\<open>Uint32\<close> of \<^verbatim>\<open>SDL_GetTicks\<close>; \<open>loop_running_p\<close> is
  the local \<^verbatim>\<open>running\<close> of \<^verbatim>\<open>main\<close>. \<^verbatim>\<open>SDL_StartTextInput\<close> and
  \<^verbatim>\<open>SDL_StopTextInput\<close> only switch whether SDL delivers text events; the model accepts
  every sequence of events, so they leave no trace in the state.
\<close>

record State_p =
  spriteX_p :: real
  spriteY_p :: real
  spriteVisible_p :: bool
  palette_p :: "Block_p list"
  catHeaders_p :: "PaletteHeader_p list"
  workspace_p :: "Block_p list"
  dragging_p :: bool
  dragBlock_p :: Block_p
  dragOffX_p :: int
  dragOffY_p :: int
  dragFromPalette_p :: bool
  dragWorkspaceIdx_p :: int
  editingValue_p :: bool
  editingIdx_p :: int
  inputBuffer_p :: string
  scriptRunning_p :: bool
  scriptStep_p :: int
  lastStepTime_p :: "32 word"
  loop_running_p :: bool

definition globals_p :: State_p where
  "globals_p =
     \<lparr> spriteX_p = 200, spriteY_p = 200, spriteVisible_p = True,
       palette_p = [], catHeaders_p = [], workspace_p = [],
       dragging_p = False,
       dragBlock_p =
         \<lparr> rect_p = \<lparr> rect_x = 0, rect_y = 0, rect_w = 0, rect_h = 0 \<rparr>,
           category_p = BCAT_EVENT_p, type_p = EVENT_FLAG_p,
           color_p = \<lparr> col_r = 0, col_g = 0, col_b = 0, col_a = 0 \<rparr>,
           steps_p = 0, isHat_p = False \<rparr>,
       dragOffX_p = 0, dragOffY_p = 0, dragFromPalette_p = False, dragWorkspaceIdx_p = - 1,
       editingValue_p = False, editingIdx_p = - 1, inputBuffer_p = [],
       scriptRunning_p = False, scriptStep_p = 0, lastStepTime_p = 0,
       loop_running_p = True \<rparr>"

subsection \<open>\<^verbatim>\<open>BuildPalette\<close> and \<^verbatim>\<open>LayoutWorkspace\<close>\<close>

text \<open>
  The lambdas \<^verbatim>\<open>addHeader\<close> and \<^verbatim>\<open>mk\<close> capture \<^verbatim>\<open>x\<close> (always 25) and \<^verbatim>\<open>y\<close> by
  reference and push onto the globals; here they map the triple of \<^verbatim>\<open>y\<close>, the palette
  and the headers.
\<close>

type_synonym builder_p = "int \<times> Block_p list \<times> PaletteHeader_p list"

definition addHeader_p :: "string \<Rightarrow> builder_p \<Rightarrow> builder_p" where
  "addHeader_p name bd =
     (case bd of (y, pal, hs) \<Rightarrow> (y + 35, pal, hs @ [\<lparr> name_p = name, yPos_p = y \<rparr>]))"

definition mk_p ::
  "BlockType_p \<Rightarrow> BlockCategory_p \<Rightarrow> SDL_Color \<Rightarrow> bool \<Rightarrow> 32 word \<Rightarrow> builder_p \<Rightarrow> builder_p"
where
  "mk_p t bc col hat defaultVal bd =
     (case bd of (y, pal, hs) \<Rightarrow>
        (let h = (if hat then BLOCK_H_p + 12 else BLOCK_H_p);
             b = \<lparr> rect_p = \<lparr> rect_x = 25, rect_y = (if hat then y + 14 else y),
                              rect_w = BLOCK_W_p, rect_h = h \<rparr>,
                   category_p = bc, type_p = t, color_p = col, steps_p = defaultVal,
                   isHat_p = hat \<rparr>
         in (y + (h + BLOCK_GAP_p + (if hat then 14 else 0)), pal @ [b], hs)))"

definition gap_p :: "int \<Rightarrow> builder_p \<Rightarrow> builder_p" where
  "gap_p d bd = (case bd of (y, pal, hs) \<Rightarrow> (y + d, pal, hs))"

definition catalog_p :: builder_p where
  "catalog_p =
     mk_p LOOKS_HIDE_p BCAT_LOOKS_p COL_LOOKS_p False 0
    (mk_p LOOKS_SHOW_p BCAT_LOOKS_p COL_LOOKS_p False 0
    (addHeader_p ''Looks''
    (gap_p 15
    (mk_p SET_Y_p BCAT_MOTION_p COL_MOTION_p False 0
    (mk_p SET_X_p BCAT_MOTION_p COL_MOTION_p False 0
    (mk_p CHANGE_Y_p BCAT_MOTION_p COL_MOTION_p False 10
    (mk_p CHANGE_X_p BCAT_MOTION_p COL_MOTION_p False 10
    (addHeader_p ''Motion''
    (gap_p 15
    (mk_p EVENT_FLAG_p BCAT_EVENT_p COL_EVENTS_p True 0
    (addHeader_p ''Events''
    (20, [], []))))))))))))"

text \<open>\<^verbatim>\<open>palette.clear(); catHeaders.clear();\<close> then the pushes, starting at \<^verbatim>\<open>y = 20\<close>.\<close>

definition BuildPalette_p :: "State_p \<Rightarrow> State_p" where
  "BuildPalette_p s =
     s \<lparr> palette_p := fst (snd catalog_p), catHeaders_p := snd (snd catalog_p) \<rparr>"

fun layout_from_p :: "int \<Rightarrow> Block_p list \<Rightarrow> Block_p list" where
  "layout_from_p yy [] = []"
| "layout_from_p yy (b # bs) =
     (let h = (if isHat_p b then BLOCK_H_p + 12 else BLOCK_H_p);
          yy1 = (if isHat_p b then yy + 14 else yy)
      in b \<lparr> rect_p := \<lparr> rect_x = SCRIPTS_X_p + 20, rect_y = yy1,
                         rect_w = BLOCK_W_p + 20, rect_h = h \<rparr> \<rparr>
         # layout_from_p (yy1 + (h + BLOCK_GAP_p)) bs)"

definition LayoutWorkspace_p :: "State_p \<Rightarrow> State_p" where
  "LayoutWorkspace_p s = s \<lparr> workspace_p := layout_from_p 60 (workspace_p s) \<rparr>"

subsection \<open>Script engine\<close>

text \<open>\<open>now\<close> is the value of \<^verbatim>\<open>SDL_GetTicks()\<close> at the call.\<close>

definition StartScript_p :: "32 word \<Rightarrow> State_p \<Rightarrow> State_p" where
  "StartScript_p now s =
     s \<lparr> scriptRunning_p := True,
         scriptStep_p :=
           (if workspace_p s \<noteq> [] \<and> type_p (workspace_p s ! 0) = EVENT_FLAG_p then 1 else 0),
         lastStepTime_p := now \<rparr>"

definition effect_p :: "Block_p \<Rightarrow> State_p \<Rightarrow> State_p" where
  "effect_p b s =
     (case type_p b of
        CHANGE_X_p \<Rightarrow> s \<lparr> spriteX_p := spriteX_p s + real_of_int (sint (steps_p b)) \<rparr>
      | CHANGE_Y_p \<Rightarrow> s \<lparr> spriteY_p := spriteY_p s - real_of_int (sint (steps_p b)) \<rparr>
      | SET_X_p \<Rightarrow> s \<lparr> spriteX_p := real_of_int STAGE_W_p / 2 + real_of_int (sint (steps_p b)) \<rparr>
      | SET_Y_p \<Rightarrow> s \<lparr> spriteY_p := real_of_int STAGE_H_p / 2 - real_of_int (sint (steps_p b)) \<rparr>
      | LOOKS_SHOW_p \<Rightarrow> s \<lparr> spriteVisible_p := True \<rparr>
      | LOOKS_HIDE_p \<Rightarrow> s \<lparr> spriteVisible_p := False \<rparr>
      | EVENT_FLAG_p \<Rightarrow> s)"

definition clamp_sprite_p :: "State_p \<Rightarrow> State_p" where
  "clamp_sprite_p s =
     s \<lparr> spriteX_p := max 30 (min (real_of_int STAGE_W_p - 30) (spriteX_p s)),
         spriteY_p := max 30 (min (real_of_int STAGE_H_p - 30) (spriteY_p s)) \<rparr>"

text \<open>The gate \<^verbatim>\<open>now - lastStepTime < (Uint32)STEP_DELAY\<close> is unsigned and wraps.\<close>

definition gate_closed_p :: "32 word \<Rightarrow> State_p \<Rightarrow> bool" where
  "gate_closed_p now s \<longleftrightarrow> now - lastStepTime_p s < word_of_int STEP_DELAY_p"

definition UpdateScript_p :: "32 word \<Rightarrow> State_p \<Rightarrow> State_p option" where
  "UpdateScript_p now s =
     (if \<not> scriptRunning_p s then Some s
      else if scriptStep_p s \<ge> int (length (workspace_p s))
        then Some (s \<lparr> scriptRunning_p := False \<rparr>)
      else if gate_closed_p now s then Some s
      else if scriptStep_p s < 0 then None
      else
        (let s1 = clamp_sprite_p
                    (effect_p (workspace_p s ! nat (scriptStep_p s)) (s \<lparr> lastStepTime_p := now \<rparr>));
             s2 = s1 \<lparr> scriptStep_p := scriptStep_p s1 + 1 \<rparr>
         in Some (if scriptStep_p s2 \<ge> int (length (workspace_p s2))
                  then s2 \<lparr> scriptRunning_p := False \<rparr> else s2)))"

definition gated_p :: "32 word \<Rightarrow> State_p \<Rightarrow> bool" where
  "gated_p now s \<longleftrightarrow>
     scriptRunning_p s \<and> 0 \<le> scriptStep_p s \<and> scriptStep_p s < int (length (workspace_p s)) \<and>
     \<not> gate_closed_p now s"

subsection \<open>The body of the event loop\<close>

definition goBtn_p :: SDL_Rect where
  "goBtn_p = \<lparr> rect_x = STAGE_X_p + 10, rect_y = STAGE_Y_p + STAGE_H_p + 50,
               rect_w = 90, rect_h = 36 \<rparr>"

definition stopBtn_p :: SDL_Rect where
  "stopBtn_p = \<lparr> rect_x = STAGE_X_p + 110, rect_y = STAGE_Y_p + STAGE_H_p + 50,
                 rect_w = 90, rect_h = 36 \<rparr>"

definition wsRect_p :: SDL_Rect where
  "wsRect_p = \<lparr> rect_x = SCRIPTS_X_p, rect_y = 0, rect_w = SCRIPTS_W_p, rect_h = WINDOW_H_p \<rparr>"

definition has_value_p :: "Block_p \<Rightarrow> bool" where
  "has_value_p b \<longleftrightarrow>
     \<not> (type_p b \<noteq> CHANGE_X_p \<and> type_p b \<noteq> CHANGE_Y_p \<and> type_p b \<noteq> SET_X_p \<and> type_p b \<noteq> SET_Y_p)"

definition pill_p :: "Block_p \<Rightarrow> SDL_Rect" where
  "pill_p b =
     \<lparr> rect_x = rect_x (rect_p b) + rect_w (rect_p b) - 46 - 8,
       rect_y = rect_y (rect_p b) + cdiv (rect_h (rect_p b) - 22) 2,
       rect_w = 46, rect_h = 22 \<rparr>"

text \<open>The badge loop: the first index, counting up, of a value block whose pill holds the point.\<close>

fun find_badge_p :: "SDL_Point \<Rightarrow> Block_p list \<Rightarrow> int \<Rightarrow> int option" where
  "find_badge_p mp [] i = None"
| "find_badge_p mp (b # bs) i =
     (if has_value_p b \<and> SDL_PointInRect mp (pill_p b) then Some i
      else find_badge_p mp bs (i + 1))"

text \<open>The workspace drag loop: the first index, counting down from the end, whose rectangle holds the point.\<close>

fun find_drag_p :: "SDL_Point \<Rightarrow> Block_p list \<Rightarrow> int \<Rightarrow> int option" where
  "find_drag_p mp [] i = None"
| "find_drag_p mp (b # bs) i =
     (case find_drag_p mp bs (i + 1) of
        Some j \<Rightarrow> Some j
      | None \<Rightarrow> if SDL_PointInRect mp (rect_p b) then Some i else None)"

text \<open>\<^verbatim>\<open>SDL_TEXTINPUT\<close> while editing: every character of \<^verbatim>\<open>e.text.text\<close> in turn.\<close>

definition accept_char_p :: "string \<Rightarrow> char \<Rightarrow> string" where
  "accept_char_p buf ch =
     (if isdigit ch then buf @ [ch]
      else if ch = CHR ''-'' \<and> buf = [] then buf @ [ch]
      else buf)"

definition text_input_p :: "string \<Rightarrow> State_p \<Rightarrow> State_p" where
  "text_input_p txt s = s \<lparr> inputBuffer_p := foldl accept_char_p (inputBuffer_p s) txt \<rparr>"

text \<open>
  The value the \<^verbatim>\<open>try\<close> block stores (lines 482 to 485 and 533 to 536): 0 for an empty
  buffer or a lone minus, the result of \<^verbatim>\<open>std::stoi\<close> otherwise, 0 when it throws.
\<close>

definition commit_value_p :: "string \<Rightarrow> 32 word" where
  "commit_value_p buf =
     (if buf = ''-'' \<or> buf = [] then 0
      else (case stoi buf of Inr val \<Rightarrow> word_of_int val | Inl e \<Rightarrow> 0))"

definition commitEdit_p :: "State_p \<Rightarrow> State_p" where
  "commitEdit_p s =
     (if editingIdx_p s \<ge> 0 \<and> editingIdx_p s < int (length (workspace_p s)) then
        s \<lparr> workspace_p :=
              (workspace_p s) [nat (editingIdx_p s) :=
                 (workspace_p s ! nat (editingIdx_p s))
                   \<lparr> steps_p := commit_value_p (inputBuffer_p s) \<rparr>],
            editingValue_p := False \<rparr>
      else s \<lparr> editingValue_p := False \<rparr>)"

definition key_down_p :: "Keycode \<Rightarrow> State_p \<Rightarrow> State_p" where
  "key_down_p k s =
     (if k = SDLK_RETURN \<or> k = SDLK_KP_ENTER then commitEdit_p s
      else if k = SDLK_ESCAPE then s \<lparr> editingValue_p := False \<rparr>
      else if k = SDLK_BACKSPACE \<and> inputBuffer_p s \<noteq> []
        then s \<lparr> inputBuffer_p := butlast (inputBuffer_p s) \<rparr>
      else s)"

definition pick_palette_p :: "SDL_Point \<Rightarrow> State_p \<Rightarrow> State_p" where
  "pick_palette_p mp s =
     (case find (\<lambda>b. SDL_PointInRect mp (rect_p b)) (palette_p s) of
        None \<Rightarrow> s
      | Some b \<Rightarrow>
          s \<lparr> dragging_p := True, dragFromPalette_p := True, dragBlock_p := b,
              dragOffX_p := point_x mp - rect_x (rect_p b),
              dragOffY_p := point_y mp - rect_y (rect_p b) \<rparr>)"

definition pick_workspace_p :: "SDL_Point \<Rightarrow> State_p \<Rightarrow> State_p" where
  "pick_workspace_p mp s =
     (if \<not> dragging_p s then
        (case find_drag_p mp (workspace_p s) 0 of
           None \<Rightarrow> s
         | Some i \<Rightarrow>
             LayoutWorkspace_p
               (s \<lparr> dragging_p := True, dragFromPalette_p := False, dragWorkspaceIdx_p := i,
                    dragBlock_p := workspace_p s ! nat i,
                    dragOffX_p := point_x mp - rect_x (rect_p (workspace_p s ! nat i)),
                    dragOffY_p := point_y mp - rect_y (rect_p (workspace_p s ! nat i)),
                    workspace_p := erase_at (workspace_p s) (nat i) \<rparr>))
      else s)"

definition mouse_down_p :: "32 word \<Rightarrow> SDL_Point \<Rightarrow> State_p \<Rightarrow> State_p" where
  "mouse_down_p now mp s =
     (if SDL_PointInRect mp goBtn_p then (if \<not> scriptRunning_p s then StartScript_p now s else s)
      else if SDL_PointInRect mp stopBtn_p then s \<lparr> scriptRunning_p := False \<rparr>
      else
        (case find_badge_p mp (workspace_p s) 0 of
           Some i \<Rightarrow>
             s \<lparr> editingValue_p := True, editingIdx_p := i,
                 inputBuffer_p := to_string (sint (steps_p (workspace_p s ! nat i))) \<rparr>
         | None \<Rightarrow>
             pick_workspace_p mp
               (pick_palette_p mp (if editingValue_p s then commitEdit_p s else s))))"

definition mouse_motion_p :: "int \<Rightarrow> int \<Rightarrow> State_p \<Rightarrow> State_p" where
  "mouse_motion_p mx my s =
     (if dragging_p s then
        s \<lparr> dragBlock_p := (dragBlock_p s)
              \<lparr> rect_p := (rect_p (dragBlock_p s))
                  \<lparr> rect_x := mx - dragOffX_p s, rect_y := my - dragOffY_p s \<rparr> \<rparr> \<rparr>
      else s)"

text \<open>The insertion loop of the drop: the first index whose block has its midpoint below \<^verbatim>\<open>my\<close>, the size when there is none.\<close>

fun insert_index_p :: "int \<Rightarrow> Block_p list \<Rightarrow> nat \<Rightarrow> nat" where
  "insert_index_p my [] i = i"
| "insert_index_p my (b # bs) i =
     (if my < rect_y (rect_p b) + cdiv (rect_h (rect_p b)) 2 then i
      else insert_index_p my bs (Suc i))"

definition mouse_up_p :: "SDL_Point \<Rightarrow> State_p \<Rightarrow> State_p" where
  "mouse_up_p pt s =
     (if dragging_p s then
        LayoutWorkspace_p
          ((if SDL_PointInRect pt wsRect_p
            then s \<lparr> workspace_p :=
                       insert_at (workspace_p s)
                         (insert_index_p (point_y pt) (workspace_p s) 0) (dragBlock_p s) \<rparr>
            else s)
           \<lparr> dragging_p := False, dragWorkspaceIdx_p := - 1 \<rparr>)
      else s)"

text \<open>
  One pass through the body of \<^verbatim>\<open>while (SDL_PollEvent(&e))\<close>. Every vector access of
  this body is guarded by the code itself, so the function is total.
\<close>

fun handle_event_p :: "32 word \<Rightarrow> SDL_Event \<Rightarrow> State_p \<Rightarrow> State_p" where
  "handle_event_p now SDL_QUIT s = s \<lparr> loop_running_p := False \<rparr>"
| "handle_event_p now (SDL_TEXTINPUT txt) s =
     (if editingValue_p s then text_input_p txt s else s)"
| "handle_event_p now (SDL_KEYDOWN k) s =
     (if editingValue_p s then key_down_p k s else s)"
| "handle_event_p now (SDL_MOUSEBUTTONDOWN b mp) s =
     (if b = SDL_BUTTON_LEFT then mouse_down_p now mp s else s)"
| "handle_event_p now (SDL_MOUSEMOTION mx my) s = mouse_motion_p mx my s"
| "handle_event_p now (SDL_MOUSEBUTTONUP b pt) s =
     (if b = SDL_BUTTON_LEFT then mouse_up_p pt s else s)"
| "handle_event_p now (SDL_MOUSEWHEEL wy mp) s = s"
| "handle_event_p now SDL_OTHER s = s"

datatype Action_p = Event_p "32 word" SDL_Event | Tick_p "32 word"

fun act_p :: "Action_p \<Rightarrow> State_p \<Rightarrow> State_p option" where
  "act_p (Event_p now ev) s = Some (handle_event_p now ev s)"
| "act_p (Tick_p now) s = UpdateScript_p now s"

fun run_p :: "Action_p list \<Rightarrow> State_p \<Rightarrow> State_p option" where
  "run_p [] s = Some s"
| "run_p (a # as) s = (case act_p a s of None \<Rightarrow> None | Some s1 \<Rightarrow> run_p as s1)"

definition init_p :: State_p where
  "init_p = BuildPalette_p globals_p"

inductive reach_p :: "State_p \<Rightarrow> bool" where
  reach_init_p: "reach_p init_p"
| reach_act_p: "reach_p s \<Longrightarrow> act_p a s = Some s1 \<Longrightarrow> reach_p s1"

section \<open>Notions used in the statements\<close>

text \<open>
  A run of the engine alone: \<^verbatim>\<open>UpdateScript\<close> called at the successive clock values of
  a list, with no event in between, and the number of gated ticks among these calls.
\<close>

fun gated_ticks_m :: "int list \<Rightarrow> State_m \<Rightarrow> nat" where
  "gated_ticks_m [] s = 0"
| "gated_ticks_m (t # ts) s =
     (if gated_m t s then 1 else 0) +
     (case UpdateScript_m t s of None \<Rightarrow> 0 | Some s1 \<Rightarrow> gated_ticks_m ts s1)"

fun gated_ticks_p :: "32 word list \<Rightarrow> State_p \<Rightarrow> nat" where
  "gated_ticks_p [] s = 0"
| "gated_ticks_p (t # ts) s =
     (if gated_p t s then 1 else 0) +
     (case UpdateScript_p t s of None \<Rightarrow> 0 | Some s1 \<Rightarrow> gated_ticks_p ts s1)"

text \<open>Clock values that are each at least 400 ms after the one before, starting after \<open>t0\<close>.\<close>

fun paced_m :: "int \<Rightarrow> int list \<Rightarrow> bool" where
  "paced_m t0 [] = True"
| "paced_m t0 (t # ts) = (\<not> cdiv (t - t0) 1000000 < 400 \<and> paced_m t ts)"

fun paced_p :: "32 word \<Rightarrow> 32 word list \<Rightarrow> bool" where
  "paced_p t0 [] = True"
| "paced_p t0 (t # ts) = (\<not> t - t0 < word_of_int STEP_DELAY_p \<and> paced_p t ts)"

text \<open>
  The gated ticks as the specification defines them, counted from the clock values alone.
  With \<open>left\<close> blocks still to run and the pacing anchor \<open>a\<close>, the call at \<open>t\<close> is
  gated when a block is left and the step delay has elapsed since the anchor; \<open>t\<close> is the
  anchor from then on. The delay is 400 ms: 400000000 on the nanosecond clock of
  \<^verbatim>\<open>main.cpp\<close>, 400 on the 32-bit millisecond counter of \<^verbatim>\<open>part_000\<close>, whose
  differences wrap around.
\<close>

fun spec_gated_ticks_m :: "nat \<Rightarrow> int \<Rightarrow> int list \<Rightarrow> nat" where
  "spec_gated_ticks_m left a [] = 0"
| "spec_gated_ticks_m left a (t # ts) =
     (if 0 < left \<and> 400000000 \<le> t - a then Suc (spec_gated_ticks_m (left - 1) t ts)
      else spec_gated_ticks_m left a ts)"

fun spec_gated_ticks_p :: "nat \<Rightarrow> 32 word \<Rightarrow> 32 word list \<Rightarrow> nat" where
  "spec_gated_ticks_p left a [] = 0"
| "spec_gated_ticks_p left a (t # ts) =
     (if 0 < left \<and> 400 \<le> unat (t - a) then Suc (spec_gated_ticks_p (left - 1) t ts)
      else spec_gated_ticks_p left a ts)"

text \<open>The invariant of the run state that the specification states.\<close>

definition step_in_range_m :: "State_m \<Rightarrow> bool" where
  "step_in_range_m s \<longleftrightarrow>
     (running_m s \<longrightarrow> 0 \<le> scriptStep_m s \<and> scriptStep_m s \<le> int (length (workspace_m s)))"

definition step_in_range_p :: "State_p \<Rightarrow> bool" where
  "step_in_range_p s \<longleftrightarrow>
     (scriptRunning_p s \<longrightarrow> 0 \<le> scriptStep_p s \<and> scriptStep_p s \<le> int (length (workspace_p s)))"

text \<open>
  The shape of an edit buffer: an optional leading minus, then digits only; and the
  integer such a buffer denotes (0 for the empty buffer and for a lone minus).
\<close>

fun wf_buffer :: "string \<Rightarrow> bool" where
  "wf_buffer [] = True"
| "wf_buffer (c # cs) = ((c = CHR ''-'' \<or> isdigit c) \<and> list_all isdigit cs)"

definition buffer_value :: "string \<Rightarrow> int" where
  "buffer_value buf =
     (case strip_sign buf of
        (neg, ds) \<Rightarrow> if neg then - int (digits_value 0 ds) else int (digits_value 0 ds))"

definition int32_range :: "int \<Rightarrow> bool" where
  "int32_range v \<longleftrightarrow> - 2147483648 \<le> v \<and> v \<le> 2147483647"

section \<open>Concrete states used in examples\<close>

text \<open>A \<^verbatim>\<open>main.cpp\<close> workspace of a move block followed by the flag block.\<close>

definition st_c2 :: State_m where
  "st_c2 = globals_m \<lparr> workspace_m :=
     [\<lparr> rect_m = \<lparr> rect_x = 300, rect_y = 100, rect_w = 170, rect_h = 38 \<rparr>,
        cat_m = MOTION_m, type_m = MOVE_X_m, color_m = colMotion_m, steps_m = 10 \<rparr>,
      \<lparr> rect_m = \<lparr> rect_x = 300, rect_y = 150, rect_w = 170, rect_h = 38 \<rparr>,
        cat_m = EVENT_m, type_m = EVENT_FLAG_m, color_m = colEvent_m, steps_m = 0 \<rparr>] \<rparr>"

text \<open>Blocks at workspace positions, and states with an edit session open on a block of value 7.\<close>

definition blk_m :: "BlockType_m \<Rightarrow> int \<Rightarrow> 32 word \<Rightarrow> Block_m" where
  "blk_m t y v =
     \<lparr> rect_m = \<lparr> rect_x = 300, rect_y = y, rect_w = 170, rect_h = 38 \<rparr>,
       cat_m = MOTION_m, type_m = t, color_m = colMotion_m, steps_m = v \<rparr>"

definition blk_p :: "BlockType_p \<Rightarrow> int \<Rightarrow> 32 word \<Rightarrow> Block_p" where
  "blk_p t y v =
     \<lparr> rect_p = \<lparr> rect_x = 280, rect_y = y, rect_w = 210, rect_h = 40 \<rparr>,
       category_p = BCAT_MOTION_p, type_p = t, color_p = COL_MOTION_p, steps_p = v,
       isHat_p = False \<rparr>"

definition edit_m :: "string \<Rightarrow> State_m" where
  "edit_m buf =
     globals_m \<lparr> workspace_m := [blk_m MOVE_X_m 100 7], editingIdx_m := 0, editBuffer_m := buf \<rparr>"

definition edit_p :: "string \<Rightarrow> State_p" where
  "edit_p buf =
     globals_p \<lparr> workspace_p := [blk_p CHANGE_X_p 60 7], editingValue_p := True,
                 editingIdx_p := 0, inputBuffer_p := buf \<rparr>"

text \<open>A \<^verbatim>\<open>main.cpp\<close> workspace of two move blocks and a flag block, no edit session.\<close>

definition wheel_m :: State_m where
  "wheel_m =
     globals_m \<lparr> workspace_m :=
       [blk_m MOVE_X_m 100 99999, blk_m MOVE_Y_m 200 10, blk_m EVENT_FLAG_m 300 0] \<rparr>"

text \<open>
  What a \<^verbatim>\<open>part_000\<close> block is apart from its rectangle, which \<^verbatim>\<open>LayoutWorkspace\<close>
  recomputes; and the vertical midpoint that the drop compares with the pointer.
\<close>

definition content_p :: "Block_p \<Rightarrow> BlockCategory_p \<times> BlockType_p \<times> SDL_Color \<times> 32 word \<times> bool" where
  "content_p b = (category_p b, type_p b, color_p b, steps_p b, isHat_p b)"

definition mid_y_p :: "Block_p \<Rightarrow> int" where
  "mid_y_p b = rect_y (rect_p b) + cdiv (rect_h (rect_p b)) 2"




text \<open>
  A \<^verbatim>\<open>part_000\<close> workspace of two laid-out value blocks, and the same with a block
  taken from the palette in the drag slot.
\<close>

definition ws2_p :: State_p where
  "ws2_p = globals_p \<lparr> workspace_p := [blk_p CHANGE_X_p 60 1, blk_p SET_Y_p 108 2] \<rparr>"

definition drag_p :: State_p where
  "drag_p = ws2_p \<lparr> dragging_p := True, dragFromPalette_p := True,
                     dragBlock_p := blk_p CHANGE_Y_p 300 10 \<rparr>"


text \<open>Scenario A of the specification in both programs: the flag block, then X by 10, then Y by 5.\<close>

definition script_m :: State_m where
  "script_m =
     globals_m \<lparr> workspace_m :=
       [blk_m EVENT_FLAG_m 100 0, blk_m MOVE_X_m 150 10, blk_m MOVE_Y_m 200 5] \<rparr>"

definition script_p :: State_p where
  "script_p =
     globals_p \<lparr> workspace_p :=
       [(blk_p EVENT_FLAG_p 74 0) \<lparr> isHat_p := True \<rparr>, blk_p CHANGE_X_p 134 10,
        blk_p CHANGE_Y_p 182 5] \<rparr>"

text \<open>
  Two runs from the initial states. In \<^verbatim>\<open>part_000\<close>: the flag block is dragged from the
  palette into the workspace, GO is clicked, and the flag block is picked up again, all
  within the events of one frame. In \<^verbatim>\<open>main.cpp\<close>: the flag block and a move block are
  dragged into the workspace, Space starts the script, a tick 400 ms later runs the move
  block, and the move block is then dragged onto the palette.
\<close>

definition c4_events_p :: "Action_p list" where
  "c4_events_p =
     [Event_p 0 (SDL_MOUSEBUTTONDOWN SDL_BUTTON_LEFT \<lparr> point_x = 100, point_y = 80 \<rparr>),
      Event_p 0 (SDL_MOUSEMOTION 400 100),
      Event_p 0 (SDL_MOUSEBUTTONUP SDL_BUTTON_LEFT \<lparr> point_x = 400, point_y = 100 \<rparr>),
      Event_p 0 (SDL_MOUSEBUTTONDOWN SDL_BUTTON_LEFT \<lparr> point_x = 770, point_y = 480 \<rparr>),
      Event_p 0 (SDL_MOUSEBUTTONDOWN SDL_BUTTON_LEFT \<lparr> point_x = 300, point_y = 80 \<rparr>)]"

definition c4_events_m :: "Action_m list" where
  "c4_events_m =
     [Event_m 0 (SDL_MOUSEBUTTONDOWN SDL_BUTTON_LEFT \<lparr> point_x = 100, point_y = 20 \<rparr>),
      Event_m 0 (SDL_MOUSEMOTION 400 100),
      Event_m 0 (SDL_MOUSEBUTTONUP SDL_BUTTON_LEFT \<lparr> point_x = 400, point_y = 100 \<rparr>),
      Event_m 0 (SDL_MOUSEBUTTONDOWN SDL_BUTTON_LEFT \<lparr> point_x = 100, point_y = 80 \<rparr>),
      Event_m 0 (SDL_MOUSEMOTION 400 200),
      Event_m 0 (SDL_MOUSEBUTTONUP SDL_BUTTON_LEFT \<lparr> point_x = 400, point_y = 200 \<rparr>),
      Event_m 0 (SDL_KEYDOWN SDLK_SPACE),
      Tick_m 400000000,
      Event_m 400000000 (SDL_MOUSEBUTTONDOWN SDL_BUTTON_LEFT \<lparr> point_x = 350, point_y = 195 \<rparr>),
      Event_m 400000000 (SDL_MOUSEBUTTONUP SDL_BUTTON_LEFT \<lparr> point_x = 100, point_y = 195 \<rparr>)]"

text \<open>What holds of the edit buffer of \<^verbatim>\<open>main.cpp\<close> in every reachable state.\<close>

definition buffer_ok :: "string \<Rightarrow> bool" where
  "buffer_ok buf \<longleftrightarrow> wf_buffer buf \<and> int32_range (buffer_value buf) \<and> length buf \<le> 11"

text \<open>
  A run of \<^verbatim>\<open>main.cpp\<close> from the initial state: a move-X block is dragged into the
  workspace, its badge is clicked, the buffer \<open>10\<close> is replaced by \<open>99999\<close> and
  committed, the wheel is turned up over the block, and the badge is clicked again.
\<close>

definition c10_events :: "Action_m list" where
  "c10_events =
     [Event_m 0 (SDL_MOUSEBUTTONDOWN SDL_BUTTON_LEFT \<lparr> point_x = 100, point_y = 80 \<rparr>),
      Event_m 0 (SDL_MOUSEMOTION 400 100),
      Event_m 0 (SDL_MOUSEBUTTONUP SDL_BUTTON_LEFT \<lparr> point_x = 400, point_y = 100 \<rparr>),
      Event_m 0 (SDL_MOUSEBUTTONDOWN SDL_BUTTON_LEFT \<lparr> point_x = 430, point_y = 95 \<rparr>),
      Event_m 0 (SDL_KEYDOWN SDLK_BACKSPACE),
      Event_m 0 (SDL_KEYDOWN SDLK_BACKSPACE),
      Event_m 0 (SDL_TEXTINPUT ''9''),
      Event_m 0 (SDL_TEXTINPUT ''9''),
      Event_m 0 (SDL_TEXTINPUT ''9''),
      Event_m 0 (SDL_TEXTINPUT ''9''),
      Event_m 0 (SDL_TEXTINPUT ''9''),
      Event_m 0 (SDL_KEYDOWN SDLK_RETURN),
      Event_m 0 (SDL_MOUSEWHEEL 1 \<lparr> point_x = 320, point_y = 90 \<rparr>),
      Event_m 0 (SDL_MOUSEBUTTONDOWN SDL_BUTTON_LEFT \<lparr> point_x = 430, point_y = 95 \<rparr>)]"

text \<open>
  A run of \<^verbatim>\<open>main.cpp\<close> from the initial state: a move-X block is dragged into the
  workspace; a pointer-down on its body picks it up, a second pointer-down on its badge
  opens an edit session on it, and the release over the palette erases it.
\<close>

definition c1_events :: "Action_m list" where
  "c1_events =
     [Event_m 0 (SDL_MOUSEBUTTONDOWN SDL_BUTTON_LEFT \<lparr> point_x = 100, point_y = 80 \<rparr>),
      Event_m 0 (SDL_MOUSEMOTION 400 100),
      Event_m 0 (SDL_MOUSEBUTTONUP SDL_BUTTON_LEFT \<lparr> point_x = 400, point_y = 100 \<rparr>),
      Event_m 0 (SDL_MOUSEBUTTONDOWN SDL_BUTTON_LEFT \<lparr> point_x = 320, point_y = 90 \<rparr>),
      Event_m 0 (SDL_MOUSEBUTTONDOWN SDL_BUTTON_LEFT \<lparr> point_x = 430, point_y = 95 \<rparr>),
      Event_m 0 (SDL_MOUSEBUTTONUP SDL_BUTTON_LEFT \<lparr> point_x = 100, point_y = 95 \<rparr>)]"

section \<open>Auxiliary facts\<close>

declare nat_digits.simps [simp del]

lemmas consts_m =
  WINDOW_W_m_def WINDOW_H_m_def PALETTE_W_m_def WORKSPACE_X_m_def WORKSPACE_W_m_def
  STAGE_X_m_def BLOCK_WIDTH_m_def BLOCK_HEIGHT_m_def BLOCK_GAP_m_def

lemmas consts_p =
  WINDOW_W_p_def WINDOW_H_p_def CAT_W_p_def STAGE_W_p_def STAGE_H_p_def SCRIPTS_X_p_def
  SCRIPTS_W_p_def STAGE_X_p_def STAGE_Y_p_def BLOCK_W_p_def BLOCK_H_p_def BLOCK_GAP_p_def
  STEP_DELAY_p_def

subsection \<open>Rounding to \<^verbatim>\<open>float\<close>\<close>

lemma round_even_int [simp]: "round_even (real_of_int n) = n"
  by (simp add: round_even_def)

lemma quantum_char:
  "\<exists>j\<le>n. quantum n q a = q / 2 ^ j \<and> (j < n \<longrightarrow> 2 ^ 23 * (q / 2 ^ j) \<le> a) \<and>
          (\<forall>i<j. a < 2 ^ 23 * (q / 2 ^ i))"
proof (induction n arbitrary: q)
  case 0
  then show ?case by simp
next
  case (Suc n)
  show ?case
  proof (cases "2 ^ 23 * q \<le> a")
    case True
    then show ?thesis by (intro exI [of _ 0]) simp
  next
    case False
    from Suc [of "q / 2"] obtain j where j: "j \<le> n" "quantum n (q / 2) a = q / 2 / 2 ^ j"
      "j < n \<longrightarrow> 2 ^ 23 * (q / 2 / 2 ^ j) \<le> a" "\<forall>i<j. a < 2 ^ 23 * (q / 2 / 2 ^ i)"
      by blast
    have "\<forall>i<Suc j. a < 2 ^ 23 * (q / 2 ^ i)"
    proof (intro allI impI)
      fix i assume "i < Suc j"
      show "a < 2 ^ 23 * (q / 2 ^ i)"
      proof (cases i)
        case 0
        with False show ?thesis by simp
      next
        case (Suc k)
        with \<open>i < Suc j\<close> j(4) show ?thesis by simp
      qed
    qed
    with j False show ?thesis by (intro exI [of _ "Suc j"]) simp
  qed
qed

lemma to_float_int:
  assumes "\<bar>n\<bar> \<le> 16777216"
  shows "to_float (real_of_int n) = Finite (real_of_int n)"
proof -
  let ?a = "\<bar>real_of_int n\<bar>"
  obtain j where j: "j \<le> 253" "quantum 253 (2 ^ 104) ?a = 2 ^ 104 / 2 ^ j"
    "j < 253 \<longrightarrow> 2 ^ 23 * (2 ^ 104 / 2 ^ j) \<le> ?a" "\<forall>i<j. ?a < 2 ^ 23 * (2 ^ 104 / 2 ^ i)"
    using quantum_char [of 253 "2 ^ 104" ?a] by blast
  have a: "?a \<le> 2 ^ 24" using assms by (simp add: abs_le_iff)
  have j103: "103 \<le> j"
  proof (rule ccontr)
    assume "\<not> 103 \<le> j"
    then have lt: "j < 103" by simp
    with j(3) have "2 ^ 23 * ((2::real) ^ 104 / 2 ^ j) \<le> ?a" by simp
    moreover have "(2::real) ^ 104 / 2 ^ j = 2 ^ (104 - j)"
      using lt by (simp add: power_diff)
    ultimately have "(2::real) ^ (23 + (104 - j)) \<le> ?a" by (simp add: power_add)
    with a have "(2::real) ^ (23 + (104 - j)) \<le> 2 ^ 24" by linarith
    from power_le_imp_le_exp [of "2::real", OF _ this] have "23 + (104 - j) \<le> 24" by simp
    with lt show False by simp
  qed
  have "\<exists>m. real_of_int n / (2 ^ 104 / 2 ^ j) = real_of_int m"
  proof (cases "j = 103")
    case True
    with j(1,3) have "2 ^ 23 * ((2::real) ^ 104 / 2 ^ 103) \<le> ?a" by simp
    then have "(2::real) ^ 24 \<le> ?a" by simp
    with a have "?a = 2 ^ 24" by linarith
    then have "n = 16777216 \<or> n = - 16777216"
      by (simp add: abs_if split: if_splits)
    then show ?thesis
    proof
      assume "n = 16777216"
      then show ?thesis unfolding True by (intro exI [of _ 8388608]) simp
    next
      assume "n = - 16777216"
      then show ?thesis unfolding True by (intro exI [of _ "- 8388608"]) simp
    qed
  next
    case False
    with j103 have g: "104 \<le> j" by simp
    then have "(2::real) ^ 104 / 2 ^ j = 1 / 2 ^ (j - 104)"
      by (simp add: power_diff field_simps flip: power_add)
    then have "real_of_int n / (2 ^ 104 / 2 ^ j) = real_of_int (n * 2 ^ (j - 104))"
      by simp
    then show ?thesis by blast
  qed
  then obtain m where m: "real_of_int n / (2 ^ 104 / 2 ^ j) = real_of_int m" by blast
  have q0: "(2::real) ^ 104 / 2 ^ j \<noteq> 0" by simp
  have y: "real_of_int (round_even (real_of_int n / (2 ^ 104 / 2 ^ j))) * (2 ^ 104 / 2 ^ j) =
           real_of_int n"
    unfolding m round_even_int using m q0 by (metis nonzero_divide_eq_eq)
  have "real_of_int n < 2 ^ 128" "- (2 ^ 128) < real_of_int n"
    using a by (simp_all add: abs_le_iff) 
  then show ?thesis
    unfolding to_float_def Let_def j(2) y by simp
qed

lemma to_float_numeral:
  "numeral k \<le> (16777216::int) \<Longrightarrow> to_float (numeral k) = Finite (numeral k)"
  "numeral k \<le> (16777216::int) \<Longrightarrow> to_float (- numeral k) = Finite (- numeral k)"
  "to_float 0 = Finite 0" "to_float 1 = Finite 1"
  using to_float_int [of "numeral k"] to_float_int [of "- numeral k"] to_float_int [of 0]
    to_float_int [of 1] by simp_all

lemma quantum_numeral:
  "quantum (numeral k) q a = (if 2 ^ 23 * q \<le> a then q else quantum (pred_numeral k) (q / 2) a)"
  by (simp add: numeral_eq_Suc)

subsection \<open>The scan for the flag block\<close>

lemma first_flag_m_None:
  "first_flag_m bs i = None \<longleftrightarrow> (\<forall>b \<in> set bs. type_m b \<noteq> EVENT_FLAG_m)"
  by (induction bs arbitrary: i) auto

lemma first_flag_m_Some:
  "first_flag_m bs i = Some k \<longleftrightarrow>
     (\<exists>n < length bs. k = i + int n \<and> type_m (bs ! n) = EVENT_FLAG_m \<and>
        (\<forall>j < n. type_m (bs ! j) \<noteq> EVENT_FLAG_m))"
proof (induction bs arbitrary: i)
  case Nil
  then show ?case by simp
next
  case (Cons b bs)
  show ?case
  proof (cases "type_m b = EVENT_FLAG_m")
    case True
    then show ?thesis
      apply auto
      by (metis nth_Cons_0 not_gr_zero)
  next
    case False
    then show ?thesis
      apply (simp add: Cons.IH)
      apply auto
       apply (rule_tac x="Suc n" in exI)
       apply (auto simp: less_Suc_eq_0_disj)[1]
      apply (case_tac n)
       apply auto
      done
  qed
qed

section \<open>C2: what \<^verbatim>\<open>StartScript\<close> does\<close>

text \<open>
  Claim C2, as amended. In \<^verbatim>\<open>part_000\<close>, for every workspace, \<^verbatim>\<open>StartScript\<close> sets
  \<^verbatim>\<open>scriptRunning\<close>, records the current tick count and starts at step 1 exactly when
  slot 0 holds the flag block, at step 0 otherwise. In \<^verbatim>\<open>main.cpp\<close>, \<^verbatim>\<open>StartScript\<close>
  scans for the first flag block; when there is one, at index \<open>n\<close>, it sets \<^verbatim>\<open>running\<close>,
  records the clock and starts at step \<open>n + 1\<close>; when the workspace holds no flag block
  it changes nothing, so \<^verbatim>\<open>running\<close> is not set.
\<close>

theorem C2_start:
  "scriptRunning_p (StartScript_p now s) \<and>
   lastStepTime_p (StartScript_p now s) = now \<and>
   scriptStep_p (StartScript_p now s) =
     (if workspace_p s \<noteq> [] \<and> type_p (hd (workspace_p s)) = EVENT_FLAG_p then 1 else 0) \<and>
   workspace_p (StartScript_p now s) = workspace_p s \<and>
   (\<forall>n < length (workspace_m sm).
      type_m (workspace_m sm ! n) = EVENT_FLAG_m \<and>
      (\<forall>j < n. type_m (workspace_m sm ! j) \<noteq> EVENT_FLAG_m) \<longrightarrow>
      running_m (StartScript_m nowm sm) \<and>
      lastStepTime_m (StartScript_m nowm sm) = nowm \<and>
      scriptStep_m (StartScript_m nowm sm) = int n + 1 \<and>
      highlightIdx_m (StartScript_m nowm sm) = int n \<and>
      workspace_m (StartScript_m nowm sm) = workspace_m sm) \<and>
   ((\<forall>b \<in> set (workspace_m sm). type_m b \<noteq> EVENT_FLAG_m) \<longrightarrow> StartScript_m nowm sm = sm)"
proof -
  have p: "scriptRunning_p (StartScript_p now s) \<and>
   lastStepTime_p (StartScript_p now s) = now \<and>
   scriptStep_p (StartScript_p now s) =
     (if workspace_p s \<noteq> [] \<and> type_p (hd (workspace_p s)) = EVENT_FLAG_p then 1 else 0) \<and>
   workspace_p (StartScript_p now s) = workspace_p s"
    by (cases "workspace_p s") (simp_all add: StartScript_p_def)
  have m1: "\<forall>n < length (workspace_m sm).
      type_m (workspace_m sm ! n) = EVENT_FLAG_m \<and>
      (\<forall>j < n. type_m (workspace_m sm ! j) \<noteq> EVENT_FLAG_m) \<longrightarrow>
      running_m (StartScript_m nowm sm) \<and>
      lastStepTime_m (StartScript_m nowm sm) = nowm \<and>
      scriptStep_m (StartScript_m nowm sm) = int n + 1 \<and>
      highlightIdx_m (StartScript_m nowm sm) = int n \<and>
      workspace_m (StartScript_m nowm sm) = workspace_m sm"
  proof (intro allI impI)
    fix n
    assume n: "n < length (workspace_m sm)"
      and f: "type_m (workspace_m sm ! n) = EVENT_FLAG_m \<and>
        (\<forall>j < n. type_m (workspace_m sm ! j) \<noteq> EVENT_FLAG_m)"
    have "first_flag_m (workspace_m sm) 0 = Some (int n)"
      using n f by (subst first_flag_m_Some) auto
    then show "running_m (StartScript_m nowm sm) \<and>
      lastStepTime_m (StartScript_m nowm sm) = nowm \<and>
      scriptStep_m (StartScript_m nowm sm) = int n + 1 \<and>
      highlightIdx_m (StartScript_m nowm sm) = int n \<and>
      workspace_m (StartScript_m nowm sm) = workspace_m sm"
      by (simp add: StartScript_m_def)
  qed
  have m2: "(\<forall>b \<in> set (workspace_m sm). type_m b \<noteq> EVENT_FLAG_m) \<longrightarrow>
      StartScript_m nowm sm = sm"
    using first_flag_m_None [of "workspace_m sm" 0] by (auto simp: StartScript_m_def)
  from p m1 m2 show ?thesis by blast
qed

text \<open>
  The theorem at a workspace whose flag block is at index 1, and at the empty workspace.
\<close>

theorem C2_start_witness:
  "running_m (StartScript_m 7 st_c2) \<and> scriptStep_m (StartScript_m 7 st_c2) = 2 \<and>
   lastStepTime_m (StartScript_m 7 st_c2) = 7 \<and> StartScript_m 7 globals_m = globals_m"
  using C2_start [of 0 globals_p st_c2 7] C2_start [of 0 globals_p globals_m 7]
  by (simp add: st_c2_def globals_m_def less_Suc_eq)

text \<open>
  The claim as stated fails in \<^verbatim>\<open>main.cpp\<close>: on the empty workspace \<^verbatim>\<open>StartScript\<close>
  leaves \<^verbatim>\<open>running\<close> false.
\<close>

theorem C2_start_counterexample:
  "\<not> running_m (StartScript_m 7 globals_m)"
  by (simp add: StartScript_m_def globals_m_def)

section \<open>C8: \<^verbatim>\<open>BuildPalette\<close> called again\<close>

text \<open>
  Claim C8, as amended. \<^verbatim>\<open>BuildPalette\<close> of \<^verbatim>\<open>part_000\<close> is idempotent: whatever the
  state, it replaces the palette and the headers by the same seven templates and three
  headers and changes nothing else. \<^verbatim>\<open>BuildPalette\<close> of \<^verbatim>\<open>main.cpp\<close> does not clear
  the palette: it appends the same five templates to what the palette holds and changes
  nothing else, so it yields the five-entry catalog only on an empty palette.
\<close>

theorem C8_BuildPalette:
  "BuildPalette_p (BuildPalette_p s) = BuildPalette_p s \<and>
   BuildPalette_p s = s \<lparr> palette_p := palette_p init_p, catHeaders_p := catHeaders_p init_p \<rparr> \<and>
   length (palette_p init_p) = 7 \<and> length (catHeaders_p init_p) = 3 \<and>
   BuildPalette_m sm = sm \<lparr> palette_m := palette_m sm @ palette_m init_m \<rparr> \<and>
   length (palette_m init_m) = 5"
  by (simp add: BuildPalette_p_def init_p_def catalog_p_def mk_p_def addHeader_p_def gap_p_def
      BuildPalette_m_def init_m_def globals_m_def add_m_def skip_m_def Let_def)

text \<open>
  The claim as stated fails in \<^verbatim>\<open>main.cpp\<close>: a second call leaves ten entries where
  one call leaves five.
\<close>

theorem C8_BuildPalette_counterexample:
  "length (palette_m (BuildPalette_m globals_m)) = 5 \<and>
   length (palette_m (BuildPalette_m (BuildPalette_m globals_m))) = 10"
  by (simp add: BuildPalette_m_def globals_m_def add_m_def skip_m_def)

section \<open>C9: the mouse wheel in \<^verbatim>\<open>main.cpp\<close>\<close>

text \<open>
  Claim C9. In \<^verbatim>\<open>main.cpp\<close>, a wheel event while no edit session is open
  (\<^verbatim>\<open>editingIdx == -1\<close>) changes nothing but the workspace, keeps its length, and adds 5
  (wheel value above 0) or subtracts 5 (otherwise) to the value of every move block whose
  rectangle holds the pointer position; every other block is unchanged. The edit buffer
  plays no part. The addition is that of a 32-bit \<^verbatim>\<open>int\<close>.
\<close>

theorem C9_wheel:
  assumes "editingIdx_m s = - 1"
  shows "\<exists>s'. handle_event_m now (SDL_MOUSEWHEEL wy mp) s = Some s' \<and>
     s' = s \<lparr> workspace_m := workspace_m s' \<rparr> \<and>
     length (workspace_m s') = length (workspace_m s) \<and>
     (\<forall>i < length (workspace_m s).
        workspace_m s' ! i =
          (if (type_m (workspace_m s ! i) = MOVE_X_m \<or> type_m (workspace_m s ! i) = MOVE_Y_m) \<and>
              SDL_PointInRect mp (rect_m (workspace_m s ! i))
           then (workspace_m s ! i)
                  \<lparr> steps_m := steps_m (workspace_m s ! i) + (if 0 < wy then 5 else - 5) \<rparr>
           else workspace_m s ! i))"
  using assms by (simp add: mouse_wheel_m_def wheel_block_m_def is_move_m_def)

text \<open>
  The theorem at a workspace of three blocks: wheel up over the first block takes its value
  from 99999 to 100004, wheel down over the second takes it from 10 to 5.
\<close>

theorem C9_wheel_witness:
  "map_option (\<lambda>s. map steps_m (workspace_m s))
     (handle_event_m 0 (SDL_MOUSEWHEEL 1 \<lparr> point_x = 310, point_y = 110 \<rparr>) wheel_m)
     = Some [100004, 10, 0] \<and>
   map_option (\<lambda>s. map steps_m (workspace_m s))
     (handle_event_m 0 (SDL_MOUSEWHEEL (- 1) \<lparr> point_x = 310, point_y = 210 \<rparr>) wheel_m)
     = Some [99999, 5, 0]"
  using C9_wheel [of wheel_m 0 1 "\<lparr> point_x = 310, point_y = 110 \<rparr>"]
  by (simp add: wheel_m_def globals_m_def blk_m_def mouse_wheel_m_def wheel_block_m_def
      is_move_m_def SDL_PointInRect_def)

section \<open>Auxiliary facts about the event handlers\<close>

subsection \<open>Lists, scans and layout\<close>

lemma length_layout_from_p [simp]: "length (layout_from_p y bs) = length bs"
  by (induction bs arbitrary: y) (auto simp: Let_def)

lemma content_layout_from_p [simp]: "map content_p (layout_from_p y bs) = map content_p bs"
  by (induction bs arbitrary: y) (auto simp: Let_def content_p_def)

lemma layout_from_p_idem [simp]: "layout_from_p y (layout_from_p y bs) = layout_from_p y bs"
  by (induction bs arbitrary: y) (auto simp: Let_def)

lemma map_insert_at: "map f (insert_at xs i v) = insert_at (map f xs) i (f v)"
  by (simp add: insert_at_def take_map drop_map)


lemma length_insert_at [simp]: "i \<le> length xs \<Longrightarrow> length (insert_at xs i v) = Suc (length xs)"
  by (simp add: insert_at_def)

lemma length_erase_at [simp]: "i < length xs \<Longrightarrow> length (erase_at xs i) = length xs - 1"
  by (simp add: erase_at_def)

lemma insert_index_p_takeWhile:
  "insert_index_p my bs i = i + length (takeWhile (\<lambda>b. \<not> my < mid_y_p b) bs)"
  by (induction bs arbitrary: i) (auto simp: mid_y_p_def)

lemma insert_index_p_spec:
  "insert_index_p my bs 0 \<le> length bs \<and>
   (\<forall>j < insert_index_p my bs 0. \<not> my < mid_y_p (bs ! j)) \<and>
   (insert_index_p my bs 0 < length bs \<longrightarrow> my < mid_y_p (bs ! insert_index_p my bs 0)) \<and>
   ((\<forall>b \<in> set bs. my < mid_y_p b) \<longrightarrow> insert_index_p my bs 0 = 0)"
proof -
  let ?P = "\<lambda>b. \<not> my < mid_y_p b"
  have k: "insert_index_p my bs 0 = length (takeWhile ?P bs)"
    by (simp add: insert_index_p_takeWhile)
  have 1: "length (takeWhile ?P bs) \<le> length bs"
    by (rule length_takeWhile_le)
  have 2: "\<forall>j < length (takeWhile ?P bs). ?P (bs ! j)"
    by (metis nth_mem set_takeWhileD takeWhile_nth)
  have 3: "length (takeWhile ?P bs) < length bs \<longrightarrow> \<not> ?P (bs ! length (takeWhile ?P bs))"
    using nth_length_takeWhile by blast
  have 4: "(\<forall>b \<in> set bs. my < mid_y_p b) \<longrightarrow> length (takeWhile ?P bs) = 0"
    by (cases bs) auto
  from 1 2 3 4 show ?thesis unfolding k by blast
qed

lemma nth_insert_at_same: "i \<le> length xs \<Longrightarrow> insert_at xs i v ! i = v"
  by (simp add: insert_at_def nth_append)


lemma find_badge_p_range:
  "find_badge_p mp bs i = Some k \<Longrightarrow> i \<le> k \<and> k < i + int (length bs)"
  by (induction bs arbitrary: i) (auto split: if_splits, fastforce+)



lemma find_badge_m_range:
  "find_badge_m mp bs i = Some k \<Longrightarrow> i \<le> k \<and> k < i + int (length bs)"
  by (induction bs arbitrary: i) (auto split: if_splits, fastforce+)

lemma pick_p_workspace:
  "workspace_p (pick_workspace_p mp (pick_palette_p mp c)) = workspace_p c \<or>
   (\<exists>i. find_drag_p mp (workspace_p c) 0 = Some i \<and>
      workspace_p (pick_workspace_p mp (pick_palette_p mp c)) =
        layout_from_p 60 (erase_at (workspace_p c) (nat i)) \<and>
      dragging_p (pick_workspace_p mp (pick_palette_p mp c)) \<and>
      dragBlock_p (pick_workspace_p mp (pick_palette_p mp c)) = workspace_p c ! nat i)"
  by (auto simp: pick_workspace_p_def pick_palette_p_def LayoutWorkspace_p_def
      split: option.splits)

lemma pick_p_editing:
  "editingValue_p (pick_workspace_p mp (pick_palette_p mp c)) = editingValue_p c"
  by (auto simp: pick_workspace_p_def pick_palette_p_def LayoutWorkspace_p_def
      split: option.splits)

lemma mouse_down_m_steps:
  "length (workspace_m s) \<le> length (workspace_m (mouse_down_m now mp s)) \<and>
   (\<forall>i < length (workspace_m s).
      steps_m (workspace_m (mouse_down_m now mp s) ! i) = steps_m (workspace_m s ! i))"
  by (auto simp: mouse_down_m_def end_edit_m_def StartScript_m_def pick_workspace_m_def
      pick_palette_m_def Let_def nth_append split: option.splits)










subsection \<open>The drag slot of \<^verbatim>\<open>part_000\<close> after a release\<close>










lemma effect_p_frame:
  "workspace_p (effect_p blk s) = workspace_p s \<and> scriptStep_p (effect_p blk s) = scriptStep_p s \<and>
   scriptRunning_p (effect_p blk s) = scriptRunning_p s \<and> dragging_p (effect_p blk s) = dragging_p s \<and>
   lastStepTime_p (effect_p blk s) = lastStepTime_p s"
  by (simp add: effect_p_def split: BlockType_p.split)

lemma clamp_sprite_p_frame:
  "workspace_p (clamp_sprite_p s) = workspace_p s \<and> scriptStep_p (clamp_sprite_p s) = scriptStep_p s \<and>
   scriptRunning_p (clamp_sprite_p s) = scriptRunning_p s \<and> dragging_p (clamp_sprite_p s) = dragging_p s \<and>
   lastStepTime_p (clamp_sprite_p s) = lastStepTime_p s"
  by (simp add: clamp_sprite_p_def)






subsection \<open>The initial states, field by field\<close>

lemma palette_init_m:
  "palette_m init_m =
     [\<lparr> rect_m = \<lparr> rect_x = 15, rect_y = 10, rect_w = 170, rect_h = 38 \<rparr>,
        cat_m = EVENT_m, type_m = EVENT_FLAG_m, color_m = colEvent_m, steps_m = 0 \<rparr>,
      \<lparr> rect_m = \<lparr> rect_x = 15, rect_y = 66, rect_w = 170, rect_h = 38 \<rparr>,
        cat_m = MOTION_m, type_m = MOVE_X_m, color_m = colMotion_m, steps_m = 10 \<rparr>,
      \<lparr> rect_m = \<lparr> rect_x = 15, rect_y = 114, rect_w = 170, rect_h = 38 \<rparr>,
        cat_m = MOTION_m, type_m = MOVE_Y_m, color_m = colMotion_m, steps_m = 10 \<rparr>,
      \<lparr> rect_m = \<lparr> rect_x = 15, rect_y = 170, rect_w = 170, rect_h = 38 \<rparr>,
        cat_m = LOOKS_m, type_m = LOOKS_SHOW_m, color_m = colLooks_m, steps_m = 0 \<rparr>,
      \<lparr> rect_m = \<lparr> rect_x = 15, rect_y = 218, rect_w = 170, rect_h = 38 \<rparr>,
        cat_m = LOOKS_m, type_m = LOOKS_HIDE_m, color_m = colLooks_m, steps_m = 0 \<rparr>]"
  by (simp add: init_m_def BuildPalette_m_def globals_m_def add_m_def skip_m_def consts_m)

lemma fields_init_m:
  "workspace_m init_m = []" "draggingIdx_m init_m = - 1" "editingIdx_m init_m = - 1"
  "editBuffer_m init_m = []" "running_m init_m = False" "scriptStep_m init_m = 0"
  by (simp_all add: init_m_def BuildPalette_m_def globals_m_def)

lemma palette_init_p:
  "palette_p init_p =
     [\<lparr> rect_p = \<lparr> rect_x = 25, rect_y = 69, rect_w = 190, rect_h = 52 \<rparr>,
        category_p = BCAT_EVENT_p, type_p = EVENT_FLAG_p, color_p = COL_EVENTS_p,
        steps_p = 0, isHat_p = True \<rparr>,
      \<lparr> rect_p = \<lparr> rect_x = 25, rect_y = 179, rect_w = 190, rect_h = 40 \<rparr>,
        category_p = BCAT_MOTION_p, type_p = CHANGE_X_p, color_p = COL_MOTION_p,
        steps_p = 10, isHat_p = False \<rparr>,
      \<lparr> rect_p = \<lparr> rect_x = 25, rect_y = 227, rect_w = 190, rect_h = 40 \<rparr>,
        category_p = BCAT_MOTION_p, type_p = CHANGE_Y_p, color_p = COL_MOTION_p,
        steps_p = 10, isHat_p = False \<rparr>,
      \<lparr> rect_p = \<lparr> rect_x = 25, rect_y = 275, rect_w = 190, rect_h = 40 \<rparr>,
        category_p = BCAT_MOTION_p, type_p = SET_X_p, color_p = COL_MOTION_p,
        steps_p = 0, isHat_p = False \<rparr>,
      \<lparr> rect_p = \<lparr> rect_x = 25, rect_y = 323, rect_w = 190, rect_h = 40 \<rparr>,
        category_p = BCAT_MOTION_p, type_p = SET_Y_p, color_p = COL_MOTION_p,
        steps_p = 0, isHat_p = False \<rparr>,
      \<lparr> rect_p = \<lparr> rect_x = 25, rect_y = 421, rect_w = 190, rect_h = 40 \<rparr>,
        category_p = BCAT_LOOKS_p, type_p = LOOKS_SHOW_p, color_p = COL_LOOKS_p,
        steps_p = 0, isHat_p = False \<rparr>,
      \<lparr> rect_p = \<lparr> rect_x = 25, rect_y = 469, rect_w = 190, rect_h = 40 \<rparr>,
        category_p = BCAT_LOOKS_p, type_p = LOOKS_HIDE_p, color_p = COL_LOOKS_p,
        steps_p = 0, isHat_p = False \<rparr>]"
  by (simp add: init_p_def BuildPalette_p_def catalog_p_def mk_p_def addHeader_p_def gap_p_def
      consts_p Let_def)

lemma fields_init_p:
  "workspace_p init_p = []" "dragging_p init_p = False" "editingValue_p init_p = False"
  "scriptRunning_p init_p = False" "scriptStep_p init_p = 0" "inputBuffer_p init_p = []"
  by (simp_all add: init_p_def BuildPalette_p_def globals_p_def)

lemmas eval_m = mouse_down_m_def mouse_motion_m_def mouse_up_m_def drop_erase_m_def
  pick_palette_m_def pick_workspace_m_def end_edit_m_def key_down_m_def store_m_def
  text_input_m_def mouse_wheel_m_def wheel_block_m_def StartScript_m_def
  SDL_PointInRect_def flagBtn_m_def badgeRect_m_def is_move_m_def cdiv_def consts_m
  palette_init_m fields_init_m isdigit_def isspace_def stoi_def to_string_def
  nat_digits.simps erase_at_def Let_def UpdateScript_m_def elapsed_ms_m_def effect_m_def
  char_of_def bit_Suc_0_iff

lemmas eval_p = mouse_down_p_def mouse_motion_p_def mouse_up_p_def
  pick_palette_p_def pick_workspace_p_def key_down_p_def commitEdit_p_def commit_value_p_def
  text_input_p_def accept_char_p_def StartScript_p_def LayoutWorkspace_p_def
  SDL_PointInRect_def goBtn_p_def stopBtn_p_def wsRect_p_def pill_p_def has_value_p_def
  cdiv_def consts_p palette_init_p fields_init_p isdigit_def isspace_def stoi_def to_string_def
  nat_digits.simps erase_at_def insert_at_def Let_def UpdateScript_p_def gate_closed_p_def
  effect_p_def clamp_sprite_p_def char_of_def bit_Suc_0_iff

section \<open>C5: a pointer-down during an edit session\<close>

text \<open>
  Claim C5, as amended. In \<^verbatim>\<open>part_000\<close>, a left pointer-down during an edit session
  that hits neither the GO button, nor the STOP button, nor a value badge commits the
  buffer into the edited block (when its index is inside the workspace) and ends the
  session; the click then goes on to start a drag if it hits a block. A pointer-down on
  a value badge, the edited one or another, opens a session on that badge with a fresh
  buffer and commits nothing; a pointer-down on GO or STOP leaves the session, the buffer
  and the workspace as they are. In \<^verbatim>\<open>main.cpp\<close>, every left pointer-down during a
  session first cancels it, exactly as Escape does: no block value changes.
\<close>

theorem C5_pointer_down:
  "(editingValue_p s \<and> \<not> SDL_PointInRect mp goBtn_p \<and> \<not> SDL_PointInRect mp stopBtn_p \<and>
    find_badge_p mp (workspace_p s) 0 = None \<longrightarrow>
      handle_event_p now (SDL_MOUSEBUTTONDOWN SDL_BUTTON_LEFT mp) s =
        pick_workspace_p mp (pick_palette_p mp (commitEdit_p s)) \<and>
      \<not> editingValue_p
          (handle_event_p now (SDL_MOUSEBUTTONDOWN SDL_BUTTON_LEFT mp) s) \<and>
      (0 \<le> editingIdx_p s \<and> editingIdx_p s < int (length (workspace_p s)) \<longrightarrow>
         steps_p (workspace_p (commitEdit_p s) ! nat (editingIdx_p s)) =
           commit_value_p (inputBuffer_p s)) \<and>
      (workspace_p
         (handle_event_p now (SDL_MOUSEBUTTONDOWN SDL_BUTTON_LEFT mp) s) =
         workspace_p (commitEdit_p s) \<or>
       (\<exists>i. find_drag_p mp (workspace_p (commitEdit_p s)) 0 = Some i \<and>
          workspace_p
            (handle_event_p now (SDL_MOUSEBUTTONDOWN SDL_BUTTON_LEFT mp) s) =
            layout_from_p 60 (erase_at (workspace_p (commitEdit_p s)) (nat i)) \<and>
          dragBlock_p
            (handle_event_p now (SDL_MOUSEBUTTONDOWN SDL_BUTTON_LEFT mp) s) =
            workspace_p (commitEdit_p s) ! nat i))) \<and>
   (\<not> SDL_PointInRect mp goBtn_p \<and> \<not> SDL_PointInRect mp stopBtn_p \<longrightarrow>
      (\<forall>i. find_badge_p mp (workspace_p s) 0 = Some i \<longrightarrow>
         handle_event_p now (SDL_MOUSEBUTTONDOWN SDL_BUTTON_LEFT mp) s =
           s \<lparr> editingValue_p := True, editingIdx_p := i,
               inputBuffer_p := to_string (sint (steps_p (workspace_p s ! nat i))) \<rparr>)) \<and>
   (SDL_PointInRect mp goBtn_p \<or> SDL_PointInRect mp stopBtn_p \<longrightarrow>
      workspace_p
        (handle_event_p now (SDL_MOUSEBUTTONDOWN SDL_BUTTON_LEFT mp) s) =
        workspace_p s \<and>
      editingValue_p
        (handle_event_p now (SDL_MOUSEBUTTONDOWN SDL_BUTTON_LEFT mp) s) =
        editingValue_p s \<and>
      inputBuffer_p
        (handle_event_p now (SDL_MOUSEBUTTONDOWN SDL_BUTTON_LEFT mp) s) =
        inputBuffer_p s) \<and>
   (0 \<le> editingIdx_m sm \<longrightarrow>
      handle_event_m nowm (SDL_KEYDOWN SDLK_ESCAPE) sm = Some (end_edit_m sm) \<and>
      handle_event_m nowm (SDL_MOUSEBUTTONDOWN SDL_BUTTON_LEFT mpm) sm =
        handle_event_m nowm (SDL_MOUSEBUTTONDOWN SDL_BUTTON_LEFT mpm) (end_edit_m sm) \<and>
      (\<exists>r. handle_event_m nowm (SDL_MOUSEBUTTONDOWN SDL_BUTTON_LEFT mpm) sm = Some r \<and>
         length (workspace_m sm) \<le> length (workspace_m r) \<and>
         (\<forall>i < length (workspace_m sm).
            steps_m (workspace_m r ! i) = steps_m (workspace_m sm ! i))))"
proof -
  let ?r = "handle_event_p now (SDL_MOUSEBUTTONDOWN SDL_BUTTON_LEFT mp) s"
  have a: "editingValue_p s \<and> \<not> SDL_PointInRect mp goBtn_p \<and> \<not> SDL_PointInRect mp stopBtn_p \<and>
    find_badge_p mp (workspace_p s) 0 = None \<longrightarrow>
      ?r = pick_workspace_p mp (pick_palette_p mp (commitEdit_p s))"
    by (simp add: mouse_down_p_def)
  have a2: "\<not> editingValue_p (pick_workspace_p mp (pick_palette_p mp (commitEdit_p s)))"
    by (simp add: pick_p_editing commitEdit_p_def)
  have a3: "0 \<le> editingIdx_p s \<and> editingIdx_p s < int (length (workspace_p s)) \<longrightarrow>
         steps_p (workspace_p (commitEdit_p s) ! nat (editingIdx_p s)) =
           commit_value_p (inputBuffer_p s)"
    by (auto simp: commitEdit_p_def nat_less_iff)
  note a4 = pick_p_workspace [of mp "commitEdit_p s"]
  have b: "\<not> SDL_PointInRect mp goBtn_p \<and> \<not> SDL_PointInRect mp stopBtn_p \<longrightarrow>
      (\<forall>i. find_badge_p mp (workspace_p s) 0 = Some i \<longrightarrow>
         ?r = s \<lparr> editingValue_p := True, editingIdx_p := i,
               inputBuffer_p := to_string (sint (steps_p (workspace_p s ! nat i))) \<rparr>)"
    by (simp add: mouse_down_p_def)
  have c: "SDL_PointInRect mp goBtn_p \<or> SDL_PointInRect mp stopBtn_p \<longrightarrow>
      workspace_p ?r = workspace_p s \<and> editingValue_p ?r = editingValue_p s \<and>
      inputBuffer_p ?r = inputBuffer_p s"
    by (auto simp: mouse_down_p_def StartScript_p_def)
  have d: "0 \<le> editingIdx_m sm \<longrightarrow>
      handle_event_m nowm (SDL_KEYDOWN SDLK_ESCAPE) sm = Some (end_edit_m sm) \<and>
      handle_event_m nowm (SDL_MOUSEBUTTONDOWN SDL_BUTTON_LEFT mpm) sm =
        handle_event_m nowm (SDL_MOUSEBUTTONDOWN SDL_BUTTON_LEFT mpm) (end_edit_m sm) \<and>
      (\<exists>r. handle_event_m nowm (SDL_MOUSEBUTTONDOWN SDL_BUTTON_LEFT mpm) sm = Some r \<and>
         length (workspace_m sm) \<le> length (workspace_m r) \<and>
         (\<forall>i < length (workspace_m sm).
            steps_m (workspace_m r ! i) = steps_m (workspace_m sm ! i)))"
  proof
    assume e: "0 \<le> editingIdx_m sm"
    have d1: "handle_event_m nowm (SDL_KEYDOWN SDLK_ESCAPE) sm = Some (end_edit_m sm)"
      using e by (simp add: key_down_m_def)
    have d2: "mouse_down_m nowm mpm sm = mouse_down_m nowm mpm (end_edit_m sm)"
      using e by (simp add: mouse_down_m_def end_edit_m_def Let_def)
    show "handle_event_m nowm (SDL_KEYDOWN SDLK_ESCAPE) sm = Some (end_edit_m sm) \<and>
      handle_event_m nowm (SDL_MOUSEBUTTONDOWN SDL_BUTTON_LEFT mpm) sm =
        handle_event_m nowm (SDL_MOUSEBUTTONDOWN SDL_BUTTON_LEFT mpm) (end_edit_m sm) \<and>
      (\<exists>r. handle_event_m nowm (SDL_MOUSEBUTTONDOWN SDL_BUTTON_LEFT mpm) sm = Some r \<and>
         length (workspace_m sm) \<le> length (workspace_m r) \<and>
         (\<forall>i < length (workspace_m sm).
            steps_m (workspace_m r ! i) = steps_m (workspace_m sm ! i)))"
      using d1 d2 mouse_down_m_steps [of sm nowm mpm] by simp
  qed
  have A: "editingValue_p s \<and> \<not> SDL_PointInRect mp goBtn_p \<and> \<not> SDL_PointInRect mp stopBtn_p \<and>
    find_badge_p mp (workspace_p s) 0 = None \<longrightarrow>
      ?r = pick_workspace_p mp (pick_palette_p mp (commitEdit_p s)) \<and>
      \<not> editingValue_p ?r \<and>
      (0 \<le> editingIdx_p s \<and> editingIdx_p s < int (length (workspace_p s)) \<longrightarrow>
         steps_p (workspace_p (commitEdit_p s) ! nat (editingIdx_p s)) =
           commit_value_p (inputBuffer_p s)) \<and>
      (workspace_p ?r = workspace_p (commitEdit_p s) \<or>
       (\<exists>i. find_drag_p mp (workspace_p (commitEdit_p s)) 0 = Some i \<and>
          workspace_p ?r = layout_from_p 60 (erase_at (workspace_p (commitEdit_p s)) (nat i)) \<and>
          dragBlock_p ?r = workspace_p (commitEdit_p s) ! nat i))"
  proof
    assume h: "editingValue_p s \<and> \<not> SDL_PointInRect mp goBtn_p \<and>
      \<not> SDL_PointInRect mp stopBtn_p \<and> find_badge_p mp (workspace_p s) 0 = None"
    have r: "?r = pick_workspace_p mp (pick_palette_p mp (commitEdit_p s))"
      using a h by blast
    show "?r = pick_workspace_p mp (pick_palette_p mp (commitEdit_p s)) \<and>
      \<not> editingValue_p ?r \<and>
      (0 \<le> editingIdx_p s \<and> editingIdx_p s < int (length (workspace_p s)) \<longrightarrow>
         steps_p (workspace_p (commitEdit_p s) ! nat (editingIdx_p s)) =
           commit_value_p (inputBuffer_p s)) \<and>
      (workspace_p ?r = workspace_p (commitEdit_p s) \<or>
       (\<exists>i. find_drag_p mp (workspace_p (commitEdit_p s)) 0 = Some i \<and>
          workspace_p ?r = layout_from_p 60 (erase_at (workspace_p (commitEdit_p s)) (nat i)) \<and>
          dragBlock_p ?r = workspace_p (commitEdit_p s) ! nat i))"
      unfolding r using a2 a3 a4 by blast
  qed
  show ?thesis
    using A b c d by (intro conjI)
qed

text \<open>
  The theorem at a session with buffer \<open>15\<close> on a block of value 7: a click on empty
  workspace commits 15 in \<^verbatim>\<open>part_000\<close>; a click on GO leaves the buffer; the same click
  in \<^verbatim>\<open>main.cpp\<close> leaves the value 7.
\<close>

theorem C5_pointer_down_witness:
  "map steps_p (workspace_p
     (handle_event_p 0 (SDL_MOUSEBUTTONDOWN SDL_BUTTON_LEFT \<lparr> point_x = 600, point_y = 400 \<rparr>)
        (edit_p ''15''))) = [15] \<and>
   \<not> editingValue_p
     (handle_event_p 0 (SDL_MOUSEBUTTONDOWN SDL_BUTTON_LEFT \<lparr> point_x = 600, point_y = 400 \<rparr>)
        (edit_p ''15'')) \<and>
   inputBuffer_p
     (handle_event_p 0 (SDL_MOUSEBUTTONDOWN SDL_BUTTON_LEFT \<lparr> point_x = 770, point_y = 480 \<rparr>)
        (edit_p ''15'')) = ''15'' \<and>
   map_option (\<lambda>s. (map steps_m (workspace_m s), editingIdx_m s))
     (handle_event_m 0 (SDL_MOUSEBUTTONDOWN SDL_BUTTON_LEFT \<lparr> point_x = 600, point_y = 400 \<rparr>)
        (edit_m ''15'')) = Some ([7], - 1)"
  using C5_pointer_down [of "edit_p ''15''" "\<lparr> point_x = 600, point_y = 400 \<rparr>" 0
      "edit_m ''15''" 0 "\<lparr> point_x = 600, point_y = 400 \<rparr>"]
    C5_pointer_down [of "edit_p ''15''" "\<lparr> point_x = 770, point_y = 480 \<rparr>" 0
      "edit_m ''15''" 0 "\<lparr> point_x = 600, point_y = 400 \<rparr>"]
  by (simp add: edit_p_def edit_m_def globals_p_def globals_m_def blk_p_def blk_m_def
      mouse_down_p_def mouse_down_m_def SDL_PointInRect_def goBtn_p_def stopBtn_p_def
      flagBtn_m_def consts_p consts_m has_value_p_def pill_p_def badgeRect_m_def is_move_m_def
      cdiv_def commitEdit_p_def commit_value_p_def stoi_def isspace_def isdigit_def Let_def
      pick_palette_p_def pick_workspace_p_def pick_palette_m_def pick_workspace_m_def
      end_edit_m_def StartScript_p_def)

text \<open>
  The claim as stated fails in \<^verbatim>\<open>main.cpp\<close>: a click outside the badge, with \<open>15\<close>
  in the buffer, ends the session and leaves the block at 7. It also fails in
  \<^verbatim>\<open>part_000\<close> for a click on the GO button, which lies outside the badge: the block
  stays at 7 and the session stays open.
\<close>

theorem C5_pointer_down_counterexample:
  "map_option (\<lambda>s. (map steps_m (workspace_m s), editingIdx_m s))
     (handle_event_m 0 (SDL_MOUSEBUTTONDOWN SDL_BUTTON_LEFT \<lparr> point_x = 600, point_y = 400 \<rparr>)
        (edit_m ''15'')) = Some ([7], - 1) \<and>
   map steps_p (workspace_p
     (handle_event_p 0 (SDL_MOUSEBUTTONDOWN SDL_BUTTON_LEFT \<lparr> point_x = 770, point_y = 480 \<rparr>)
        (edit_p ''15''))) = [7] \<and>
   editingValue_p
     (handle_event_p 0 (SDL_MOUSEBUTTONDOWN SDL_BUTTON_LEFT \<lparr> point_x = 770, point_y = 480 \<rparr>)
        (edit_p ''15''))"
  by (simp add: edit_m_def globals_m_def blk_m_def mouse_down_m_def SDL_PointInRect_def
      flagBtn_m_def consts_m badgeRect_m_def is_move_m_def cdiv_def Let_def
      pick_palette_m_def pick_workspace_m_def end_edit_m_def
      edit_p_def globals_p_def blk_p_def mouse_down_p_def goBtn_p_def stopBtn_p_def consts_p
      StartScript_p_def)

section \<open>C7: where a dropped block lands\<close>

text \<open>
  Claim C7, as amended. In \<^verbatim>\<open>part_000\<close>, a drop inside the workspace region inserts
  the dragged block at the first index, scanning from the top, whose block has its vertical
  midpoint below the drop height, and at the end when there is none; the workspace is then
  laid out again, which changes rectangles only. A block dropped above the midpoints of
  all blocks becomes the element at index 0. In \<^verbatim>\<open>main.cpp\<close> there is no insertion
  rule: a palette block joins the end of the workspace at pick-up, and a release either
  erases the dragged block (pointer left of \<^verbatim>\<open>PALETTE_W\<close>) or leaves the sequence as
  it is, whatever the drop height.
\<close>

theorem C7_drop_position:
  "(dragging_p s \<and> SDL_PointInRect pt wsRect_p \<longrightarrow>
      insert_index_p (point_y pt) (workspace_p s) 0 \<le> length (workspace_p s) \<and>
      (\<forall>j < insert_index_p (point_y pt) (workspace_p s) 0.
         \<not> point_y pt < mid_y_p (workspace_p s ! j)) \<and>
      (insert_index_p (point_y pt) (workspace_p s) 0 < length (workspace_p s) \<longrightarrow>
         point_y pt < mid_y_p (workspace_p s ! insert_index_p (point_y pt) (workspace_p s) 0)) \<and>
      workspace_p (handle_event_p now (SDL_MOUSEBUTTONUP SDL_BUTTON_LEFT pt) s) =
        layout_from_p 60
          (insert_at (workspace_p s) (insert_index_p (point_y pt) (workspace_p s) 0) (dragBlock_p s)) \<and>
      map content_p (workspace_p (handle_event_p now (SDL_MOUSEBUTTONUP SDL_BUTTON_LEFT pt) s)) =
        insert_at (map content_p (workspace_p s))
          (insert_index_p (point_y pt) (workspace_p s) 0) (content_p (dragBlock_p s)) \<and>
      \<not> dragging_p (handle_event_p now (SDL_MOUSEBUTTONUP SDL_BUTTON_LEFT pt) s) \<and>
      ((\<forall>b \<in> set (workspace_p s). point_y pt < mid_y_p b) \<longrightarrow>
         content_p (workspace_p (handle_event_p now (SDL_MOUSEBUTTONUP SDL_BUTTON_LEFT pt) s) ! 0) =
           content_p (dragBlock_p s))) \<and>
   (\<not> SDL_PointInRect mp flagBtn_m \<and> find_badge_m mp (workspace_m sm) 0 = None \<longrightarrow>
      (\<forall>pb. find (\<lambda>b. SDL_PointInRect mp (rect_m b)) (palette_m sm) = Some pb \<longrightarrow>
         (\<exists>r. handle_event_m nowm (SDL_MOUSEBUTTONDOWN SDL_BUTTON_LEFT mp) sm = Some r \<and>
            butlast (workspace_m r) = workspace_m sm \<and>
            last (workspace_m r) =
              pb \<lparr> rect_m := (rect_m pb)
                     \<lparr> rect_x := point_x mp - 85, rect_y := point_y mp - 19 \<rparr> \<rparr> \<and>
            draggingIdx_m r = int (length (workspace_m sm))))) \<and>
   (0 \<le> draggingIdx_m sm \<and> draggingIdx_m sm < int (length (workspace_m sm)) \<longrightarrow>
      (\<exists>r. handle_event_m nowm (SDL_MOUSEBUTTONUP SDL_BUTTON_LEFT ptm) sm = Some r \<and>
         workspace_m r =
           (if point_x ptm < PALETTE_W_m then erase_at (workspace_m sm) (nat (draggingIdx_m sm))
            else workspace_m sm)))"
proof -
  let ?k = "insert_index_p (point_y pt) (workspace_p s) 0"
  let ?r = "handle_event_p now (SDL_MOUSEBUTTONUP SDL_BUTTON_LEFT pt) s"
  note sp = insert_index_p_spec [of "point_y pt" "workspace_p s"]
  have P: "dragging_p s \<and> SDL_PointInRect pt wsRect_p \<longrightarrow>
      ?k \<le> length (workspace_p s) \<and>
      (\<forall>j < ?k. \<not> point_y pt < mid_y_p (workspace_p s ! j)) \<and>
      (?k < length (workspace_p s) \<longrightarrow> point_y pt < mid_y_p (workspace_p s ! ?k)) \<and>
      workspace_p ?r = layout_from_p 60 (insert_at (workspace_p s) ?k (dragBlock_p s)) \<and>
      map content_p (workspace_p ?r) =
        insert_at (map content_p (workspace_p s)) ?k (content_p (dragBlock_p s)) \<and>
      \<not> dragging_p ?r \<and>
      ((\<forall>b \<in> set (workspace_p s). point_y pt < mid_y_p b) \<longrightarrow>
         content_p (workspace_p ?r ! 0) = content_p (dragBlock_p s))"
  proof
    assume h: "dragging_p s \<and> SDL_PointInRect pt wsRect_p"
    have w: "workspace_p ?r = layout_from_p 60 (insert_at (workspace_p s) ?k (dragBlock_p s))"
      using h by (simp add: mouse_up_p_def LayoutWorkspace_p_def)
    have c: "map content_p (workspace_p ?r) =
        insert_at (map content_p (workspace_p s)) ?k (content_p (dragBlock_p s))"
      unfolding w by (simp add: map_insert_at)
    have d: "\<not> dragging_p ?r"
      using h by (simp add: mouse_up_p_def LayoutWorkspace_p_def)
    have z: "(\<forall>b \<in> set (workspace_p s). point_y pt < mid_y_p b) \<longrightarrow>
         content_p (workspace_p ?r ! 0) = content_p (dragBlock_p s)"
    proof
      assume "\<forall>b \<in> set (workspace_p s). point_y pt < mid_y_p b"
      then have k0: "?k = 0" using sp by blast
      have "map content_p (workspace_p ?r) ! 0 = content_p (dragBlock_p s)"
        unfolding c k0 by (simp add: insert_at_def)
      moreover have "0 < length (workspace_p ?r)"
        unfolding w using sp by simp
      ultimately show "content_p (workspace_p ?r ! 0) = content_p (dragBlock_p s)"
        by (simp add: nth_map)
    qed
    from sp w c d z show "?k \<le> length (workspace_p s) \<and>
      (\<forall>j < ?k. \<not> point_y pt < mid_y_p (workspace_p s ! j)) \<and>
      (?k < length (workspace_p s) \<longrightarrow> point_y pt < mid_y_p (workspace_p s ! ?k)) \<and>
      workspace_p ?r = layout_from_p 60 (insert_at (workspace_p s) ?k (dragBlock_p s)) \<and>
      map content_p (workspace_p ?r) =
        insert_at (map content_p (workspace_p s)) ?k (content_p (dragBlock_p s)) \<and>
      \<not> dragging_p ?r \<and>
      ((\<forall>b \<in> set (workspace_p s). point_y pt < mid_y_p b) \<longrightarrow>
         content_p (workspace_p ?r ! 0) = content_p (dragBlock_p s))"
      by blast
  qed
  have M1: "\<not> SDL_PointInRect mp flagBtn_m \<and> find_badge_m mp (workspace_m sm) 0 = None \<longrightarrow>
      (\<forall>pb. find (\<lambda>b. SDL_PointInRect mp (rect_m b)) (palette_m sm) = Some pb \<longrightarrow>
         (\<exists>r. handle_event_m nowm (SDL_MOUSEBUTTONDOWN SDL_BUTTON_LEFT mp) sm = Some r \<and>
            butlast (workspace_m r) = workspace_m sm \<and>
            last (workspace_m r) =
              pb \<lparr> rect_m := (rect_m pb)
                     \<lparr> rect_x := point_x mp - 85, rect_y := point_y mp - 19 \<rparr> \<rparr> \<and>
            draggingIdx_m r = int (length (workspace_m sm))))"
    by (auto simp: mouse_down_m_def end_edit_m_def pick_palette_m_def pick_workspace_m_def
        Let_def cdiv_def consts_m)
  have M2: "0 \<le> draggingIdx_m sm \<and> draggingIdx_m sm < int (length (workspace_m sm)) \<longrightarrow>
      (\<exists>r. handle_event_m nowm (SDL_MOUSEBUTTONUP SDL_BUTTON_LEFT ptm) sm = Some r \<and>
         workspace_m r =
           (if point_x ptm < PALETTE_W_m then erase_at (workspace_m sm) (nat (draggingIdx_m sm))
            else workspace_m sm))"
    by (auto simp: mouse_up_m_def drop_erase_m_def consts_m)
  show ?thesis using P M1 M2 by (intro conjI)
qed

text \<open>
  The theorem at a \<^verbatim>\<open>part_000\<close> workspace of two blocks with midpoints 80 and 128: a
  drop at height 50 lands at index 0, at height 100 at index 1, at height 500 at the end;
  and at \<^verbatim>\<open>main.cpp\<close>, where the palette block joins the end of the workspace at
  pick-up.
\<close>

theorem C7_drop_position_witness:
  "map type_p (workspace_p
     (handle_event_p 0 (SDL_MOUSEBUTTONUP SDL_BUTTON_LEFT \<lparr> point_x = 400, point_y = 50 \<rparr>) drag_p))
     = [CHANGE_Y_p, CHANGE_X_p, SET_Y_p] \<and>
   map type_p (workspace_p
     (handle_event_p 0 (SDL_MOUSEBUTTONUP SDL_BUTTON_LEFT \<lparr> point_x = 400, point_y = 100 \<rparr>) drag_p))
     = [CHANGE_X_p, CHANGE_Y_p, SET_Y_p] \<and>
   map type_p (workspace_p
     (handle_event_p 0 (SDL_MOUSEBUTTONUP SDL_BUTTON_LEFT \<lparr> point_x = 400, point_y = 500 \<rparr>) drag_p))
     = [CHANGE_X_p, SET_Y_p, CHANGE_Y_p] \<and>
   map_option (\<lambda>s. map type_m (workspace_m s))
     (handle_event_m 0 (SDL_MOUSEBUTTONDOWN SDL_BUTTON_LEFT \<lparr> point_x = 100, point_y = 80 \<rparr>)
        (init_m \<lparr> workspace_m := [blk_m MOVE_Y_m 300 10] \<rparr>)) = Some [MOVE_Y_m, MOVE_X_m]"
  using C7_drop_position [of drag_p "\<lparr> point_x = 400, point_y = 50 \<rparr>" 0
      "\<lparr> point_x = 100, point_y = 80 \<rparr>" "init_m \<lparr> workspace_m := [blk_m MOVE_Y_m 300 10] \<rparr>" 0
      "\<lparr> point_x = 100, point_y = 80 \<rparr>"]
  by (simp add: drag_p_def ws2_p_def globals_p_def blk_p_def blk_m_def eval_p eval_m)

text \<open>
  The claim as stated fails in \<^verbatim>\<open>main.cpp\<close>. From the initial state, a move-Y block is
  dragged from the palette to height 300 of the workspace; then a move-X block is dragged
  from the palette and released at height 50, above the first: it is the element at index
  1, not at index 0.
\<close>

theorem C7_drop_position_counterexample:
  "map_option (\<lambda>s. map type_m (workspace_m s))
     (run_m [Event_m 0 (SDL_MOUSEBUTTONDOWN SDL_BUTTON_LEFT \<lparr> point_x = 100, point_y = 130 \<rparr>),
             Event_m 0 (SDL_MOUSEMOTION 400 300),
             Event_m 0 (SDL_MOUSEBUTTONUP SDL_BUTTON_LEFT \<lparr> point_x = 400, point_y = 300 \<rparr>),
             Event_m 0 (SDL_MOUSEBUTTONDOWN SDL_BUTTON_LEFT \<lparr> point_x = 100, point_y = 80 \<rparr>),
             Event_m 0 (SDL_MOUSEMOTION 400 50),
             Event_m 0 (SDL_MOUSEBUTTONUP SDL_BUTTON_LEFT \<lparr> point_x = 400, point_y = 50 \<rparr>)]
        init_m) = Some [MOVE_Y_m, MOVE_X_m]"
  by (simp add: eval_m)

section \<open>C6: dragging a block out of the workspace\<close>




subsection \<open>The engine run on its own\<close>

lemma effect_m_frame:
  "workspace_m (effect_m blk s) = workspace_m s \<and> scriptStep_m (effect_m blk s) = scriptStep_m s \<and>
   running_m (effect_m blk s) = running_m s \<and> lastStepTime_m (effect_m blk s) = lastStepTime_m s"
  by (simp add: effect_m_def split: BlockType_m.split)

lemma UpdateScript_m_cases:
  assumes "0 \<le> scriptStep_m s"
  obtains
    (idle) "\<not> running_m s" "UpdateScript_m now s = Some s" "\<not> gated_m now s"
  | (stop) "running_m s" "scriptStep_m s \<ge> int (length (workspace_m s))" "\<not> gated_m now s"
      "UpdateScript_m now s = Some (s \<lparr> running_m := False, highlightIdx_m := - 1 \<rparr>)"
  | (wait) "running_m s" "scriptStep_m s < int (length (workspace_m s))" "elapsed_ms_m now s < 400"
      "UpdateScript_m now s = Some s" "\<not> gated_m now s"
  | (step) s1 where "running_m s" "scriptStep_m s < int (length (workspace_m s))"
      "\<not> elapsed_ms_m now s < 400" "gated_m now s" "UpdateScript_m now s = Some s1"
      "running_m s1" "scriptStep_m s1 = scriptStep_m s + 1" "workspace_m s1 = workspace_m s"
      "lastStepTime_m s1 = now"
proof -
  consider "\<not> running_m s"
    | "running_m s" "scriptStep_m s \<ge> int (length (workspace_m s))"
    | "running_m s" "scriptStep_m s < int (length (workspace_m s))" "elapsed_ms_m now s < 400"
    | "running_m s" "scriptStep_m s < int (length (workspace_m s))" "\<not> elapsed_ms_m now s < 400"
    by linarith
  then show ?thesis
  proof cases
    case 1
    then show ?thesis by (intro idle) (simp_all add: UpdateScript_m_def gated_m_def)
  next
    case 2
    then show ?thesis by (intro stop) (simp_all add: UpdateScript_m_def gated_m_def)
  next
    case 3
    then show ?thesis by (intro wait) (simp_all add: UpdateScript_m_def gated_m_def)
  next
    case 4
    let ?s1 = "(effect_m (workspace_m s ! nat (scriptStep_m s))
                  (s \<lparr> lastStepTime_m := now, highlightIdx_m := scriptStep_m s \<rparr>))
               \<lparr> scriptStep_m := scriptStep_m s + 1 \<rparr>"
    from 4 assms show ?thesis
      by (intro step [of ?s1]) (simp_all add: UpdateScript_m_def gated_m_def effect_m_frame)
  qed
qed

lemma ticks_m_idle:
  "\<not> running_m s \<Longrightarrow> run_m (map Tick_m ts) s = Some s \<and> gated_ticks_m ts s = 0"
  by (induction ts) (simp_all add: UpdateScript_m_def gated_m_def)

lemma ticks_m_count:
  assumes "0 \<le> scriptStep_m s" "scriptStep_m s \<le> int (length (workspace_m s))" "running_m s"
  shows "\<exists>s'. run_m (map Tick_m ts) s = Some s' \<and>
           workspace_m s' = workspace_m s \<and>
           scriptStep_m s' = scriptStep_m s + int (gated_ticks_m ts s) \<and>
           scriptStep_m s' \<le> int (length (workspace_m s)) \<and>
           (\<not> running_m s' \<longrightarrow> scriptStep_m s' = int (length (workspace_m s)))"
  using assms
proof (induction ts arbitrary: s)
  case Nil
  then show ?case by simp
next
  case (Cons t ts)
  from Cons.prems(1) show ?case
  proof (cases rule: UpdateScript_m_cases [where now = t])
    case idle
    with Cons.prems show ?thesis by simp
  next
    case stop
    with Cons.prems ticks_m_idle [of "s \<lparr> running_m := False, highlightIdx_m := - 1 \<rparr>" ts]
    show ?thesis by simp
  next
    case wait
    with Cons.IH [of s] Cons.prems show ?thesis by simp
  next
    case (step s1)
    with Cons.IH [of s1] Cons.prems show ?thesis by auto
  qed
qed

lemma ticks_m_paced:
  assumes "0 \<le> scriptStep_m s" "scriptStep_m s \<le> int (length (workspace_m s))" "running_m s"
    "paced_m (lastStepTime_m s) ts" "int (length ts) > int (length (workspace_m s)) - scriptStep_m s"
  shows "\<exists>s'. run_m (map Tick_m ts) s = Some s' \<and> \<not> running_m s'"
  using assms
proof (induction ts arbitrary: s)
  case Nil
  then show ?case by simp
next
  case (Cons t ts)
  from Cons.prems(1) show ?case
  proof (cases rule: UpdateScript_m_cases [where now = t])
    case idle
    with Cons.prems show ?thesis by simp
  next
    case stop
    with ticks_m_idle [of "s \<lparr> running_m := False, highlightIdx_m := - 1 \<rparr>" ts]
    show ?thesis by simp
  next
    case wait
    with Cons.prems show ?thesis by (simp add: elapsed_ms_m_def)
  next
    case (step s1)
    with Cons.IH [of s1] Cons.prems show ?thesis by auto
  qed
qed


lemma UpdateScript_p_cases:
  assumes "0 \<le> scriptStep_p s"
  obtains
    (idle) "\<not> scriptRunning_p s" "UpdateScript_p now s = Some s" "\<not> gated_p now s"
  | (stop) "scriptRunning_p s" "scriptStep_p s \<ge> int (length (workspace_p s))" "\<not> gated_p now s"
      "UpdateScript_p now s = Some (s \<lparr> scriptRunning_p := False \<rparr>)"
  | (wait) "scriptRunning_p s" "scriptStep_p s < int (length (workspace_p s))" "gate_closed_p now s"
      "UpdateScript_p now s = Some s" "\<not> gated_p now s"
  | (step) s1 where "scriptRunning_p s" "scriptStep_p s < int (length (workspace_p s))"
      "\<not> gate_closed_p now s" "gated_p now s" "UpdateScript_p now s = Some s1"
      "scriptRunning_p s1 \<longleftrightarrow> scriptStep_p s + 1 < int (length (workspace_p s))"
      "scriptStep_p s1 = scriptStep_p s + 1" "workspace_p s1 = workspace_p s"
      "lastStepTime_p s1 = now"
proof -
  consider "\<not> scriptRunning_p s"
    | "scriptRunning_p s" "scriptStep_p s \<ge> int (length (workspace_p s))"
    | "scriptRunning_p s" "scriptStep_p s < int (length (workspace_p s))" "gate_closed_p now s"
    | "scriptRunning_p s" "scriptStep_p s < int (length (workspace_p s))" "\<not> gate_closed_p now s"
    by linarith
  then show ?thesis
  proof cases
    case 1
    then show ?thesis by (intro idle) (simp_all add: UpdateScript_p_def gated_p_def)
  next
    case 2
    then show ?thesis by (intro stop) (simp_all add: UpdateScript_p_def gated_p_def)
  next
    case 3
    then show ?thesis by (intro wait) (simp_all add: UpdateScript_p_def gated_p_def)
  next
    case 4
    let ?e = "clamp_sprite_p
                (effect_p (workspace_p s ! nat (scriptStep_p s)) (s \<lparr> lastStepTime_p := now \<rparr>))"
    let ?s2 = "?e \<lparr> scriptStep_p := scriptStep_p ?e + 1 \<rparr>"
    let ?s1 = "if scriptStep_p ?s2 \<ge> int (length (workspace_p ?s2))
               then ?s2 \<lparr> scriptRunning_p := False \<rparr> else ?s2"
    from 4 assms show ?thesis
      by (intro step [of ?s1])
         (simp_all add: UpdateScript_p_def gated_p_def effect_p_frame clamp_sprite_p_frame Let_def)
  qed
qed

lemma ticks_p_idle:
  "\<not> scriptRunning_p s \<Longrightarrow> run_p (map Tick_p ts) s = Some s \<and> gated_ticks_p ts s = 0"
  by (induction ts) (simp_all add: UpdateScript_p_def gated_p_def)

lemma ticks_p_count:
  assumes "0 \<le> scriptStep_p s" "scriptStep_p s \<le> int (length (workspace_p s))"
  shows "\<exists>s'. run_p (map Tick_p ts) s = Some s' \<and>
           workspace_p s' = workspace_p s \<and>
           (scriptRunning_p s \<longrightarrow>
              scriptStep_p s' = scriptStep_p s + int (gated_ticks_p ts s) \<and>
              scriptStep_p s' \<le> int (length (workspace_p s)) \<and>
              (\<not> scriptRunning_p s' \<longrightarrow> scriptStep_p s' = int (length (workspace_p s))))"
  using assms
proof (induction ts arbitrary: s)
  case Nil
  then show ?case by simp
next
  case (Cons t ts)
  from Cons.prems(1) show ?case
  proof (cases rule: UpdateScript_p_cases [where now = t])
    case idle
    with Cons.prems ticks_p_idle [of s ts] show ?thesis by simp
  next
    case stop
    with Cons.prems ticks_p_idle [of "s \<lparr> scriptRunning_p := False \<rparr>" ts]
    show ?thesis by simp
  next
    case wait
    with Cons.IH [of s] Cons.prems show ?thesis by simp
  next
    case (step s1)
    show ?thesis
    proof (cases "scriptRunning_p s1")
      case True
      with step Cons.IH [of s1] Cons.prems show ?thesis by auto
    next
      case False
      with step Cons.prems ticks_p_idle [of s1 ts] show ?thesis by auto
    qed
  qed
qed

lemma ticks_p_paced:
  assumes "0 \<le> scriptStep_p s" "scriptStep_p s \<le> int (length (workspace_p s))"
    "paced_p (lastStepTime_p s) ts" "int (length ts) > int (length (workspace_p s)) - scriptStep_p s"
  shows "\<exists>s'. run_p (map Tick_p ts) s = Some s' \<and> \<not> scriptRunning_p s'"
  using assms
proof (induction ts arbitrary: s)
  case Nil
  then show ?case by simp
next
  case (Cons t ts)
  from Cons.prems(1) show ?case
  proof (cases rule: UpdateScript_p_cases [where now = t])
    case idle
    with ticks_p_idle [of s ts] show ?thesis by simp
  next
    case stop
    with ticks_p_idle [of "s \<lparr> scriptRunning_p := False \<rparr>" ts]
    show ?thesis by simp
  next
    case wait
    with Cons.prems show ?thesis by (simp add: gate_closed_p_def)
  next
    case (step s1)
    with Cons.IH [of s1] Cons.prems show ?thesis by auto
  qed
qed

lemma elapsed_ms_m_gate: "elapsed_ms_m now s < 400 \<longleftrightarrow> now - lastStepTime_m s < 400000000"
proof -
  define d where "d = now - lastStepTime_m s"
  define k where "k = d div 1000000"
  define r where "r = d mod 1000000"
  have eq: "d = 1000000 * k + r" by (simp add: k_def r_def)
  have r: "0 \<le> r" "r < 1000000" by (simp_all add: r_def)
  have "cdiv d 1000000 < 400 \<longleftrightarrow> d < 400000000"
  proof (cases "0 < d")
    case True
    then have "cdiv d 1000000 = k" by (simp add: cdiv_def k_def)
    moreover have "k < 400 \<longleftrightarrow> d < 400000000" using eq r by linarith
    ultimately show ?thesis by simp
  next
    case False
    then have "cdiv d 1000000 \<le> 0"
      by (cases "d = 0") (simp_all add: cdiv_def pos_imp_zdiv_nonneg_iff)
    with False show ?thesis by simp
  qed
  then show ?thesis by (simp add: elapsed_ms_m_def d_def)
qed

lemma gate_closed_p_unat: "gate_closed_p now s \<longleftrightarrow> unat (now - lastStepTime_p s) < 400"
  by (simp add: gate_closed_p_def STEP_DELAY_p_def word_less_nat_alt)

lemma spec_gated_ticks_m_zero [simp]: "spec_gated_ticks_m 0 a ts = 0"
  by (induction ts arbitrary: a) simp_all

lemma spec_gated_ticks_p_zero [simp]: "spec_gated_ticks_p 0 a ts = 0"
  by (induction ts arbitrary: a) simp_all

lemma ticks_m_spec:
  assumes "0 \<le> scriptStep_m s" "running_m s" "int L = int (length (workspace_m s)) - scriptStep_m s"
  shows "gated_ticks_m ts s = spec_gated_ticks_m L (lastStepTime_m s) ts"
  using assms
proof (induction ts arbitrary: s L)
  case Nil
  then show ?case by simp
next
  case (Cons t ts)
  from Cons.prems(1) show ?case
  proof (cases rule: UpdateScript_m_cases [where now = t])
    case idle
    with Cons.prems show ?thesis by simp
  next
    case stop
    with Cons.prems(3) have "L = 0" by linarith
    with stop ticks_m_idle [of "s \<lparr> running_m := False, highlightIdx_m := - 1 \<rparr>" ts]
    show ?thesis by simp
  next
    case wait
    with Cons.IH [of s L] Cons.prems show ?thesis by (simp add: elapsed_ms_m_gate)
  next
    case (step s1)
    from step(2) Cons.prems(3) have p: "0 < L" by linarith
    have "int (L - 1) = int (length (workspace_m s1)) - scriptStep_m s1"
      using p step Cons.prems(3) by simp
    from Cons.IH [OF _ step(6) this] step Cons.prems(1)
    have "gated_ticks_m ts s1 = spec_gated_ticks_m (L - 1) t ts" by simp
    with step p show ?thesis by (simp add: elapsed_ms_m_gate)
  qed
qed

lemma ticks_m_stopped:
  assumes "0 \<le> scriptStep_m s" "running_m s" "int L = int (length (workspace_m s)) - scriptStep_m s"
  shows "\<exists>s'. run_m (map Tick_m ts) s = Some s' \<and>
           (\<not> running_m s' \<longleftrightarrow>
              (\<exists>n<length ts. spec_gated_ticks_m L (lastStepTime_m s) (take n ts) = L))"
  using assms
proof (induction ts arbitrary: s L)
  case Nil
  then show ?case by simp
next
  case (Cons t ts)
  from Cons.prems(1) show ?case
  proof (cases rule: UpdateScript_m_cases [where now = t])
    case idle
    with Cons.prems show ?thesis by simp
  next
    case stop
    with Cons.prems(3) have "L = 0" by linarith
    with stop ticks_m_idle [of "s \<lparr> running_m := False, highlightIdx_m := - 1 \<rparr>" ts]
    show ?thesis by (auto intro: exI [of _ 0])
  next
    case wait
    from wait(2) Cons.prems(3) have p: "0 < L" by linarith
    from wait Cons.IH [of s L] Cons.prems p show ?thesis
      by (simp add: elapsed_ms_m_gate Ex_less_Suc2)
  next
    case (step s1)
    from step(2) Cons.prems(3) have p: "0 < L" by linarith
    have e: "\<And>k. (Suc k = L) = (k = L - 1)" using p by linarith
    have "int (L - 1) = int (length (workspace_m s1)) - scriptStep_m s1"
      using p step Cons.prems(3) by simp
    from Cons.IH [OF _ step(6) this] step Cons.prems(1)
    obtain s' where "run_m (map Tick_m ts) s1 = Some s'"
      "\<not> running_m s' \<longleftrightarrow> (\<exists>n<length ts. spec_gated_ticks_m (L - 1) t (take n ts) = L - 1)"
      by auto
    with step p show ?thesis
      by (simp add: elapsed_ms_m_gate e Ex_less_Suc2)
  qed
qed

lemma ticks_p_spec:
  assumes "0 \<le> scriptStep_p s" "scriptRunning_p s"
    "int L = int (length (workspace_p s)) - scriptStep_p s"
  shows "gated_ticks_p ts s = spec_gated_ticks_p L (lastStepTime_p s) ts"
  using assms
proof (induction ts arbitrary: s L)
  case Nil
  then show ?case by simp
next
  case (Cons t ts)
  from Cons.prems(1) show ?case
  proof (cases rule: UpdateScript_p_cases [where now = t])
    case idle
    with Cons.prems show ?thesis by simp
  next
    case stop
    with Cons.prems(3) have "L = 0" by linarith
    with stop ticks_p_idle [of "s \<lparr> scriptRunning_p := False \<rparr>" ts]
    show ?thesis by simp
  next
    case wait
    with Cons.IH [of s L] Cons.prems show ?thesis by (simp add: gate_closed_p_unat)
  next
    case (step s1)
    from step(2) Cons.prems(3) have p: "0 < L" by linarith
    have l: "int (L - 1) = int (length (workspace_p s1)) - scriptStep_p s1"
      using p step Cons.prems(3) by simp
    have "gated_ticks_p ts s1 = spec_gated_ticks_p (L - 1) t ts"
    proof (cases "scriptRunning_p s1")
      case True
      from Cons.IH [OF _ True l] step Cons.prems(1) show ?thesis by simp
    next
      case False
      with step(6) have "\<not> scriptStep_p s + 1 < int (length (workspace_p s))" by simp
      with step(2) Cons.prems(3) have "L - 1 = 0" by linarith
      with False ticks_p_idle [of s1 ts] show ?thesis by simp
    qed
    with step p show ?thesis by (simp add: gate_closed_p_unat)
  qed
qed

lemma ticks_p_stopped:
  assumes "0 \<le> scriptStep_p s" "scriptRunning_p s"
    "int L = int (length (workspace_p s)) - scriptStep_p s"
  shows "\<exists>s'. run_p (map Tick_p ts) s = Some s' \<and>
           (\<not> scriptRunning_p s' \<longleftrightarrow>
              ts \<noteq> [] \<and> spec_gated_ticks_p L (lastStepTime_p s) ts = L)"
  using assms
proof (induction ts arbitrary: s L)
  case Nil
  then show ?case by simp
next
  case (Cons t ts)
  from Cons.prems(1) show ?case
  proof (cases rule: UpdateScript_p_cases [where now = t])
    case idle
    with Cons.prems show ?thesis by simp
  next
    case stop
    with Cons.prems(3) have "L = 0" by linarith
    with stop ticks_p_idle [of "s \<lparr> scriptRunning_p := False \<rparr>" ts]
    show ?thesis by simp
  next
    case wait
    from wait(2) Cons.prems(3) have p: "0 < L" by linarith
    from Cons.IH [of s L] Cons.prems
    obtain s' where "run_p (map Tick_p ts) s = Some s'"
      "\<not> scriptRunning_p s' \<longleftrightarrow> ts \<noteq> [] \<and> spec_gated_ticks_p L (lastStepTime_p s) ts = L"
      by auto
    with wait p show ?thesis
      by (cases ts) (simp_all add: gate_closed_p_unat)
  next
    case (step s1)
    from step(2) Cons.prems(3) have p: "0 < L" by linarith
    have e: "\<And>k. (Suc k = L) = (k = L - 1)" using p by linarith
    have l: "int (L - 1) = int (length (workspace_p s1)) - scriptStep_p s1"
      using p step Cons.prems(3) by simp
    show ?thesis
    proof (cases "scriptRunning_p s1")
      case True
      with step(6) have "scriptStep_p s + 1 < int (length (workspace_p s))" by simp
      with Cons.prems(3) have ne: "L - 1 \<noteq> 0" by linarith
      from Cons.IH [OF _ True l] step Cons.prems(1)
      obtain s' where "run_p (map Tick_p ts) s1 = Some s'"
        "\<not> scriptRunning_p s' \<longleftrightarrow> ts \<noteq> [] \<and> spec_gated_ticks_p (L - 1) t ts = L - 1"
        by auto
      with step p ne show ?thesis
        by (cases ts) (simp_all add: gate_closed_p_unat e)
    next
      case False
      with step(6) have "\<not> scriptStep_p s + 1 < int (length (workspace_p s))" by simp
      with step(2) Cons.prems(3) have z: "L - 1 = 0" by linarith
      with False step p ticks_p_idle [of s1 ts] show ?thesis
        by (simp add: gate_closed_p_unat e)
    qed
  qed
qed

section \<open>C3: the number of gated ticks of a run\<close>

text \<open>
  Claim C3. Take a workspace of length \<open>N\<close> on which \<^verbatim>\<open>StartScript\<close> succeeds (in
  \<^verbatim>\<open>main.cpp\<close>: a flag block exists, first at index \<open>i\<close>; in \<^verbatim>\<open>part_000\<close>: always)
  with starting index \<open>start\<close>, and let \<^verbatim>\<open>UpdateScript\<close> be called at any clock values,
  with no event in between. Every call returns and the workspace stays as it is. The
  gated ticks of the run are exactly those the specification counts from the clock values:
  a call is gated when a block is left and 400 ms have elapsed since the start or the last
  gated tick. They never number more than \<open>N - start\<close>, hence never more than \<open>N\<close>, and
  the step reached is \<open>start\<close> plus their number. The run has reached
  \<^verbatim>\<open>running = false\<close> exactly when \<open>N - start\<close> ticks were gated and, in \<^verbatim>\<open>main.cpp\<close>,
  one more call has followed them (in \<^verbatim>\<open>part_000\<close>: and at least one call was made); so
  never after fewer ticks. In particular it has reached \<^verbatim>\<open>running = false\<close> when the
  calls are 400 ms apart and number more than \<open>N - start\<close>. A single call on a running
  script with a block left changes nothing while fewer than 400 ms have elapsed since the
  anchor, and otherwise runs one block, advances the step by one and moves the anchor to
  the time of the call.
\<close>

theorem C3_engine_termination:
  assumes "first_flag_m (workspace_m sm) 0 = Some i"
  shows
    "(\<exists>s'. run_m (map Tick_m ts) (StartScript_m t0 sm) = Some s' \<and>
        scriptStep_m (StartScript_m t0 sm) = i + 1 \<and>
        workspace_m s' = workspace_m sm \<and>
        scriptStep_m s' = i + 1 + int (gated_ticks_m ts (StartScript_m t0 sm)) \<and>
        gated_ticks_m ts (StartScript_m t0 sm) =
          spec_gated_ticks_m (length (workspace_m sm) - nat (i + 1)) t0 ts \<and>
        int (gated_ticks_m ts (StartScript_m t0 sm)) \<le> int (length (workspace_m sm)) - (i + 1) \<and>
        gated_ticks_m ts (StartScript_m t0 sm) \<le> length (workspace_m sm) \<and>
        (\<not> running_m s' \<longrightarrow>
           int (gated_ticks_m ts (StartScript_m t0 sm)) = int (length (workspace_m sm)) - (i + 1)) \<and>
        (\<not> running_m s' \<longleftrightarrow>
           (\<exists>n<length ts.
              spec_gated_ticks_m (length (workspace_m sm) - nat (i + 1)) t0 (take n ts) =
              length (workspace_m sm) - nat (i + 1))) \<and>
        (paced_m t0 ts \<and> int (length ts) > int (length (workspace_m sm)) - (i + 1) \<longrightarrow>
           \<not> running_m s')) \<and>
     (\<exists>s'. run_p (map Tick_p tp) (StartScript_p p0 sp) = Some s' \<and>
        workspace_p s' = workspace_p sp \<and>
        scriptStep_p s' =
          scriptStep_p (StartScript_p p0 sp) + int (gated_ticks_p tp (StartScript_p p0 sp)) \<and>
        gated_ticks_p tp (StartScript_p p0 sp) =
          spec_gated_ticks_p
            (length (workspace_p sp) - nat (scriptStep_p (StartScript_p p0 sp))) p0 tp \<and>
        int (gated_ticks_p tp (StartScript_p p0 sp)) \<le>
          int (length (workspace_p sp)) - scriptStep_p (StartScript_p p0 sp) \<and>
        gated_ticks_p tp (StartScript_p p0 sp) \<le> length (workspace_p sp) \<and>
        (\<not> scriptRunning_p s' \<longrightarrow>
           int (gated_ticks_p tp (StartScript_p p0 sp)) =
             int (length (workspace_p sp)) - scriptStep_p (StartScript_p p0 sp)) \<and>
        (\<not> scriptRunning_p s' \<longleftrightarrow>
           tp \<noteq> [] \<and>
           spec_gated_ticks_p
             (length (workspace_p sp) - nat (scriptStep_p (StartScript_p p0 sp))) p0 tp =
           length (workspace_p sp) - nat (scriptStep_p (StartScript_p p0 sp))) \<and>
        (paced_p p0 tp \<and>
         int (length tp) > int (length (workspace_p sp)) - scriptStep_p (StartScript_p p0 sp) \<longrightarrow>
           \<not> scriptRunning_p s')) \<and>
     (running_m um \<and> 0 \<le> scriptStep_m um \<and> scriptStep_m um < int (length (workspace_m um)) \<longrightarrow>
        (nowm - lastStepTime_m um < 400000000 \<longrightarrow>
           UpdateScript_m nowm um = Some um \<and> \<not> gated_m nowm um) \<and>
        (400000000 \<le> nowm - lastStepTime_m um \<longrightarrow>
           gated_m nowm um \<and>
           (\<exists>s1. UpdateScript_m nowm um = Some s1 \<and> running_m s1 \<and>
              scriptStep_m s1 = scriptStep_m um + 1 \<and> lastStepTime_m s1 = nowm \<and>
              workspace_m s1 = workspace_m um))) \<and>
     (scriptRunning_p up \<and> 0 \<le> scriptStep_p up \<and> scriptStep_p up < int (length (workspace_p up)) \<longrightarrow>
        (unat (nowp - lastStepTime_p up) < 400 \<longrightarrow>
           UpdateScript_p nowp up = Some up \<and> \<not> gated_p nowp up) \<and>
        (400 \<le> unat (nowp - lastStepTime_p up) \<longrightarrow>
           gated_p nowp up \<and>
           (\<exists>s1. UpdateScript_p nowp up = Some s1 \<and>
              (scriptRunning_p s1 \<longleftrightarrow> scriptStep_p up + 1 < int (length (workspace_p up))) \<and>
              scriptStep_p s1 = scriptStep_p up + 1 \<and> lastStepTime_p s1 = nowp \<and>
              workspace_p s1 = workspace_p up)))"
proof (intro conjI)
  let ?s = "StartScript_m t0 sm"
  let ?L = "length (workspace_m sm) - nat (i + 1)"
  from assms have ir: "0 \<le> i \<and> i < int (length (workspace_m sm))"
    by (auto simp: first_flag_m_Some)
  have st: "running_m ?s" "scriptStep_m ?s = i + 1" "workspace_m ?s = workspace_m sm"
    "lastStepTime_m ?s = t0"
    using assms by (simp_all add: StartScript_m_def)
  have L: "int ?L = int (length (workspace_m ?s)) - scriptStep_m ?s"
    unfolding st using ir by linarith
  obtain s' where s': "run_m (map Tick_m ts) ?s = Some s'"
    "workspace_m s' = workspace_m ?s"
    "scriptStep_m s' = scriptStep_m ?s + int (gated_ticks_m ts ?s)"
    "scriptStep_m s' \<le> int (length (workspace_m ?s))"
    "\<not> running_m s' \<longrightarrow> scriptStep_m s' = int (length (workspace_m ?s))"
    using ticks_m_count [of ?s ts] ir st by auto
  have sp: "gated_ticks_m ts ?s = spec_gated_ticks_m ?L t0 ts"
    using ticks_m_spec [of ?s ?L ts] st L by simp
  have stop: "\<not> running_m s' \<longleftrightarrow> (\<exists>n<length ts. spec_gated_ticks_m ?L t0 (take n ts) = ?L)"
    using ticks_m_stopped [of ?s ?L ts] st L s'(1) by simp
  have live: "paced_m t0 ts \<and> int (length ts) > int (length (workspace_m sm)) - (i + 1) \<longrightarrow>
      \<not> running_m s'"
    using ticks_m_paced [of ?s ts] ir st s'(1) by auto
  have rest: "scriptStep_m ?s = i + 1 \<and> workspace_m s' = workspace_m sm \<and>
        scriptStep_m s' = i + 1 + int (gated_ticks_m ts ?s) \<and>
        int (gated_ticks_m ts ?s) \<le> int (length (workspace_m sm)) - (i + 1) \<and>
        gated_ticks_m ts ?s \<le> length (workspace_m sm) \<and>
        (\<not> running_m s' \<longrightarrow>
           int (gated_ticks_m ts ?s) = int (length (workspace_m sm)) - (i + 1))"
    using s' st ir by auto
  show "\<exists>s'. run_m (map Tick_m ts) ?s = Some s' \<and>
        scriptStep_m ?s = i + 1 \<and>
        workspace_m s' = workspace_m sm \<and>
        scriptStep_m s' = i + 1 + int (gated_ticks_m ts ?s) \<and>
        gated_ticks_m ts ?s = spec_gated_ticks_m ?L t0 ts \<and>
        int (gated_ticks_m ts ?s) \<le> int (length (workspace_m sm)) - (i + 1) \<and>
        gated_ticks_m ts ?s \<le> length (workspace_m sm) \<and>
        (\<not> running_m s' \<longrightarrow>
           int (gated_ticks_m ts ?s) = int (length (workspace_m sm)) - (i + 1)) \<and>
        (\<not> running_m s' \<longleftrightarrow> (\<exists>n<length ts. spec_gated_ticks_m ?L t0 (take n ts) = ?L)) \<and>
        (paced_m t0 ts \<and> int (length ts) > int (length (workspace_m sm)) - (i + 1) \<longrightarrow>
           \<not> running_m s')"
    using s'(1) rest sp stop live by (intro exI [of _ s']) blast
next
  let ?s = "StartScript_p p0 sp"
  let ?L = "length (workspace_p sp) - nat (scriptStep_p ?s)"
  have st: "scriptRunning_p ?s" "workspace_p ?s = workspace_p sp" "lastStepTime_p ?s = p0"
    "0 \<le> scriptStep_p ?s" "scriptStep_p ?s \<le> int (length (workspace_p sp))"
    by (cases "workspace_p sp"; simp add: StartScript_p_def)+
  have L: "int ?L = int (length (workspace_p ?s)) - scriptStep_p ?s"
    unfolding st(2) using st(4,5) by linarith
  obtain s' where s': "run_p (map Tick_p tp) ?s = Some s'"
    "workspace_p s' = workspace_p ?s"
    "scriptStep_p s' = scriptStep_p ?s + int (gated_ticks_p tp ?s)"
    "scriptStep_p s' \<le> int (length (workspace_p ?s))"
    "\<not> scriptRunning_p s' \<longrightarrow> scriptStep_p s' = int (length (workspace_p ?s))"
    using ticks_p_count [of ?s tp] st by auto
  have sp: "gated_ticks_p tp ?s = spec_gated_ticks_p ?L p0 tp"
    using ticks_p_spec [of ?s ?L tp] st L by simp
  have stop: "\<not> scriptRunning_p s' \<longleftrightarrow> tp \<noteq> [] \<and> spec_gated_ticks_p ?L p0 tp = ?L"
    using ticks_p_stopped [of ?s ?L tp] st L s'(1) by simp
  have live: "paced_p p0 tp \<and>
      int (length tp) > int (length (workspace_p sp)) - scriptStep_p ?s \<longrightarrow> \<not> scriptRunning_p s'"
    using ticks_p_paced [of ?s tp] st s'(1) by auto
  have rest: "workspace_p s' = workspace_p sp \<and>
        scriptStep_p s' = scriptStep_p ?s + int (gated_ticks_p tp ?s) \<and>
        int (gated_ticks_p tp ?s) \<le> int (length (workspace_p sp)) - scriptStep_p ?s \<and>
        gated_ticks_p tp ?s \<le> length (workspace_p sp) \<and>
        (\<not> scriptRunning_p s' \<longrightarrow>
           int (gated_ticks_p tp ?s) = int (length (workspace_p sp)) - scriptStep_p ?s)"
    using s' st by auto
  show "\<exists>s'. run_p (map Tick_p tp) ?s = Some s' \<and>
        workspace_p s' = workspace_p sp \<and>
        scriptStep_p s' = scriptStep_p ?s + int (gated_ticks_p tp ?s) \<and>
        gated_ticks_p tp ?s = spec_gated_ticks_p ?L p0 tp \<and>
        int (gated_ticks_p tp ?s) \<le> int (length (workspace_p sp)) - scriptStep_p ?s \<and>
        gated_ticks_p tp ?s \<le> length (workspace_p sp) \<and>
        (\<not> scriptRunning_p s' \<longrightarrow>
           int (gated_ticks_p tp ?s) = int (length (workspace_p sp)) - scriptStep_p ?s) \<and>
        (\<not> scriptRunning_p s' \<longleftrightarrow> tp \<noteq> [] \<and> spec_gated_ticks_p ?L p0 tp = ?L) \<and>
        (paced_p p0 tp \<and>
         int (length tp) > int (length (workspace_p sp)) - scriptStep_p ?s \<longrightarrow>
           \<not> scriptRunning_p s')"
    using s'(1) rest sp stop live by (intro exI [of _ s']) blast
next
  show "running_m um \<and> 0 \<le> scriptStep_m um \<and> scriptStep_m um < int (length (workspace_m um)) \<longrightarrow>
        (nowm - lastStepTime_m um < 400000000 \<longrightarrow>
           UpdateScript_m nowm um = Some um \<and> \<not> gated_m nowm um) \<and>
        (400000000 \<le> nowm - lastStepTime_m um \<longrightarrow>
           gated_m nowm um \<and>
           (\<exists>s1. UpdateScript_m nowm um = Some s1 \<and> running_m s1 \<and>
              scriptStep_m s1 = scriptStep_m um + 1 \<and> lastStepTime_m s1 = nowm \<and>
              workspace_m s1 = workspace_m um))"
    by (simp add: UpdateScript_m_def gated_m_def elapsed_ms_m_gate effect_m_frame)
next
  show "scriptRunning_p up \<and> 0 \<le> scriptStep_p up \<and> scriptStep_p up < int (length (workspace_p up)) \<longrightarrow>
        (unat (nowp - lastStepTime_p up) < 400 \<longrightarrow>
           UpdateScript_p nowp up = Some up \<and> \<not> gated_p nowp up) \<and>
        (400 \<le> unat (nowp - lastStepTime_p up) \<longrightarrow>
           gated_p nowp up \<and>
           (\<exists>s1. UpdateScript_p nowp up = Some s1 \<and>
              (scriptRunning_p s1 \<longleftrightarrow> scriptStep_p up + 1 < int (length (workspace_p up))) \<and>
              scriptStep_p s1 = scriptStep_p up + 1 \<and> lastStepTime_p s1 = nowp \<and>
              workspace_p s1 = workspace_p up))"
    by (simp add: UpdateScript_p_def gated_p_def gate_closed_p_unat effect_p_frame
        clamp_sprite_p_frame Let_def)
qed

text \<open>
  The theorem at Scenario A, with calls 400 ms apart and with calls at 100, 400, 500, 800
  and 900 ms. Either way two ticks are gated. In \<^verbatim>\<open>main.cpp\<close> the script is still
  running after the second gated tick and the next call stops it; in \<^verbatim>\<open>part_000\<close> the
  second gated tick stops it. A call 100 ms after the start changes nothing; a call 400 ms
  after the start runs the first block.
\<close>

theorem C3_engine_termination_witness:
  "first_flag_m (workspace_m script_m) 0 = Some 0 \<and>
   paced_m 0 [400000000, 800000000, 1200000000] \<and>
   gated_ticks_m [400000000, 800000000, 1200000000] (StartScript_m 0 script_m) = 2 \<and>
   map_option (\<lambda>s. (running_m s, scriptStep_m s, spriteX_m s, spriteY_m s))
     (run_m (map Tick_m [400000000, 800000000, 1200000000]) (StartScript_m 0 script_m)) =
     Some (False, 3, Finite 210, Finite 205) \<and>
   map_option (\<lambda>s. (running_m s, scriptStep_m s))
     (run_m (map Tick_m [400000000, 800000000]) (StartScript_m 0 script_m)) = Some (True, 3) \<and>
   spec_gated_ticks_m 2 0 [100000000, 400000000, 500000000, 800000000, 900000000] = 2 \<and>
   gated_ticks_m [100000000, 400000000, 500000000, 800000000, 900000000]
     (StartScript_m 0 script_m) = 2 \<and>
   map_option (\<lambda>s. (running_m s, scriptStep_m s, spriteX_m s, spriteY_m s))
     (run_m (map Tick_m [100000000, 400000000, 500000000, 800000000, 900000000])
        (StartScript_m 0 script_m)) = Some (False, 3, Finite 210, Finite 205) \<and>
   UpdateScript_m 100000000 (StartScript_m 0 script_m) = Some (StartScript_m 0 script_m) \<and>
   map_option (\<lambda>s. (running_m s, scriptStep_m s, lastStepTime_m s))
     (UpdateScript_m 400000000 (StartScript_m 0 script_m)) = Some (True, 2, 400000000) \<and>
   paced_p 0 [400, 800, 1200] \<and>
   gated_ticks_p [400, 800, 1200] (StartScript_p 0 script_p) = 2 \<and>
   map_option (\<lambda>s. (scriptRunning_p s, scriptStep_p s, spriteX_p s, spriteY_p s))
     (run_p (map Tick_p [400, 800, 1200]) (StartScript_p 0 script_p)) =
     Some (False, 3, 210, 195) \<and>
   spec_gated_ticks_p 2 0 [100, 400, 500, 800] = 2 \<and>
   map_option (\<lambda>s. (scriptRunning_p s, scriptStep_p s, spriteX_p s, spriteY_p s))
     (run_p (map Tick_p [100, 400, 500, 800]) (StartScript_p 0 script_p)) =
     Some (False, 3, 210, 195) \<and>
   UpdateScript_p 100 (StartScript_p 0 script_p) = Some (StartScript_p 0 script_p) \<and>
   map_option (\<lambda>s. (scriptRunning_p s, scriptStep_p s, lastStepTime_p s))
     (UpdateScript_p 400 (StartScript_p 0 script_p)) = Some (True, 2, 400)"
  using C3_engine_termination [where sm = script_m and i = 0 and ?t0.0 = 0
      and ts = "[400000000, 800000000, 1200000000]" and tp = "[400, 800, 1200]" and ?p0.0 = 0
      and sp = script_p and um = "StartScript_m 0 script_m" and nowm = 100000000
      and up = "StartScript_p 0 script_p" and nowp = 100]
    C3_engine_termination [where sm = script_m and i = 0 and ?t0.0 = 0
      and ts = "[100000000, 400000000, 500000000, 800000000, 900000000]"
      and tp = "[100, 400, 500, 800]" and ?p0.0 = 0
      and sp = script_p and um = "StartScript_m 0 script_m" and nowm = 400000000
      and up = "StartScript_p 0 script_p" and nowp = 400]
  by (simp add: script_m_def script_p_def globals_m_def globals_p_def blk_m_def blk_p_def
      StartScript_m_def StartScript_p_def gated_m_def gated_p_def UpdateScript_m_def
      UpdateScript_p_def elapsed_ms_m_def gate_closed_p_def effect_m_def effect_p_def
      clamp_sprite_p_def cdiv_def consts_p Let_def to_float_numeral)

subsection \<open>What events and ticks do to the run state\<close>

lemma first_flag_m_range:
  "first_flag_m bs i = Some k \<Longrightarrow> i \<le> k \<and> k < i + int (length bs)"
  by (induction bs arbitrary: i) (auto split: if_splits, fastforce+)

lemma StartScript_m_run_state:
  "(running_m (StartScript_m now s) = running_m s \<and>
    scriptStep_m (StartScript_m now s) = scriptStep_m s) \<or>
   (0 \<le> scriptStep_m (StartScript_m now s) \<and>
    scriptStep_m (StartScript_m now s) \<le> int (length (workspace_m s)))"
proof (cases "first_flag_m (workspace_m s) 0")
  case None
  then show ?thesis by (simp add: StartScript_m_def)
next
  case (Some i)
  with first_flag_m_range [OF Some] show ?thesis by (simp add: StartScript_m_def)
qed

lemma StartScript_m_workspace [simp]: "workspace_m (StartScript_m now s) = workspace_m s"
  by (simp add: StartScript_m_def split: option.split)

lemma pick_m_run_state:
  "running_m (pick_workspace_m mp (pick_palette_m mp s)) = running_m s \<and>
   scriptStep_m (pick_workspace_m mp (pick_palette_m mp s)) = scriptStep_m s"
  by (simp add: pick_workspace_m_def pick_palette_m_def Let_def split: option.split)

lemma mouse_down_m_run_state:
  "(running_m (mouse_down_m now mp s) = running_m s \<and>
    scriptStep_m (mouse_down_m now mp s) = scriptStep_m s) \<or>
   (0 \<le> scriptStep_m (mouse_down_m now mp s) \<and>
    scriptStep_m (mouse_down_m now mp s) \<le> int (length (workspace_m (mouse_down_m now mp s))))"
proof -
  let ?s1 = "if editingIdx_m s \<ge> 0 then end_edit_m s else s"
  have s1: "running_m ?s1 = running_m s" "scriptStep_m ?s1 = scriptStep_m s"
    "workspace_m ?s1 = workspace_m s"
    by (simp_all add: end_edit_m_def)
  show ?thesis
  proof (cases "SDL_PointInRect mp flagBtn_m")
    case True
    then have "mouse_down_m now mp s = StartScript_m now ?s1"
      by (simp add: mouse_down_m_def Let_def)
    with StartScript_m_run_state [of now ?s1] s1 show ?thesis by simp
  next
    case False
    show ?thesis
    proof (cases "find_badge_m mp (workspace_m s) 0")
      case None
      with False s1 have "mouse_down_m now mp s = pick_workspace_m mp (pick_palette_m mp ?s1)"
        by (simp add: mouse_down_m_def Let_def)
      with pick_m_run_state [of mp ?s1] s1 show ?thesis by simp
    next
      case (Some i)
      with False s1 show ?thesis by (simp add: mouse_down_m_def Let_def)
    qed
  qed
qed

lemma handle_event_m_run_state:
  assumes "handle_event_m now ev s = Some s'"
  shows "(running_m s' = running_m s \<and> scriptStep_m s' = scriptStep_m s) \<or>
         (0 \<le> scriptStep_m s' \<and> scriptStep_m s' \<le> int (length (workspace_m s')))"
proof (cases ev)
  case (SDL_MOUSEBUTTONDOWN b mp)
  with assms mouse_down_m_run_state [of now mp s] show ?thesis by (auto split: if_splits)
next
  case (SDL_KEYDOWN k)
  with assms StartScript_m_run_state [of now s] show ?thesis
    by (auto simp: key_down_m_def store_m_def end_edit_m_def split: if_splits sum.splits)
next
  case (SDL_TEXTINPUT tx)
  with assms show ?thesis by (auto simp: text_input_m_def Let_def split: if_splits)
next
  case (SDL_MOUSEMOTION mx my)
  with assms show ?thesis by (auto simp: mouse_motion_m_def split: if_splits)
next
  case (SDL_MOUSEBUTTONUP b pt)
  with assms show ?thesis by (auto simp: mouse_up_m_def drop_erase_m_def split: if_splits)
next
  case (SDL_MOUSEWHEEL wy mp)
  with assms show ?thesis by (auto simp: mouse_wheel_m_def split: if_splits)
qed (use assms in auto)


lemma UpdateScript_m_step_nonneg:
  assumes "0 \<le> scriptStep_m s" "UpdateScript_m now s = Some s'"
  shows "0 \<le> scriptStep_m s'"
  using assms(1)
proof (cases rule: UpdateScript_m_cases [where now = now])
  case (step s1)
  with assms show ?thesis by simp
qed (use assms in auto)

lemma UpdateScript_p_step_nonneg:
  assumes "0 \<le> scriptStep_p s" "UpdateScript_p now s = Some s'"
  shows "0 \<le> scriptStep_p s'"
  using assms(1)
proof (cases rule: UpdateScript_p_cases [where now = now])
  case (step s1)
  with assms show ?thesis by simp
qed (use assms in auto)

lemma reach_m_step_nonneg: "reach_m s \<Longrightarrow> 0 \<le> scriptStep_m s"
proof (induction rule: reach_m.induct)
  case reach_init_m
  then show ?case by (simp add: init_m_def BuildPalette_m_def globals_m_def)
next
  case (reach_act_m s a s1)
  show ?case
  proof (cases a)
    case (Event_m now ev)
    with reach_act_m handle_event_m_run_state [of now ev s s1] show ?thesis by auto
  next
    case (Tick_m now)
    with reach_act_m UpdateScript_m_step_nonneg [of s now s1] show ?thesis by simp
  qed
qed

lemma StartScript_p_run_state:
  "0 \<le> scriptStep_p (StartScript_p now s) \<and>
   scriptStep_p (StartScript_p now s) \<le> int (length (workspace_p (StartScript_p now s)))"
  by (cases "workspace_p s") (simp_all add: StartScript_p_def)

lemma pick_p_run_state:
  "scriptRunning_p (pick_workspace_p mp (pick_palette_p mp s)) = scriptRunning_p s \<and>
   scriptStep_p (pick_workspace_p mp (pick_palette_p mp s)) = scriptStep_p s"
  by (simp add: pick_workspace_p_def pick_palette_p_def LayoutWorkspace_p_def split: option.split)

lemma commitEdit_p_run_state:
  "scriptRunning_p (commitEdit_p s) = scriptRunning_p s \<and>
   scriptStep_p (commitEdit_p s) = scriptStep_p s"
  by (simp add: commitEdit_p_def)

lemma mouse_down_p_run_state:
  "(scriptRunning_p (mouse_down_p now mp s) = scriptRunning_p s \<and>
    scriptStep_p (mouse_down_p now mp s) = scriptStep_p s) \<or>
   \<not> scriptRunning_p (mouse_down_p now mp s) \<or>
   (0 \<le> scriptStep_p (mouse_down_p now mp s) \<and>
    scriptStep_p (mouse_down_p now mp s) \<le> int (length (workspace_p (mouse_down_p now mp s))))"
proof -
  consider (go) "SDL_PointInRect mp goBtn_p"
    | (stop) "\<not> SDL_PointInRect mp goBtn_p" "SDL_PointInRect mp stopBtn_p"
    | (badge) i where "\<not> SDL_PointInRect mp goBtn_p" "\<not> SDL_PointInRect mp stopBtn_p"
        "find_badge_p mp (workspace_p s) 0 = Some i"
    | (pick) "\<not> SDL_PointInRect mp goBtn_p" "\<not> SDL_PointInRect mp stopBtn_p"
        "find_badge_p mp (workspace_p s) 0 = None"
    by (cases "find_badge_p mp (workspace_p s) 0") auto
  then show ?thesis
  proof cases
    case go
    with StartScript_p_run_state [of now s] show ?thesis by (simp add: mouse_down_p_def)
  next
    case stop
    then show ?thesis by (simp add: mouse_down_p_def)
  next
    case badge
    then show ?thesis by (simp add: mouse_down_p_def)
  next
    case pick
    let ?c = "if editingValue_p s then commitEdit_p s else s"
    from pick have "mouse_down_p now mp s = pick_workspace_p mp (pick_palette_p mp ?c)"
      by (simp add: mouse_down_p_def)
    with pick_p_run_state [of mp ?c] commitEdit_p_run_state [of s] show ?thesis by simp
  qed
qed

lemma handle_event_p_run_state:
  "(scriptRunning_p (handle_event_p now ev s) = scriptRunning_p s \<and>
    scriptStep_p (handle_event_p now ev s) = scriptStep_p s) \<or>
   \<not> scriptRunning_p (handle_event_p now ev s) \<or>
   (0 \<le> scriptStep_p (handle_event_p now ev s) \<and>
    scriptStep_p (handle_event_p now ev s) \<le> int (length (workspace_p (handle_event_p now ev s))))"
proof (cases ev)
  case (SDL_MOUSEBUTTONDOWN b mp)
  with mouse_down_p_run_state [of now mp s] show ?thesis by auto
next
  case (SDL_KEYDOWN k)
  then show ?thesis by (simp add: key_down_p_def commitEdit_p_def)
next
  case (SDL_TEXTINPUT tx)
  then show ?thesis by (simp add: text_input_p_def)
next
  case (SDL_MOUSEMOTION mx my)
  then show ?thesis by (simp add: mouse_motion_p_def)
next
  case (SDL_MOUSEBUTTONUP b pt)
  then show ?thesis by (simp add: mouse_up_p_def LayoutWorkspace_p_def)
qed simp_all

lemma handle_event_p_step_nonneg:
  "0 \<le> scriptStep_p s \<Longrightarrow> 0 \<le> scriptStep_p (handle_event_p now ev s)"
proof (cases ev)
  case (SDL_MOUSEBUTTONDOWN b mp)
  assume "0 \<le> scriptStep_p s"
  then show ?thesis
    using pick_p_run_state [of mp "if editingValue_p s then commitEdit_p s else s"]
      commitEdit_p_run_state [of s] StartScript_p_run_state [of now s]
    by (auto simp: SDL_MOUSEBUTTONDOWN mouse_down_p_def split: option.split)
next
  case (SDL_KEYDOWN k)
  assume "0 \<le> scriptStep_p s"
  then show ?thesis by (simp add: SDL_KEYDOWN key_down_p_def commitEdit_p_def)
next
  case (SDL_TEXTINPUT tx)
  assume "0 \<le> scriptStep_p s"
  then show ?thesis by (simp add: SDL_TEXTINPUT text_input_p_def)
next
  case (SDL_MOUSEMOTION mx my)
  assume "0 \<le> scriptStep_p s"
  then show ?thesis by (simp add: SDL_MOUSEMOTION mouse_motion_p_def)
next
  case (SDL_MOUSEBUTTONUP b pt)
  assume "0 \<le> scriptStep_p s"
  then show ?thesis by (simp add: SDL_MOUSEBUTTONUP mouse_up_p_def LayoutWorkspace_p_def)
qed simp_all

lemma reach_p_step_nonneg: "reach_p s \<Longrightarrow> 0 \<le> scriptStep_p s"
proof (induction rule: reach_p.induct)
  case reach_init_p
  then show ?case by (simp add: init_p_def BuildPalette_p_def globals_p_def)
next
  case (reach_act_p s a s1)
  show ?case
  proof (cases a)
    case (Event_p now ev)
    with reach_act_p handle_event_p_step_nonneg [of s now ev] show ?thesis by auto
  next
    case (Tick_p now)
    with reach_act_p UpdateScript_p_step_nonneg [of s now s1] show ?thesis by simp
  qed
qed

lemma run_m_reach: "reach_m s \<Longrightarrow> run_m as s = Some s' \<Longrightarrow> reach_m s'"
proof (induction as arbitrary: s)
  case Nil
  then show ?case by simp
next
  case (Cons a as)
  then obtain s1 where s1: "act_m a s = Some s1" "run_m as s1 = Some s'"
    by (auto split: option.splits)
  from Cons.prems(1) s1(1) have "reach_m s1" by (rule reach_act_m)
  with Cons.IH s1(2) show ?case by blast
qed

lemma run_p_reach: "reach_p s \<Longrightarrow> run_p as s = Some s' \<Longrightarrow> reach_p s'"
proof (induction as arbitrary: s)
  case Nil
  then show ?case by simp
next
  case (Cons a as)
  then obtain s1 where s1: "act_p a s = Some s1" "run_p as s1 = Some s'"
    by (auto split: option.splits)
  from Cons.prems(1) s1(1) have "reach_p s1" by (rule reach_act_p)
  with Cons.IH s1(2) show ?case by blast
qed

lemma tick_m_in_range:
  assumes "0 \<le> scriptStep_m s"
  shows "\<exists>s'. UpdateScript_m now s = Some s' \<and> step_in_range_m s' \<and>
           (int (length (workspace_m s)) \<le> scriptStep_m s \<longrightarrow> \<not> running_m s')"
  using assms
proof (cases rule: UpdateScript_m_cases [where now = now])
  case (step s1)
  with assms show ?thesis by (simp add: step_in_range_m_def)
qed (use assms in \<open>auto simp: step_in_range_m_def\<close>)

lemma tick_p_in_range:
  assumes "0 \<le> scriptStep_p s"
  shows "\<exists>s'. UpdateScript_p now s = Some s' \<and> step_in_range_p s' \<and>
           (scriptRunning_p s' \<longrightarrow> scriptStep_p s' < int (length (workspace_p s'))) \<and>
           (int (length (workspace_p s)) \<le> scriptStep_p s \<longrightarrow> \<not> scriptRunning_p s')"
  using assms
proof (cases rule: UpdateScript_p_cases [where now = now])
  case (step s1)
  with assms show ?thesis by (simp add: step_in_range_p_def)
qed (use assms in \<open>auto simp: step_in_range_p_def\<close>)

lemma act_m_in_range:
  assumes "act_m a s = Some s'" "step_in_range_m s" "0 \<le> scriptStep_m s"
    "length (workspace_m s) \<le> length (workspace_m s')"
  shows "step_in_range_m s'"
proof (cases a)
  case (Event_m now ev)
  with assms handle_event_m_run_state [of now ev s s'] show ?thesis
    by (auto simp: step_in_range_m_def)
next
  case (Tick_m now)
  with assms tick_m_in_range [of s now] show ?thesis by auto
qed

lemma act_p_in_range:
  assumes "act_p a s = Some s'" "step_in_range_p s" "0 \<le> scriptStep_p s"
    "length (workspace_p s) \<le> length (workspace_p s')"
  shows "step_in_range_p s'"
proof (cases a)
  case (Event_p now ev)
  with assms handle_event_p_run_state [of now ev s] show ?thesis
    by (auto simp: step_in_range_p_def)
next
  case (Tick_p now)
  with assms tick_p_in_range [of s now] show ?thesis by auto
qed

lemma c4_runs:
  "map_option (\<lambda>s. (scriptRunning_p s, scriptStep_p s, length (workspace_p s)))
     (run_p c4_events_p init_p) = Some (True, 1, 0) \<and>
   map_option (\<lambda>s. (running_m s, scriptStep_m s, length (workspace_m s)))
     (run_m c4_events_m init_m) = Some (True, 2, 1)"
  by (simp add: c4_events_p_def c4_events_m_def eval_p eval_m)

section \<open>C4: the range of the current step\<close>

text \<open>
  Claim C4, as amended. The invariant \<^verbatim>\<open>running\<close> implies
  \<open>0 \<le> currentStep \<le> len(workspace)\<close> holds initially, holds right after every call of
  \<^verbatim>\<open>UpdateScript\<close> in every reachable state (in \<^verbatim>\<open>part_000\<close> even with
  \<open>currentStep < len(workspace)\<close>), and is preserved by every event that does not make
  the workspace shorter. In every reachable state \<open>0 \<le> currentStep\<close>, every call of
  \<^verbatim>\<open>UpdateScript\<close> returns, and a call with \<open>currentStep \<ge> len(workspace)\<close> sets
  \<^verbatim>\<open>running = false\<close>. No code adjusts the step when a block is removed: a removal
  while the script runs can leave \<open>currentStep > len(workspace)\<close> until that next call.
\<close>

theorem C4_step_invariant:
  "step_in_range_m init_m \<and> step_in_range_p init_p \<and>
   (reach_m s \<longrightarrow>
      0 \<le> scriptStep_m s \<and>
      (\<forall>now. \<exists>s'. UpdateScript_m now s = Some s' \<and> step_in_range_m s' \<and>
         (int (length (workspace_m s)) \<le> scriptStep_m s \<longrightarrow> \<not> running_m s')) \<and>
      (\<forall>a s'. act_m a s = Some s' \<and> step_in_range_m s \<and>
         length (workspace_m s) \<le> length (workspace_m s') \<longrightarrow> step_in_range_m s')) \<and>
   (reach_p sp \<longrightarrow>
      0 \<le> scriptStep_p sp \<and>
      (\<forall>now. \<exists>s'. UpdateScript_p now sp = Some s' \<and> step_in_range_p s' \<and>
         (scriptRunning_p s' \<longrightarrow> scriptStep_p s' < int (length (workspace_p s'))) \<and>
         (int (length (workspace_p sp)) \<le> scriptStep_p sp \<longrightarrow> \<not> scriptRunning_p s')) \<and>
      (\<forall>a s'. act_p a sp = Some s' \<and> step_in_range_p sp \<and>
         length (workspace_p sp) \<le> length (workspace_p s') \<longrightarrow> step_in_range_p s'))"
proof -
  have i: "step_in_range_m init_m \<and> step_in_range_p init_p"
    by (simp add: step_in_range_m_def step_in_range_p_def fields_init_m fields_init_p)
  have m: "reach_m s \<longrightarrow>
      0 \<le> scriptStep_m s \<and>
      (\<forall>now. \<exists>s'. UpdateScript_m now s = Some s' \<and> step_in_range_m s' \<and>
         (int (length (workspace_m s)) \<le> scriptStep_m s \<longrightarrow> \<not> running_m s')) \<and>
      (\<forall>a s'. act_m a s = Some s' \<and> step_in_range_m s \<and>
         length (workspace_m s) \<le> length (workspace_m s') \<longrightarrow> step_in_range_m s')"
    using reach_m_step_nonneg [of s] tick_m_in_range [of s] act_m_in_range [of _ s] by blast
  have p: "reach_p sp \<longrightarrow>
      0 \<le> scriptStep_p sp \<and>
      (\<forall>now. \<exists>s'. UpdateScript_p now sp = Some s' \<and> step_in_range_p s' \<and>
         (scriptRunning_p s' \<longrightarrow> scriptStep_p s' < int (length (workspace_p s'))) \<and>
         (int (length (workspace_p sp)) \<le> scriptStep_p sp \<longrightarrow> \<not> scriptRunning_p s')) \<and>
      (\<forall>a s'. act_p a sp = Some s' \<and> step_in_range_p sp \<and>
         length (workspace_p sp) \<le> length (workspace_p s') \<longrightarrow> step_in_range_p s')"
    using reach_p_step_nonneg [of sp] tick_p_in_range [of sp] act_p_in_range [of _ sp] by blast
  from i m p show ?thesis by blast
qed

text \<open>
  The claim as stated fails in both programs: each of the two runs ends in a state with
  \<^verbatim>\<open>running\<close> true and the step beyond the length of the workspace (step 1 of 0 blocks,
  step 2 of 1 block).
\<close>

theorem C4_step_invariant_counterexample:
  "map_option (\<lambda>s. (scriptRunning_p s, scriptStep_p s, length (workspace_p s)))
     (run_p c4_events_p init_p) = Some (True, 1, 0) \<and>
   map_option (\<lambda>s. (running_m s, scriptStep_m s, length (workspace_m s)))
     (run_m c4_events_m init_m) = Some (True, 2, 1)"
  by (rule c4_runs)

text \<open>
  The theorem at the end states of these two runs: both are reachable, both break the
  invariant, and the next call of \<^verbatim>\<open>UpdateScript\<close> restores it.
\<close>

theorem C4_step_invariant_witness:
  "reach_p (the (run_p c4_events_p init_p)) \<and>
   \<not> step_in_range_p (the (run_p c4_events_p init_p)) \<and>
   map_option step_in_range_p (UpdateScript_p 5 (the (run_p c4_events_p init_p))) = Some True \<and>
   reach_m (the (run_m c4_events_m init_m)) \<and>
   \<not> step_in_range_m (the (run_m c4_events_m init_m)) \<and>
   map_option step_in_range_m (UpdateScript_m 5 (the (run_m c4_events_m init_m))) = Some True"
proof -
  obtain sp where sp: "run_p c4_events_p init_p = Some sp"
    "scriptRunning_p sp" "scriptStep_p sp = 1" "length (workspace_p sp) = 0"
    using c4_runs by auto
  obtain sm where sm: "run_m c4_events_m init_m = Some sm"
    "running_m sm" "scriptStep_m sm = 2" "length (workspace_m sm) = 1"
    using c4_runs by auto
  have rp: "reach_p sp" using run_p_reach [OF reach_init_p sp(1)] .
  have rm: "reach_m sm" using run_m_reach [OF reach_init_m sm(1)] .
  from C4_step_invariant [of sm sp] rp rm sp sm show ?thesis
    by (auto simp: step_in_range_p_def step_in_range_m_def)
qed

subsection \<open>Decimal strings\<close>

lemma isdigit_not_sign: "isdigit c \<Longrightarrow> c \<noteq> CHR ''-'' \<and> c \<noteq> CHR ''+'' \<and> c \<noteq> CHR 0x00 \<and> \<not> isspace c"
  by (auto simp: isdigit_def isspace_def)

lemma minus_not_space: "\<not> isspace CHR ''-''" "\<not> isdigit CHR ''-''"
  by (simp_all add: isspace_def isdigit_def)

lemma digits_value_acc:
  "digits_value acc ds = acc * 10 ^ length ds + digits_value 0 ds"
proof (induction ds arbitrary: acc)
  case Nil
  then show ?case by simp
next
  case (Cons c cs)
  have "digits_value acc (c # cs) = digits_value (acc * 10 + (of_char c - 48)) cs" by simp
  also have "\<dots> = (acc * 10 + (of_char c - 48)) * 10 ^ length cs + digits_value 0 cs"
    by (rule Cons.IH)
  also have "digits_value 0 (c # cs) = (of_char c - 48) * 10 ^ length cs + digits_value 0 cs"
    using Cons.IH [of "of_char c - 48"] by simp
  then have "(acc * 10 + (of_char c - 48)) * 10 ^ length cs + digits_value 0 cs =
      acc * 10 ^ length (c # cs) + digits_value 0 (c # cs)"
    by (simp add: algebra_simps)
  finally show ?case .
qed

lemma digits_value_snoc:
  "digits_value acc (ds @ [c]) = digits_value acc ds * 10 + (of_char c - 48)"
  by (induction ds arbitrary: acc) simp_all

lemma digits_value_bound:
  "list_all isdigit ds \<Longrightarrow> digits_value 0 ds < 10 ^ length ds"
proof (induction ds rule: rev_induct)
  case Nil
  then show ?case by simp
next
  case (snoc c ds)
  then have d: "(of_char c :: nat) - 48 \<le> 9" and b: "digits_value 0 ds < 10 ^ length ds"
    by (auto simp: isdigit_def)
  have "digits_value 0 (ds @ [c]) = digits_value 0 ds * 10 + (of_char c - 48)"
    by (rule digits_value_snoc)
  also have "\<dots> < 10 ^ length ds * 10" using d b by linarith
  finally show ?case by simp
qed

lemma digits_value_butlast:
  "digits_value 0 (butlast ds) \<le> digits_value 0 ds"
proof (cases ds rule: rev_cases)
  case Nil
  then show ?thesis by simp
next
  case (snoc ys y)
  then show ?thesis by (simp add: digits_value_snoc)
qed

lemma list_all_butlast: "list_all P xs \<Longrightarrow> list_all P (butlast xs)"
  by (induction xs) auto

lemma wf_buffer_butlast: "wf_buffer buf \<Longrightarrow> wf_buffer (butlast buf)"
  by (cases buf) (auto simp: list_all_butlast)

lemma wf_buffer_cases:
  assumes "wf_buffer buf"
  obtains (neg) ds where "buf = CHR ''-'' # ds" "list_all isdigit ds"
          "buffer_value buf = - int (digits_value 0 ds)"
        | (pos) "list_all isdigit buf" "buffer_value buf = int (digits_value 0 buf)"
proof (cases buf)
  case Nil
  then show ?thesis by (intro pos) (simp_all add: buffer_value_def)
next
  case (Cons c cs)
  show ?thesis
  proof (cases "c = CHR ''-''")
    case True
    with Cons assms show ?thesis by (intro neg [of cs]) (simp_all add: buffer_value_def)
  next
    case False
    with Cons assms have "isdigit c" "list_all isdigit cs" by auto
    with Cons isdigit_not_sign [of c] show ?thesis
      by (intro pos) (simp_all add: buffer_value_def)
  qed
qed

lemma buffer_value_short:
  assumes "wf_buffer buf" "length buf \<le> 5"
  shows "- 9999 \<le> buffer_value buf \<and> buffer_value buf \<le> 99999"
  using assms(1)
proof (cases rule: wf_buffer_cases)
  case (neg ds)
  with assms have "length ds \<le> 4" by simp
  then have "(10::nat) ^ length ds \<le> 10 ^ 4" by (intro power_increasing) simp_all
  with digits_value_bound [OF neg(2)] have "digits_value 0 ds < 10000" by simp
  with neg show ?thesis by simp
next
  case pos
  from assms have "(10::nat) ^ length buf \<le> 10 ^ 5" by (intro power_increasing) simp_all
  with digits_value_bound [OF pos(1)] have "digits_value 0 buf < 100000" by simp
  with pos show ?thesis by simp
qed

lemma buffer_value_butlast:
  assumes "wf_buffer buf"
  shows "(0 \<le> buffer_value buf \<longrightarrow>
            0 \<le> buffer_value (butlast buf) \<and> buffer_value (butlast buf) \<le> buffer_value buf) \<and>
         (buffer_value buf \<le> 0 \<longrightarrow>
            buffer_value buf \<le> buffer_value (butlast buf) \<and> buffer_value (butlast buf) \<le> 0)"
  using assms
proof (cases rule: wf_buffer_cases)
  case (neg ds)
  show ?thesis
  proof (cases "ds = []")
    case True
    with neg show ?thesis by (simp add: buffer_value_def)
  next
    case False
    with neg have "butlast buf = CHR ''-'' # butlast ds" by simp
    then have "buffer_value (butlast buf) = - int (digits_value 0 (butlast ds))"
      by (simp add: buffer_value_def)
    with neg digits_value_butlast [of ds] show ?thesis by simp
  qed
next
  case pos
  from pos(1) have "list_all isdigit (butlast buf)" by (rule list_all_butlast)
  then have "buffer_value (butlast buf) = int (digits_value 0 (butlast buf))"
    using isdigit_not_sign by (cases "butlast buf") (auto simp: buffer_value_def)
  with pos digits_value_butlast [of buf] show ?thesis by simp
qed

lemma digit_char:
  assumes "d < 10"
  shows "isdigit (char_of (48 + d))" "(of_char (char_of (48 + d)) :: nat) - 48 = d"
proof -
  from assms have "(of_char (char_of (48 + d :: nat)) :: nat) = 48 + d"
    by (simp add: of_char_of)
  then show "isdigit (char_of (48 + d))" "(of_char (char_of (48 + d)) :: nat) - 48 = d"
    using assms by (simp_all add: isdigit_def)
qed

lemma nat_digits_props:
  "list_all isdigit (nat_digits n) \<and> nat_digits n \<noteq> [] \<and> digits_value 0 (nat_digits n) = n"
proof (induction n rule: nat_digits.induct)
  case (1 n)
  show ?case
  proof (cases "n < 10")
    case True
    with digit_char [of n] show ?thesis by (simp add: nat_digits.simps [of n])
  next
    case False
    with 1 have ih: "list_all isdigit (nat_digits (n div 10))" "nat_digits (n div 10) \<noteq> []"
      "digits_value 0 (nat_digits (n div 10)) = n div 10" by auto
    have m: "n mod 10 < 10" by simp
    from False have e: "nat_digits n = nat_digits (n div 10) @ [char_of (48 + n mod 10)]"
      by (simp add: nat_digits.simps [of n])
    show ?thesis
      unfolding e using ih digit_char [OF m] by (simp add: digits_value_snoc)
  qed
qed

lemma nat_digits_length: "n < 10 ^ k \<Longrightarrow> 0 < k \<Longrightarrow> length (nat_digits n) \<le> k"
proof (induction n arbitrary: k rule: nat_digits.induct)
  case (1 n)
  show ?case
  proof (cases "n < 10")
    case True
    with 1(3) show ?thesis by (simp add: nat_digits.simps [of n])
  next
    case False
    from 1(3) obtain j where k: "k = Suc j" by (cases k) auto
    from False 1(2) k have j: "0 < j" by (cases j) auto
    from 1(2) k have "n div 10 < 10 ^ j" by (simp add: less_mult_imp_div_less mult.commute)
    from 1(1) [OF False this j] have "length (nat_digits (n div 10)) \<le> j" .
    with False k show ?thesis by (simp add: nat_digits.simps [of n])
  qed
qed

lemma to_string_props:
  "wf_buffer (to_string i) \<and> buffer_value (to_string i) = i \<and>
   to_string i \<noteq> [] \<and> to_string i \<noteq> ''-''"
proof (cases "i < 0")
  case True
  with nat_digits_props [of "nat (- i)"] show ?thesis
    by (simp add: to_string_def buffer_value_def)
next
  case False
  obtain c cs where cs: "nat_digits (nat i) = c # cs"
    using nat_digits_props [of "nat i"] by (cases "nat_digits (nat i)") auto
  with nat_digits_props [of "nat i"] have d: "isdigit c" "list_all isdigit cs"
    "digits_value 0 (c # cs) = nat i" by auto
  with False cs isdigit_not_sign [of c] show ?thesis
    by (simp add: to_string_def buffer_value_def)
qed

lemma to_string_length:
  assumes "int32_range i"
  shows "length (to_string i) \<le> 11"
proof -
  from assms have "nat \<bar>i\<bar> < 10000000000" unfolding int32_range_def by linarith
  then have "nat \<bar>i\<bar> < 10 ^ 10" by simp
  then have "length (nat_digits (nat \<bar>i\<bar>)) \<le> 10" by (rule nat_digits_length) simp
  then show ?thesis by (auto simp: to_string_def abs_if)
qed

lemma sint32_range: "int32_range (sint (w :: 32 word))"
  using sint_ge [of w] sint_lt [of w] by (simp add: int32_range_def)

lemma takeWhile_all: "list_all P xs \<Longrightarrow> takeWhile P xs = xs"
  by (induction xs) auto

lemma stoi_wf:
  assumes "wf_buffer buf" "buf \<noteq> []" "buf \<noteq> ''-''" "int32_range (buffer_value buf)"
  shows "stoi buf = Inr (buffer_value buf)"
  using assms(1)
proof (cases rule: wf_buffer_cases)
  case (neg ds)
  with assms have ne: "ds \<noteq> []" by auto
  from neg have nz: "list_all (\<lambda>c. c \<noteq> CHR 0x00) ds"
    using isdigit_not_sign by (auto simp: list_all_iff)
  have v: "- 2147483648 \<le> - int (digits_value 0 ds)"
    using assms(4) neg by (simp add: int32_range_def)
  have "stoi (CHR ''-'' # ds) = Inr (- int (digits_value 0 ds))"
    using ne v
    by (simp add: stoi_def Let_def takeWhile_all [OF nz] takeWhile_all [OF neg(2)]
        minus_not_space)
  with neg show ?thesis by simp
next
  case pos
  from assms obtain c cs where cs: "buf = c # cs" by (cases buf) auto
  with pos have dc: "isdigit c" "list_all isdigit cs" by auto
  from dc have nz: "list_all (\<lambda>c. c \<noteq> CHR 0x00) cs"
    using isdigit_not_sign by (auto simp: list_all_iff)
  have v: "int (digits_value 0 (c # cs)) \<le> 2147483647"
    using assms(4) pos cs by (simp add: int32_range_def)
  have "stoi (c # cs) = Inr (int (digits_value 0 (c # cs)))"
    using dc v isdigit_not_sign [of c]
    by (simp add: stoi_def Let_def takeWhile_all [OF nz] takeWhile_all [OF dc(2)])
  with pos cs show ?thesis by simp
qed


lemma stoi_examples:
  "stoi ''-15'' = Inr (- 15)" "stoi ''42'' = Inr 42"
  by (simp_all add: stoi_def isspace_def isdigit_def Let_def)

lemma stoi_Inr_range: "stoi buf = Inr v \<Longrightarrow> int32_range v"
  by (auto simp: stoi_def Let_def int32_range_def split: prod.splits if_splits)

lemma stoi_Inr_nonempty: "stoi buf = Inr v \<Longrightarrow> buf \<noteq> [] \<and> buf \<noteq> ''-''"
  by (auto simp: stoi_def Let_def isspace_def isdigit_def)

lemma sint_word_of_int32: "int32_range v \<Longrightarrow> sint (word_of_int v :: 32 word) = v"
  by (simp add: int32_range_def signed_of_int signed_take_bit_int_eq_self)

lemma stoi_wf_out:
  assumes "wf_buffer buf" "\<not> int32_range (buffer_value buf)"
  shows "stoi buf = Inl out_of_range"
  using assms(1)
proof (cases rule: wf_buffer_cases)
  case (neg ds)
  with assms(2) have ne: "ds \<noteq> []" by (auto simp: int32_range_def)
  from neg have nz: "list_all (\<lambda>c. c \<noteq> CHR 0x00) ds"
    using isdigit_not_sign by (auto simp: list_all_iff)
  have v: "\<not> - 2147483648 \<le> - int (digits_value 0 ds)"
    using assms(2) neg by (simp add: int32_range_def)
  have "stoi (CHR ''-'' # ds) = Inl out_of_range"
    using ne v
    by (simp add: stoi_def Let_def takeWhile_all [OF nz] takeWhile_all [OF neg(2)]
        minus_not_space)
  with neg show ?thesis by simp
next
  case pos
  from assms(2) pos obtain c cs where cs: "buf = c # cs"
    by (cases buf) (auto simp: int32_range_def)
  with pos have dc: "isdigit c" "list_all isdigit cs" by auto
  from dc have nz: "list_all (\<lambda>c. c \<noteq> CHR 0x00) cs"
    using isdigit_not_sign by (auto simp: list_all_iff)
  have v: "\<not> int (digits_value 0 (c # cs)) \<le> 2147483647"
    using assms(2) pos cs by (simp add: int32_range_def)
  have "stoi (c # cs) = Inl out_of_range"
    using dc v isdigit_not_sign [of c]
    by (simp add: stoi_def Let_def takeWhile_all [OF nz] takeWhile_all [OF dc(2)])
  with cs show ?thesis by simp
qed

lemma commit_value_p_wf:
  assumes "wf_buffer buf"
  shows "int32_range (buffer_value buf) \<longrightarrow> sint (commit_value_p buf) = buffer_value buf"
    and "\<not> int32_range (buffer_value buf) \<longrightarrow> commit_value_p buf = 0"
proof -
  show "int32_range (buffer_value buf) \<longrightarrow> sint (commit_value_p buf) = buffer_value buf"
  proof
    assume r: "int32_range (buffer_value buf)"
    show "sint (commit_value_p buf) = buffer_value buf"
    proof (cases "buf = [] \<or> buf = ''-''")
      case True
      then show ?thesis by (auto simp: commit_value_p_def buffer_value_def)
    next
      case False
      with stoi_wf [OF assms _ _ r] have "stoi buf = Inr (buffer_value buf)" by simp
      with False r show ?thesis by (simp add: commit_value_p_def sint_word_of_int32)
    qed
  qed
  show "\<not> int32_range (buffer_value buf) \<longrightarrow> commit_value_p buf = 0"
    using stoi_wf_out [OF assms] by (simp add: commit_value_p_def)
qed

lemma nth_update_int:
  assumes "j < length xs" "0 \<le> i"
  shows "xs [nat i := f (xs ! nat i)] ! j = (if int j = i then f (xs ! j) else xs ! j)"
proof (cases "int j = i")
  case True
  then have "nat i = j" by simp
  with assms True show ?thesis by simp
next
  case False
  with assms have "nat i \<noteq> j" by auto
  with False show ?thesis by simp
qed

lemma commitEdit_p_nth:
  assumes "j < length (workspace_p s)"
  shows "workspace_p (commitEdit_p s) ! j =
       (if int j = editingIdx_p s
        then (workspace_p s ! j) \<lparr> steps_p := commit_value_p (inputBuffer_p s) \<rparr>
        else workspace_p s ! j)"
proof (cases "0 \<le> editingIdx_p s \<and> editingIdx_p s < int (length (workspace_p s))")
  case True
  with nth_update_int [OF assms, of "editingIdx_p s"
      "\<lambda>b. b \<lparr> steps_p := commit_value_p (inputBuffer_p s) \<rparr>"]
  show ?thesis by (simp add: commitEdit_p_def)
next
  case False
  with assms have "int j \<noteq> editingIdx_p s" by auto
  with False show ?thesis by (auto simp: commitEdit_p_def)
qed

lemma commitEdit_p_session:
  "editingValue_p s \<Longrightarrow>
     (commitEdit_p s) \<lparr> workspace_p := workspace_p s, editingValue_p := True \<rparr> = s \<and>
     length (workspace_p (commitEdit_p s)) = length (workspace_p s) \<and>
     \<not> editingValue_p (commitEdit_p s)"
  by (simp add: commitEdit_p_def)

lemma store_m_Inr:
  assumes "stoi (editBuffer_m s) = Inr v" "0 \<le> editingIdx_m s"
  shows "editingIdx_m s < int (length (workspace_m s)) \<longrightarrow>
           (\<exists>r. store_m s = Some r \<and>
              r \<lparr> workspace_m := workspace_m s \<rparr> = s \<and>
              length (workspace_m r) = length (workspace_m s) \<and>
              (\<forall>j<length (workspace_m s).
                 workspace_m r ! j =
                   (if int j = editingIdx_m s
                    then (workspace_m s ! j) \<lparr> steps_m := word_of_int v \<rparr>
                    else workspace_m s ! j)) \<and>
              sint (steps_m (workspace_m r ! nat (editingIdx_m s))) = v)"
    and "int (length (workspace_m s)) \<le> editingIdx_m s \<longrightarrow> store_m s = None"
proof -
  note ne = stoi_Inr_nonempty [OF assms(1)]
  note sv = sint_word_of_int32 [OF stoi_Inr_range [OF assms(1)]]
  show "int (length (workspace_m s)) \<le> editingIdx_m s \<longrightarrow> store_m s = None"
    using assms ne by (simp add: store_m_def)
  show "editingIdx_m s < int (length (workspace_m s)) \<longrightarrow>
           (\<exists>r. store_m s = Some r \<and>
              r \<lparr> workspace_m := workspace_m s \<rparr> = s \<and>
              length (workspace_m r) = length (workspace_m s) \<and>
              (\<forall>j<length (workspace_m s).
                 workspace_m r ! j =
                   (if int j = editingIdx_m s
                    then (workspace_m s ! j) \<lparr> steps_m := word_of_int v \<rparr>
                    else workspace_m s ! j)) \<and>
              sint (steps_m (workspace_m r ! nat (editingIdx_m s))) = v)"
  proof
    assume lt: "editingIdx_m s < int (length (workspace_m s))"
    let ?r = "s \<lparr> workspace_m :=
                 (workspace_m s) [nat (editingIdx_m s) :=
                    (workspace_m s ! nat (editingIdx_m s)) \<lparr> steps_m := word_of_int v \<rparr>] \<rparr>"
    have r: "store_m s = Some ?r"
      using assms ne lt by (simp add: store_m_def)
    have n: "\<forall>j<length (workspace_m s).
                 workspace_m ?r ! j =
                   (if int j = editingIdx_m s
                    then (workspace_m s ! j) \<lparr> steps_m := word_of_int v \<rparr>
                    else workspace_m s ! j)"
      using nth_update_int [OF _ assms(2), of _ "workspace_m s"
          "\<lambda>b. b \<lparr> steps_m := word_of_int v \<rparr>"] by simp
    have k: "nat (editingIdx_m s) < length (workspace_m s)"
      using lt assms(2) by linarith
    have v: "sint (steps_m (workspace_m ?r ! nat (editingIdx_m s))) = v"
      using k sv by simp
    have f: "?r \<lparr> workspace_m := workspace_m s \<rparr> = s \<and>
             length (workspace_m ?r) = length (workspace_m s)" by simp
    from r n v f show "\<exists>r. store_m s = Some r \<and>
              r \<lparr> workspace_m := workspace_m s \<rparr> = s \<and>
              length (workspace_m r) = length (workspace_m s) \<and>
              (\<forall>j<length (workspace_m s).
                 workspace_m r ! j =
                   (if int j = editingIdx_m s
                    then (workspace_m s ! j) \<lparr> steps_m := word_of_int v \<rparr>
                    else workspace_m s ! j)) \<and>
              sint (steps_m (workspace_m r ! nat (editingIdx_m s))) = v"
      by (intro exI [of _ ?r]) blast
  qed
qed

lemma wf_buffer_snoc: "wf_buffer buf \<Longrightarrow> buf \<noteq> [] \<Longrightarrow> isdigit c \<Longrightarrow> wf_buffer (buf @ [c])"
  by (cases buf) auto

lemma buffer_ok_short: "wf_buffer buf \<Longrightarrow> length buf \<le> 5 \<Longrightarrow> buffer_ok buf"
  using buffer_value_short [of buf] by (simp add: buffer_ok_def int32_range_def)

lemma buffer_ok_Nil: "buffer_ok []"
  by (simp add: buffer_ok_short)

lemma buffer_ok_to_string: "buffer_ok (to_string (sint (w :: 32 word)))"
  using to_string_props [of "sint w"] to_string_length [OF sint32_range [of w]] sint32_range [of w]
  by (simp add: buffer_ok_def)

lemma buffer_ok_butlast: "buffer_ok buf \<Longrightarrow> buffer_ok (butlast buf)"
  using buffer_value_butlast [of buf] wf_buffer_butlast [of buf]
  by (auto simp: buffer_ok_def int32_range_def)

lemma buffer_ok_text_input:
  assumes "buffer_ok (editBuffer_m s)"
  shows "buffer_ok (editBuffer_m (text_input_m tx s)) \<and>
         length (editBuffer_m (text_input_m tx s)) \<le> max 5 (length (editBuffer_m s))"
proof -
  define ch where "ch = (case tx of [] \<Rightarrow> CHR 0x00 | c # _ \<Rightarrow> c)"
  show ?thesis
  proof (cases "(isdigit ch \<or> (ch = CHR ''-'' \<and> editBuffer_m s = [])) \<and> length (editBuffer_m s) < 5")
    case True
    have w: "wf_buffer (editBuffer_m s @ [ch])"
    proof (cases "editBuffer_m s = []")
      case True
      with \<open>(isdigit ch \<or> (ch = CHR ''-'' \<and> editBuffer_m s = [])) \<and> length (editBuffer_m s) < 5\<close>
      show ?thesis by auto
    next
      case False
      with True assms show ?thesis by (intro wf_buffer_snoc) (auto simp: buffer_ok_def)
    qed
    from True have e: "editBuffer_m (text_input_m tx s) = editBuffer_m s @ [ch]"
      by (auto simp: text_input_m_def ch_def Let_def)
    from True w show ?thesis unfolding e by (simp add: buffer_ok_short)
  next
    case False
    then have "editBuffer_m (text_input_m tx s) = editBuffer_m s"
      by (auto simp: text_input_m_def ch_def Let_def)
    with assms show ?thesis by simp
  qed
qed

lemma effect_m_buffer: "editBuffer_m (effect_m blk s) = editBuffer_m s"
  by (simp add: effect_m_def split: BlockType_m.split)

lemma UpdateScript_m_buffer:
  "UpdateScript_m now s = Some s' \<Longrightarrow> editBuffer_m s' = editBuffer_m s"
  by (auto simp: UpdateScript_m_def effect_m_buffer split: if_splits)

lemma StartScript_m_buffer: "editBuffer_m (StartScript_m now s) = editBuffer_m s"
  by (simp add: StartScript_m_def split: option.split)

lemma pick_m_buffer: "editBuffer_m (pick_workspace_m mp (pick_palette_m mp s)) = editBuffer_m s"
  by (simp add: pick_workspace_m_def pick_palette_m_def Let_def split: option.split)

lemma mouse_down_m_buffer: "buffer_ok (editBuffer_m s) \<Longrightarrow> buffer_ok (editBuffer_m (mouse_down_m now mp s))"
  by (simp add: mouse_down_m_def Let_def StartScript_m_buffer pick_m_buffer end_edit_m_def
      buffer_ok_Nil buffer_ok_to_string split: option.split)

lemma handle_event_m_buffer:
  assumes "handle_event_m now ev s = Some s'" "buffer_ok (editBuffer_m s)"
  shows "buffer_ok (editBuffer_m s')"
proof (cases ev)
  case (SDL_MOUSEBUTTONDOWN b mp)
  with assms mouse_down_m_buffer [of s now mp] show ?thesis by (auto split: if_splits)
next
  case (SDL_KEYDOWN k)
  with assms show ?thesis
    by (auto simp: key_down_m_def store_m_def end_edit_m_def StartScript_m_buffer buffer_ok_Nil
        buffer_ok_butlast split: if_splits sum.splits)
next
  case (SDL_TEXTINPUT tx)
  with assms buffer_ok_text_input [of s tx] show ?thesis by (auto split: if_splits)
next
  case (SDL_MOUSEMOTION mx my)
  with assms show ?thesis by (auto simp: mouse_motion_m_def split: if_splits)
next
  case (SDL_MOUSEBUTTONUP b pt)
  with assms show ?thesis by (auto simp: mouse_up_m_def drop_erase_m_def split: if_splits)
next
  case (SDL_MOUSEWHEEL wy mp)
  with assms show ?thesis by (auto simp: mouse_wheel_m_def split: if_splits)
qed (use assms in auto)

lemma reach_m_buffer_ok: "reach_m s \<Longrightarrow> buffer_ok (editBuffer_m s)"
proof (induction rule: reach_m.induct)
  case reach_init_m
  then show ?case by (simp add: fields_init_m buffer_ok_Nil)
next
  case (reach_act_m s a s1)
  show ?case
  proof (cases a)
    case (Event_m now ev)
    with reach_act_m handle_event_m_buffer [of now ev s s1] show ?thesis by simp
  next
    case (Tick_m now)
    with reach_act_m UpdateScript_m_buffer [of now s s1] show ?thesis by simp
  qed
qed

lemma c10_run:
  "map_option (\<lambda>s. (editBuffer_m s, map steps_m (workspace_m s))) (run_m c10_events init_m) =
     Some (''100004'', [100004])"
  by (simp add: c10_events_def eval_m)

lemma c1_run:
  "map_option (\<lambda>s. (editingIdx_m s, editBuffer_m s, workspace_m s)) (run_m c1_events init_m) =
     Some (0, ''10'', [])"
  by (simp add: c1_events_def eval_m)

section \<open>C1: committing the edit buffer\<close>

text \<open>
  Claim C1, as amended. In \<^verbatim>\<open>part_000\<close>, Enter (either key) during an edit session
  ends the session and stores the value of the buffer into the edited block when its index
  is inside the workspace; every other block, every other field of the edited block and
  every other global stay as they are. The value is 0 for the empty buffer and for a lone
  minus, -15 for \<open>-15\<close>, 42 for \<open>42\<close>, the result of \<^verbatim>\<open>std::stoi\<close> whenever it returns
  one, and 0 whenever it throws; for a buffer made of an optional minus and digits this is
  the integer the buffer denotes when that fits a 32-bit \<^verbatim>\<open>int\<close>, and 0 when it does not.
  In \<^verbatim>\<open>main.cpp\<close>, Enter during a session with the empty buffer, a lone minus or a
  buffer on which \<^verbatim>\<open>std::stoi\<close> throws only ends the session: the workspace is
  unchanged. With a buffer that \<^verbatim>\<open>std::stoi\<close> parses, and the edited index inside the
  workspace, it stores the result in the edited block, changes nothing else in the
  workspace and ends the session (-15 for \<open>-15\<close>, 42 for \<open>42\<close>). With such a buffer and
  the edited index outside the workspace the store is an access out of the bounds of the
  vector, which is undefined behaviour; a state with an open session on index 0 of an empty
  workspace is reachable. In every other case the handler returns a state: no exception
  escapes.
\<close>

theorem C1_commit:
  "commit_value_p [] = 0 \<and> commit_value_p ''-'' = 0 \<and>
   commit_value_p ''-15'' = - 15 \<and> commit_value_p ''42'' = 42 \<and>
   (\<forall>e. stoi buf = Inl e \<longrightarrow> commit_value_p buf = 0) \<and>
   (\<forall>v. stoi buf = Inr v \<longrightarrow> commit_value_p buf = word_of_int v \<and> sint (commit_value_p buf) = v) \<and>
   (wf_buffer buf \<and> int32_range (buffer_value buf) \<longrightarrow>
      sint (commit_value_p buf) = buffer_value buf) \<and>
   (wf_buffer buf \<and> \<not> int32_range (buffer_value buf) \<longrightarrow> commit_value_p buf = 0) \<and>
   (editingValue_p s \<and> (k = SDLK_RETURN \<or> k = SDLK_KP_ENTER) \<longrightarrow>
      \<not> editingValue_p (handle_event_p now (SDL_KEYDOWN k) s) \<and>
      (handle_event_p now (SDL_KEYDOWN k) s)
        \<lparr> workspace_p := workspace_p s, editingValue_p := True \<rparr> = s \<and>
      length (workspace_p (handle_event_p now (SDL_KEYDOWN k) s)) = length (workspace_p s) \<and>
      (\<forall>j<length (workspace_p s).
         workspace_p (handle_event_p now (SDL_KEYDOWN k) s) ! j =
           (if int j = editingIdx_p s
            then (workspace_p s ! j) \<lparr> steps_p := commit_value_p (inputBuffer_p s) \<rparr>
            else workspace_p s ! j))) \<and>
   (0 \<le> editingIdx_m sm \<and> (km = SDLK_RETURN \<or> km = SDLK_KP_ENTER) \<longrightarrow>
      (editBuffer_m sm = [] \<or> editBuffer_m sm = ''-'' \<or> (\<exists>e. stoi (editBuffer_m sm) = Inl e) \<longrightarrow>
         handle_event_m nowm (SDL_KEYDOWN km) sm =
           Some (sm \<lparr> editingIdx_m := - 1, editBuffer_m := [] \<rparr>)) \<and>
      (\<forall>v. stoi (editBuffer_m sm) = Inr v \<longrightarrow>
         (editingIdx_m sm < int (length (workspace_m sm)) \<longrightarrow>
            (\<exists>r. handle_event_m nowm (SDL_KEYDOWN km) sm = Some r \<and>
               editingIdx_m r = - 1 \<and> editBuffer_m r = [] \<and>
               r \<lparr> workspace_m := workspace_m sm, editingIdx_m := editingIdx_m sm,
                    editBuffer_m := editBuffer_m sm \<rparr> = sm \<and>
               length (workspace_m r) = length (workspace_m sm) \<and>
               (\<forall>j<length (workspace_m sm).
                  workspace_m r ! j =
                    (if int j = editingIdx_m sm
                     then (workspace_m sm ! j) \<lparr> steps_m := word_of_int v \<rparr>
                     else workspace_m sm ! j)) \<and>
               sint (steps_m (workspace_m r ! nat (editingIdx_m sm))) = v)) \<and>
         (int (length (workspace_m sm)) \<le> editingIdx_m sm \<longrightarrow>
            handle_event_m nowm (SDL_KEYDOWN km) sm = None))) \<and>
   (\<exists>r. reach_m r \<and> editingIdx_m r = 0 \<and> workspace_m r = [] \<and>
      handle_event_m nowm (SDL_KEYDOWN SDLK_RETURN) r = None) \<and>
   stoi ''-15'' = Inr (- 15) \<and> stoi ''42'' = Inr 42"
proof -
  have a: "commit_value_p [] = 0" "commit_value_p ''-'' = 0"
    "commit_value_p ''-15'' = - 15" "commit_value_p ''42'' = 42"
    by (simp_all add: commit_value_p_def stoi_examples)
  have b: "\<forall>e. stoi buf = Inl e \<longrightarrow> commit_value_p buf = 0"
    by (auto simp: commit_value_p_def)
  have b2: "\<forall>v. stoi buf = Inr v \<longrightarrow>
      commit_value_p buf = word_of_int v \<and> sint (commit_value_p buf) = v"
  proof (intro allI impI)
    fix v assume v: "stoi buf = Inr v"
    from stoi_Inr_nonempty [OF v] v have "commit_value_p buf = word_of_int v"
      by (simp add: commit_value_p_def)
    with sint_word_of_int32 [OF stoi_Inr_range [OF v]]
    show "commit_value_p buf = word_of_int v \<and> sint (commit_value_p buf) = v" by simp
  qed
  have b3: "wf_buffer buf \<and> int32_range (buffer_value buf) \<longrightarrow>
      sint (commit_value_p buf) = buffer_value buf"
    using commit_value_p_wf(1) [of buf] by blast
  have b4: "wf_buffer buf \<and> \<not> int32_range (buffer_value buf) \<longrightarrow> commit_value_p buf = 0"
    using commit_value_p_wf(2) [of buf] by blast
  have c: "editingValue_p s \<and> (k = SDLK_RETURN \<or> k = SDLK_KP_ENTER) \<longrightarrow>
      \<not> editingValue_p (handle_event_p now (SDL_KEYDOWN k) s) \<and>
      (handle_event_p now (SDL_KEYDOWN k) s)
        \<lparr> workspace_p := workspace_p s, editingValue_p := True \<rparr> = s \<and>
      length (workspace_p (handle_event_p now (SDL_KEYDOWN k) s)) = length (workspace_p s) \<and>
      (\<forall>j<length (workspace_p s).
         workspace_p (handle_event_p now (SDL_KEYDOWN k) s) ! j =
           (if int j = editingIdx_p s
            then (workspace_p s ! j) \<lparr> steps_p := commit_value_p (inputBuffer_p s) \<rparr>
            else workspace_p s ! j))"
  proof
    assume h: "editingValue_p s \<and> (k = SDLK_RETURN \<or> k = SDLK_KP_ENTER)"
    then have r: "handle_event_p now (SDL_KEYDOWN k) s = commitEdit_p s"
      by (auto simp: key_down_p_def)
    from h commitEdit_p_session [of s] commitEdit_p_nth [of _ s]
    show "\<not> editingValue_p (handle_event_p now (SDL_KEYDOWN k) s) \<and>
      (handle_event_p now (SDL_KEYDOWN k) s)
        \<lparr> workspace_p := workspace_p s, editingValue_p := True \<rparr> = s \<and>
      length (workspace_p (handle_event_p now (SDL_KEYDOWN k) s)) = length (workspace_p s) \<and>
      (\<forall>j<length (workspace_p s).
         workspace_p (handle_event_p now (SDL_KEYDOWN k) s) ! j =
           (if int j = editingIdx_p s
            then (workspace_p s ! j) \<lparr> steps_p := commit_value_p (inputBuffer_p s) \<rparr>
            else workspace_p s ! j))"
      unfolding r by blast
  qed
  have d: "0 \<le> editingIdx_m sm \<and> (km = SDLK_RETURN \<or> km = SDLK_KP_ENTER) \<longrightarrow>
      (editBuffer_m sm = [] \<or> editBuffer_m sm = ''-'' \<or> (\<exists>e. stoi (editBuffer_m sm) = Inl e) \<longrightarrow>
         handle_event_m nowm (SDL_KEYDOWN km) sm =
           Some (sm \<lparr> editingIdx_m := - 1, editBuffer_m := [] \<rparr>)) \<and>
      (\<forall>v. stoi (editBuffer_m sm) = Inr v \<longrightarrow>
         (editingIdx_m sm < int (length (workspace_m sm)) \<longrightarrow>
            (\<exists>r. handle_event_m nowm (SDL_KEYDOWN km) sm = Some r \<and>
               editingIdx_m r = - 1 \<and> editBuffer_m r = [] \<and>
               r \<lparr> workspace_m := workspace_m sm, editingIdx_m := editingIdx_m sm,
                    editBuffer_m := editBuffer_m sm \<rparr> = sm \<and>
               length (workspace_m r) = length (workspace_m sm) \<and>
               (\<forall>j<length (workspace_m sm).
                  workspace_m r ! j =
                    (if int j = editingIdx_m sm
                     then (workspace_m sm ! j) \<lparr> steps_m := word_of_int v \<rparr>
                     else workspace_m sm ! j)) \<and>
               sint (steps_m (workspace_m r ! nat (editingIdx_m sm))) = v)) \<and>
         (int (length (workspace_m sm)) \<le> editingIdx_m sm \<longrightarrow>
            handle_event_m nowm (SDL_KEYDOWN km) sm = None))"
  proof
    assume h: "0 \<le> editingIdx_m sm \<and> (km = SDLK_RETURN \<or> km = SDLK_KP_ENTER)"
    then have r: "handle_event_m nowm (SDL_KEYDOWN km) sm = map_option end_edit_m (store_m sm)"
      by (auto simp: key_down_m_def)
    have d1: "editBuffer_m sm = [] \<or> editBuffer_m sm = ''-'' \<or>
        (\<exists>e. stoi (editBuffer_m sm) = Inl e) \<longrightarrow>
         map_option end_edit_m (store_m sm) =
           Some (sm \<lparr> editingIdx_m := - 1, editBuffer_m := [] \<rparr>)"
      by (auto simp: store_m_def end_edit_m_def)
    have d2: "\<forall>v. stoi (editBuffer_m sm) = Inr v \<longrightarrow>
         (editingIdx_m sm < int (length (workspace_m sm)) \<longrightarrow>
            (\<exists>r. map_option end_edit_m (store_m sm) = Some r \<and>
               editingIdx_m r = - 1 \<and> editBuffer_m r = [] \<and>
               r \<lparr> workspace_m := workspace_m sm, editingIdx_m := editingIdx_m sm,
                    editBuffer_m := editBuffer_m sm \<rparr> = sm \<and>
               length (workspace_m r) = length (workspace_m sm) \<and>
               (\<forall>j<length (workspace_m sm).
                  workspace_m r ! j =
                    (if int j = editingIdx_m sm
                     then (workspace_m sm ! j) \<lparr> steps_m := word_of_int v \<rparr>
                     else workspace_m sm ! j)) \<and>
               sint (steps_m (workspace_m r ! nat (editingIdx_m sm))) = v)) \<and>
         (int (length (workspace_m sm)) \<le> editingIdx_m sm \<longrightarrow>
            map_option end_edit_m (store_m sm) = None)"
    proof (intro allI impI conjI)
      fix v assume v: "stoi (editBuffer_m sm) = Inr v"
      from h have i0: "0 \<le> editingIdx_m sm" by simp
      {
        assume "int (length (workspace_m sm)) \<le> editingIdx_m sm"
        with store_m_Inr(2) [OF v i0] show "map_option end_edit_m (store_m sm) = None" by simp
      }
      {
        assume "editingIdx_m sm < int (length (workspace_m sm))"
        with store_m_Inr(1) [OF v i0] obtain r0 where r0: "store_m sm = Some r0"
          "r0 \<lparr> workspace_m := workspace_m sm \<rparr> = sm"
          "length (workspace_m r0) = length (workspace_m sm)"
          "\<forall>j<length (workspace_m sm).
                 workspace_m r0 ! j =
                   (if int j = editingIdx_m sm
                    then (workspace_m sm ! j) \<lparr> steps_m := word_of_int v \<rparr>
                    else workspace_m sm ! j)"
          "sint (steps_m (workspace_m r0 ! nat (editingIdx_m sm))) = v"
          by blast
        have f: "(end_edit_m r0) \<lparr> workspace_m := workspace_m sm, editingIdx_m := editingIdx_m sm,
                    editBuffer_m := editBuffer_m sm \<rparr> =
                 (r0 \<lparr> workspace_m := workspace_m sm \<rparr>) \<lparr> editingIdx_m := editingIdx_m sm,
                    editBuffer_m := editBuffer_m sm \<rparr>"
          by (simp add: end_edit_m_def)
        have f2: "(end_edit_m r0) \<lparr> workspace_m := workspace_m sm, editingIdx_m := editingIdx_m sm,
                    editBuffer_m := editBuffer_m sm \<rparr> = sm"
          unfolding f r0(2) by simp
        have g: "editingIdx_m (end_edit_m r0) = - 1" "editBuffer_m (end_edit_m r0) = []"
          "workspace_m (end_edit_m r0) = workspace_m r0"
          by (simp_all add: end_edit_m_def)
        from r0 f2 g
        show "\<exists>r. map_option end_edit_m (store_m sm) = Some r \<and>
               editingIdx_m r = - 1 \<and> editBuffer_m r = [] \<and>
               r \<lparr> workspace_m := workspace_m sm, editingIdx_m := editingIdx_m sm,
                    editBuffer_m := editBuffer_m sm \<rparr> = sm \<and>
               length (workspace_m r) = length (workspace_m sm) \<and>
               (\<forall>j<length (workspace_m sm).
                  workspace_m r ! j =
                    (if int j = editingIdx_m sm
                     then (workspace_m sm ! j) \<lparr> steps_m := word_of_int v \<rparr>
                     else workspace_m sm ! j)) \<and>
               sint (steps_m (workspace_m r ! nat (editingIdx_m sm))) = v"
          by (intro exI [of _ "end_edit_m r0"]) simp
      }
    qed
    from d1 d2 show "(editBuffer_m sm = [] \<or> editBuffer_m sm = ''-'' \<or> (\<exists>e. stoi (editBuffer_m sm) = Inl e) \<longrightarrow>
         handle_event_m nowm (SDL_KEYDOWN km) sm =
           Some (sm \<lparr> editingIdx_m := - 1, editBuffer_m := [] \<rparr>)) \<and>
      (\<forall>v. stoi (editBuffer_m sm) = Inr v \<longrightarrow>
         (editingIdx_m sm < int (length (workspace_m sm)) \<longrightarrow>
            (\<exists>r. handle_event_m nowm (SDL_KEYDOWN km) sm = Some r \<and>
               editingIdx_m r = - 1 \<and> editBuffer_m r = [] \<and>
               r \<lparr> workspace_m := workspace_m sm, editingIdx_m := editingIdx_m sm,
                    editBuffer_m := editBuffer_m sm \<rparr> = sm \<and>
               length (workspace_m r) = length (workspace_m sm) \<and>
               (\<forall>j<length (workspace_m sm).
                  workspace_m r ! j =
                    (if int j = editingIdx_m sm
                     then (workspace_m sm ! j) \<lparr> steps_m := word_of_int v \<rparr>
                     else workspace_m sm ! j)) \<and>
               sint (steps_m (workspace_m r ! nat (editingIdx_m sm))) = v)) \<and>
         (int (length (workspace_m sm)) \<le> editingIdx_m sm \<longrightarrow>
            handle_event_m nowm (SDL_KEYDOWN km) sm = None))"
      unfolding r by (intro conjI)
  qed
  have e: "\<exists>r. reach_m r \<and> editingIdx_m r = 0 \<and> workspace_m r = [] \<and>
      handle_event_m nowm (SDL_KEYDOWN SDLK_RETURN) r = None"
  proof -
    from c1_run obtain r where r: "run_m c1_events init_m = Some r"
      "editingIdx_m r = 0" "editBuffer_m r = ''10''" "workspace_m r = []"
      by auto
    have "reach_m r" by (rule run_m_reach [OF reach_init_m r(1)])
    moreover have "handle_event_m nowm (SDL_KEYDOWN SDLK_RETURN) r = None"
      using r(2,3,4)
      by (simp add: key_down_m_def store_m_def stoi_def isspace_def isdigit_def Let_def)
    ultimately show ?thesis using r by blast
  qed
  from a b b2 b3 b4 c d e stoi_examples show ?thesis by (intro conjI)
qed

text \<open>
  The theorem at sessions on a block of value 7. \<^verbatim>\<open>part_000\<close> commits -15 for \<open>-15\<close>,
  0 for the empty buffer, and 0 for eleven nines, on which \<^verbatim>\<open>std::stoi\<close> throws.
  \<^verbatim>\<open>main.cpp\<close> commits 42 for \<open>42\<close>, keeps 7 for the empty buffer, and has no result
  when the edited index is 1 in a workspace of one block.
\<close>

theorem C1_commit_witness:
  "map steps_p (workspace_p (handle_event_p 0 (SDL_KEYDOWN SDLK_RETURN) (edit_p ''-15''))) = [- 15] \<and>
   \<not> editingValue_p (handle_event_p 0 (SDL_KEYDOWN SDLK_RETURN) (edit_p ''-15'')) \<and>
   stoi ''-15'' = Inr (- 15) \<and> wf_buffer ''-15'' \<and> buffer_value ''-15'' = - 15 \<and>
   map steps_p (workspace_p (handle_event_p 0 (SDL_KEYDOWN SDLK_KP_ENTER) (edit_p []))) = [0] \<and>
   stoi ''99999999999'' = Inl out_of_range \<and> wf_buffer ''99999999999'' \<and>
   commit_value_p ''99999999999'' = 0 \<and>
   map_option (\<lambda>s. (map steps_m (workspace_m s), editingIdx_m s, editBuffer_m s))
     (handle_event_m 0 (SDL_KEYDOWN SDLK_RETURN) (edit_m ''42'')) = Some ([42], - 1, []) \<and>
   map_option (\<lambda>s. (map steps_m (workspace_m s), editingIdx_m s, editBuffer_m s))
     (handle_event_m 0 (SDL_KEYDOWN SDLK_KP_ENTER) (edit_m [])) = Some ([7], - 1, []) \<and>
   handle_event_m 0 (SDL_KEYDOWN SDLK_RETURN) ((edit_m ''42'') \<lparr> editingIdx_m := 1 \<rparr>) = None"
  using C1_commit [of "''-15''" "edit_p ''-15''" SDLK_RETURN 0 "edit_m ''42''" SDLK_RETURN 0]
    C1_commit [of "''99999999999''" "edit_p []" SDLK_KP_ENTER 0 "edit_m []" SDLK_KP_ENTER 0]
    C1_commit [of "[]" "edit_p []" SDLK_KP_ENTER 0 "(edit_m ''42'') \<lparr> editingIdx_m := 1 \<rparr>" SDLK_RETURN 0]
  by (simp add: edit_p_def edit_m_def globals_p_def globals_m_def blk_m_def blk_p_def
      stoi_def isspace_def isdigit_def Let_def buffer_value_def int32_range_def
      key_down_p_def commitEdit_p_def commit_value_p_def key_down_m_def store_m_def
      end_edit_m_def)

text \<open>
  The claim as stated fails in \<^verbatim>\<open>main.cpp\<close>: Enter on the empty buffer, or on a lone
  minus, leaves the value 7 of the edited block where the claim says 0.
\<close>

theorem C1_commit_counterexample:
  "map_option (\<lambda>s. map steps_m (workspace_m s))
     (handle_event_m 0 (SDL_KEYDOWN SDLK_RETURN) (edit_m [])) = Some [7] \<and>
   map_option (\<lambda>s. map steps_m (workspace_m s))
     (handle_event_m 0 (SDL_KEYDOWN SDLK_RETURN) (edit_m ''-'')) = Some [7]"
  by (simp add: edit_m_def globals_m_def blk_m_def key_down_m_def store_m_def end_edit_m_def)

section \<open>C10: the edit buffer of \<^verbatim>\<open>main.cpp\<close>\<close>

text \<open>
  Claim C10, as amended. In \<^verbatim>\<open>main.cpp\<close>, text input never appends to a buffer that
  already holds 5 or more characters, but a session starts with the decimal rendering of
  the block's value, which can be longer. In every reachable state the buffer is an
  optional minus followed by digits, holds at most 11 characters and denotes a value of
  the 32-bit \<^verbatim>\<open>int\<close> range; so \<^verbatim>\<open>std::stoi\<close> at commit returns that value and never
  throws: the \<^verbatim>\<open>catch\<close> branch is unreachable. A buffer of at most 5 characters
  denotes a value within -9999..99999.
\<close>

theorem C10_edit_buffer:
  assumes "reach_m s"
  shows "wf_buffer (editBuffer_m s) \<and>
     int32_range (buffer_value (editBuffer_m s)) \<and>
     length (editBuffer_m s) \<le> 11 \<and>
     (editBuffer_m s \<noteq> [] \<and> editBuffer_m s \<noteq> ''-'' \<longrightarrow>
        stoi (editBuffer_m s) = Inr (buffer_value (editBuffer_m s))) \<and>
     (length (editBuffer_m s) \<le> 5 \<longrightarrow>
        - 9999 \<le> buffer_value (editBuffer_m s) \<and> buffer_value (editBuffer_m s) \<le> 99999) \<and>
     (\<forall>tx. length (editBuffer_m (text_input_m tx s)) \<le> max 5 (length (editBuffer_m s)))"
proof -
  from assms have ok: "buffer_ok (editBuffer_m s)" by (rule reach_m_buffer_ok)
  then have w: "wf_buffer (editBuffer_m s)" "int32_range (buffer_value (editBuffer_m s))"
    "length (editBuffer_m s) \<le> 11" by (simp_all add: buffer_ok_def)
  from stoi_wf [OF w(1) _ _ w(2)] buffer_value_short [OF w(1)] buffer_ok_text_input [OF ok] w
  show ?thesis by blast
qed

text \<open>
  The claim as stated fails: the run \<open>c10_events\<close> ends with the six characters
  \<open>100004\<close> in the buffer, the value of the block after one turn of the wheel.
\<close>

theorem C10_edit_buffer_counterexample:
  "map_option (\<lambda>s. (editBuffer_m s, map steps_m (workspace_m s))) (run_m c10_events init_m) =
     Some (''100004'', [100004])"
  by (rule c10_run)

text \<open>
  The theorem at the end state of that run: it is reachable, its buffer has six characters,
  and \<^verbatim>\<open>std::stoi\<close> returns 100004 on it.
\<close>

theorem C10_edit_buffer_witness:
  "reach_m (the (run_m c10_events init_m)) \<and>
   length (editBuffer_m (the (run_m c10_events init_m))) = 6 \<and>
   stoi (editBuffer_m (the (run_m c10_events init_m))) = Inr 100004"
proof -
  obtain s where s: "run_m c10_events init_m = Some s" "editBuffer_m s = ''100004''"
    using c10_run by auto
  have r: "reach_m s" using run_m_reach [OF reach_init_m s(1)] .
  have v: "buffer_value ''100004'' = 100004" by (simp add: buffer_value_def)
  from C10_edit_buffer [OF r] s v r show ?thesis by simp
qed

end
